theory Spec2Isabelle
  imports Complex_Main
begin

section \<open>Python values\<close>

text \<open>
  An event is plain structured data as a JSON decoder produces it. A Python float is an
  IEEE 754 binary64 number: \<open>Finite s m e\<close> stands for \<open>(-1)^s * m * 2^e\<close>, and the doubles
  are the values with \<open>is_double\<close>; NaN payloads are not distinguished. A dictionary is an
  association list from keys to values, read with \<open>map_of\<close>. The handler looks up the
  ASCII keys of the source only, so a key is a HOL string; a key of another type or with a
  code point above 255 could never be found and is left out. A \<open>str\<close> value is a list of
  Unicode code points. The texts the handler writes itself (status, message, errors) are
  ASCII literals of the source and are HOL strings.
\<close>

datatype pyfloat = Finite bool nat int | Infinity bool | NaN

datatype pyval =
    PNone
  | PBool bool
  | PInt int
  | PFloat pyfloat
  | PStr "nat list"
  | PList "pyval list"
  | PDict "(string \<times> pyval) list"

datatype py_error = OverflowError | KeyError | AttributeError | TypeError

record envelope =
  status :: string
  message :: string
  data :: "(string \<times> pyval) list"
  errors :: "string list"

fun is_double :: "pyfloat \<Rightarrow> bool" where
  "is_double (Finite s m e) =
     (m < 2 ^ 53 \<and> - 1074 \<le> e \<and> e \<le> 971 \<and> (e = - 1074 \<or> 2 ^ 52 \<le> m))"
| "is_double (Infinity s) = True"
| "is_double NaN = True"

subsection \<open>isinstance\<close>

text \<open>\<open>bool\<close> is a subclass of \<open>int\<close> in Python, so \<open>isinstance(True, int)\<close> holds.\<close>

fun isinstance_str :: "pyval \<Rightarrow> bool" where
  "isinstance_str (PStr s) = True"
| "isinstance_str v = False"

fun isinstance_int :: "pyval \<Rightarrow> bool" where
  "isinstance_int (PInt i) = True"
| "isinstance_int (PBool b) = True"
| "isinstance_int v = False"

text \<open>The integer a value of class \<open>int\<close> stands for (\<open>True\<close> is 1, \<open>False\<close> is 0).\<close>

fun int_value :: "pyval \<Rightarrow> int" where
  "int_value (PInt i) = i"
| "int_value (PBool b) = (if b then 1 else 0)"
| "int_value v = 0"

subsection \<open>Strings\<close>

text \<open>
  A \<open>str\<close> is a sequence of Unicode code points, here naturals. The string literals of the
  source are ASCII; \<open>ascii\<close> gives the \<open>str\<close> that such a literal denotes.
\<close>

definition ascii :: "string \<Rightarrow> nat list" where
  "ascii s = map of_char s"

text \<open>
  Whitespace as \<open>str.isspace\<close>, \<open>str.strip\<close> and the pattern class \<open>\s\<close> of a \<open>str\<close>
  pattern see it: the code points of bidirectional class WS, B or S and of category Zs.
\<close>

definition whitespace :: "nat list" where
  "whitespace =
    [0x09, 0x0A, 0x0B, 0x0C, 0x0D, 0x1C, 0x1D, 0x1E, 0x1F, 0x20, 0x85, 0xA0, 0x1680,
     0x2000, 0x2001, 0x2002, 0x2003, 0x2004, 0x2005, 0x2006, 0x2007, 0x2008, 0x2009,
     0x200A, 0x2028, 0x2029, 0x202F, 0x205F, 0x3000]"

definition is_space :: "nat \<Rightarrow> bool" where
  "is_space c \<longleftrightarrow> c \<in> set whitespace"

definition py_strip :: "nat list \<Rightarrow> nat list" where
  "py_strip s = rev (dropWhile is_space (rev (dropWhile is_space s)))"

subsection \<open>Case conversion\<close>

text \<open>
  The case mappings of the Unicode character database (version 14.0.0, that of CPython
  3.11) above ASCII. An entry \<open>(lo, hi, step, target)\<close> maps the code points \<open>lo\<close>,
  \<open>lo + step\<close>, ... up to \<open>hi\<close> to \<open>target\<close>, \<open>target + step\<close>, ...; \<open>upper_special\<close> lists the
  code points whose upper case is more than one code point.
\<close>

definition lower_ranges :: "(nat \<times> nat \<times> nat \<times> nat) list" where
  "lower_ranges =
    [(0xC0, 0xD6, 1, 0xE0), (0xD8, 0xDE, 1, 0xF8), (0x100, 0x12E, 2, 0x101),
     (0x132, 0x136, 2, 0x133), (0x139, 0x147, 2, 0x13A), (0x14A, 0x176, 2, 0x14B),
     (0x178, 0x178, 1, 0xFF), (0x179, 0x17D, 2, 0x17A), (0x181, 0x181, 1, 0x253),
     (0x182, 0x184, 2, 0x183), (0x186, 0x186, 1, 0x254), (0x187, 0x187, 1, 0x188),
     (0x189, 0x18A, 1, 0x256), (0x18B, 0x18B, 1, 0x18C), (0x18E, 0x18E, 1, 0x1DD),
     (0x18F, 0x18F, 1, 0x259), (0x190, 0x190, 1, 0x25B), (0x191, 0x191, 1, 0x192),
     (0x193, 0x193, 1, 0x260), (0x194, 0x194, 1, 0x263), (0x196, 0x196, 1, 0x269),
     (0x197, 0x197, 1, 0x268), (0x198, 0x198, 1, 0x199), (0x19C, 0x19C, 1, 0x26F),
     (0x19D, 0x19D, 1, 0x272), (0x19F, 0x19F, 1, 0x275), (0x1A0, 0x1A4, 2, 0x1A1),
     (0x1A6, 0x1A6, 1, 0x280), (0x1A7, 0x1A7, 1, 0x1A8), (0x1A9, 0x1A9, 1, 0x283),
     (0x1AC, 0x1AC, 1, 0x1AD), (0x1AE, 0x1AE, 1, 0x288), (0x1AF, 0x1AF, 1, 0x1B0),
     (0x1B1, 0x1B2, 1, 0x28A), (0x1B3, 0x1B5, 2, 0x1B4), (0x1B7, 0x1B7, 1, 0x292),
     (0x1B8, 0x1B8, 1, 0x1B9), (0x1BC, 0x1BC, 1, 0x1BD), (0x1C4, 0x1C4, 1, 0x1C6),
     (0x1C5, 0x1C5, 1, 0x1C6), (0x1C7, 0x1C7, 1, 0x1C9), (0x1C8, 0x1C8, 1, 0x1C9),
     (0x1CA, 0x1CA, 1, 0x1CC), (0x1CB, 0x1DB, 2, 0x1CC), (0x1DE, 0x1EE, 2, 0x1DF),
     (0x1F1, 0x1F1, 1, 0x1F3), (0x1F2, 0x1F4, 2, 0x1F3), (0x1F6, 0x1F6, 1, 0x195),
     (0x1F7, 0x1F7, 1, 0x1BF), (0x1F8, 0x21E, 2, 0x1F9), (0x220, 0x220, 1, 0x19E),
     (0x222, 0x232, 2, 0x223), (0x23A, 0x23A, 1, 0x2C65), (0x23B, 0x23B, 1, 0x23C),
     (0x23D, 0x23D, 1, 0x19A), (0x23E, 0x23E, 1, 0x2C66), (0x241, 0x241, 1, 0x242),
     (0x243, 0x243, 1, 0x180), (0x244, 0x244, 1, 0x289), (0x245, 0x245, 1, 0x28C),
     (0x246, 0x24E, 2, 0x247), (0x370, 0x372, 2, 0x371), (0x376, 0x376, 1, 0x377),
     (0x37F, 0x37F, 1, 0x3F3), (0x386, 0x386, 1, 0x3AC), (0x388, 0x38A, 1, 0x3AD),
     (0x38C, 0x38C, 1, 0x3CC), (0x38E, 0x38F, 1, 0x3CD), (0x391, 0x3A1, 1, 0x3B1),
     (0x3A3, 0x3AB, 1, 0x3C3), (0x3CF, 0x3CF, 1, 0x3D7), (0x3D8, 0x3EE, 2, 0x3D9),
     (0x3F4, 0x3F4, 1, 0x3B8), (0x3F7, 0x3F7, 1, 0x3F8), (0x3F9, 0x3F9, 1, 0x3F2),
     (0x3FA, 0x3FA, 1, 0x3FB), (0x3FD, 0x3FF, 1, 0x37B), (0x400, 0x40F, 1, 0x450),
     (0x410, 0x42F, 1, 0x430), (0x460, 0x480, 2, 0x461), (0x48A, 0x4BE, 2, 0x48B),
     (0x4C0, 0x4C0, 1, 0x4CF), (0x4C1, 0x4CD, 2, 0x4C2), (0x4D0, 0x52E, 2, 0x4D1),
     (0x531, 0x556, 1, 0x561), (0x10A0, 0x10C5, 1, 0x2D00), (0x10C7, 0x10C7, 1, 0x2D27),
     (0x10CD, 0x10CD, 1, 0x2D2D), (0x13A0, 0x13EF, 1, 0xAB70), (0x13F0, 0x13F5, 1, 0x13F8),
     (0x1C90, 0x1CBA, 1, 0x10D0), (0x1CBD, 0x1CBF, 1, 0x10FD), (0x1E00, 0x1E94, 2, 0x1E01),
     (0x1E9E, 0x1E9E, 1, 0xDF), (0x1EA0, 0x1EFE, 2, 0x1EA1), (0x1F08, 0x1F0F, 1, 0x1F00),
     (0x1F18, 0x1F1D, 1, 0x1F10), (0x1F28, 0x1F2F, 1, 0x1F20), (0x1F38, 0x1F3F, 1, 0x1F30),
     (0x1F48, 0x1F4D, 1, 0x1F40), (0x1F59, 0x1F5F, 2, 0x1F51), (0x1F68, 0x1F6F, 1, 0x1F60),
     (0x1F88, 0x1F8F, 1, 0x1F80), (0x1F98, 0x1F9F, 1, 0x1F90), (0x1FA8, 0x1FAF, 1, 0x1FA0),
     (0x1FB8, 0x1FB9, 1, 0x1FB0), (0x1FBA, 0x1FBB, 1, 0x1F70), (0x1FBC, 0x1FBC, 1, 0x1FB3),
     (0x1FC8, 0x1FCB, 1, 0x1F72), (0x1FCC, 0x1FCC, 1, 0x1FC3), (0x1FD8, 0x1FD9, 1, 0x1FD0),
     (0x1FDA, 0x1FDB, 1, 0x1F76), (0x1FE8, 0x1FE9, 1, 0x1FE0), (0x1FEA, 0x1FEB, 1, 0x1F7A),
     (0x1FEC, 0x1FEC, 1, 0x1FE5), (0x1FF8, 0x1FF9, 1, 0x1F78), (0x1FFA, 0x1FFB, 1, 0x1F7C),
     (0x1FFC, 0x1FFC, 1, 0x1FF3), (0x2126, 0x2126, 1, 0x3C9), (0x212A, 0x212A, 1, 0x6B),
     (0x212B, 0x212B, 1, 0xE5), (0x2132, 0x2132, 1, 0x214E), (0x2160, 0x216F, 1, 0x2170),
     (0x2183, 0x2183, 1, 0x2184), (0x24B6, 0x24CF, 1, 0x24D0), (0x2C00, 0x2C2F, 1, 0x2C30),
     (0x2C60, 0x2C60, 1, 0x2C61), (0x2C62, 0x2C62, 1, 0x26B), (0x2C63, 0x2C63, 1, 0x1D7D),
     (0x2C64, 0x2C64, 1, 0x27D), (0x2C67, 0x2C6B, 2, 0x2C68), (0x2C6D, 0x2C6D, 1, 0x251),
     (0x2C6E, 0x2C6E, 1, 0x271), (0x2C6F, 0x2C6F, 1, 0x250), (0x2C70, 0x2C70, 1, 0x252),
     (0x2C72, 0x2C72, 1, 0x2C73), (0x2C75, 0x2C75, 1, 0x2C76), (0x2C7E, 0x2C7F, 1, 0x23F),
     (0x2C80, 0x2CE2, 2, 0x2C81), (0x2CEB, 0x2CED, 2, 0x2CEC), (0x2CF2, 0x2CF2, 1, 0x2CF3),
     (0xA640, 0xA66C, 2, 0xA641), (0xA680, 0xA69A, 2, 0xA681), (0xA722, 0xA72E, 2, 0xA723),
     (0xA732, 0xA76E, 2, 0xA733), (0xA779, 0xA77B, 2, 0xA77A), (0xA77D, 0xA77D, 1, 0x1D79),
     (0xA77E, 0xA786, 2, 0xA77F), (0xA78B, 0xA78B, 1, 0xA78C), (0xA78D, 0xA78D, 1, 0x265),
     (0xA790, 0xA792, 2, 0xA791), (0xA796, 0xA7A8, 2, 0xA797), (0xA7AA, 0xA7AA, 1, 0x266),
     (0xA7AB, 0xA7AB, 1, 0x25C), (0xA7AC, 0xA7AC, 1, 0x261), (0xA7AD, 0xA7AD, 1, 0x26C),
     (0xA7AE, 0xA7AE, 1, 0x26A), (0xA7B0, 0xA7B0, 1, 0x29E), (0xA7B1, 0xA7B1, 1, 0x287),
     (0xA7B2, 0xA7B2, 1, 0x29D), (0xA7B3, 0xA7B3, 1, 0xAB53), (0xA7B4, 0xA7C2, 2, 0xA7B5),
     (0xA7C4, 0xA7C4, 1, 0xA794), (0xA7C5, 0xA7C5, 1, 0x282), (0xA7C6, 0xA7C6, 1, 0x1D8E),
     (0xA7C7, 0xA7C9, 2, 0xA7C8), (0xA7D0, 0xA7D0, 1, 0xA7D1), (0xA7D6, 0xA7D8, 2, 0xA7D7),
     (0xA7F5, 0xA7F5, 1, 0xA7F6), (0xFF21, 0xFF3A, 1, 0xFF41),
     (0x10400, 0x10427, 1, 0x10428), (0x104B0, 0x104D3, 1, 0x104D8),
     (0x10570, 0x10594, 2, 0x10597), (0x10571, 0x10579, 2, 0x10598),
     (0x1057D, 0x10589, 2, 0x105A4), (0x1058D, 0x10591, 2, 0x105B4),
     (0x10595, 0x10595, 1, 0x105BC), (0x10C80, 0x10CB2, 1, 0x10CC0),
     (0x118A0, 0x118BF, 1, 0x118C0), (0x16E40, 0x16E5F, 1, 0x16E60),
     (0x1E900, 0x1E921, 1, 0x1E922)]"

definition upper_ranges :: "(nat \<times> nat \<times> nat \<times> nat) list" where
  "upper_ranges =
    [(0xB5, 0xB5, 1, 0x39C), (0xE0, 0xF6, 1, 0xC0), (0xF8, 0xFE, 1, 0xD8),
     (0xFF, 0xFF, 1, 0x178), (0x101, 0x12F, 2, 0x100), (0x131, 0x131, 1, 0x49),
     (0x133, 0x137, 2, 0x132), (0x13A, 0x148, 2, 0x139), (0x14B, 0x177, 2, 0x14A),
     (0x17A, 0x17E, 2, 0x179), (0x17F, 0x17F, 1, 0x53), (0x180, 0x180, 1, 0x243),
     (0x183, 0x185, 2, 0x182), (0x188, 0x188, 1, 0x187), (0x18C, 0x18C, 1, 0x18B),
     (0x192, 0x192, 1, 0x191), (0x195, 0x195, 1, 0x1F6), (0x199, 0x199, 1, 0x198),
     (0x19A, 0x19A, 1, 0x23D), (0x19E, 0x19E, 1, 0x220), (0x1A1, 0x1A5, 2, 0x1A0),
     (0x1A8, 0x1A8, 1, 0x1A7), (0x1AD, 0x1AD, 1, 0x1AC), (0x1B0, 0x1B0, 1, 0x1AF),
     (0x1B4, 0x1B6, 2, 0x1B3), (0x1B9, 0x1B9, 1, 0x1B8), (0x1BD, 0x1BD, 1, 0x1BC),
     (0x1BF, 0x1BF, 1, 0x1F7), (0x1C5, 0x1C5, 1, 0x1C4), (0x1C6, 0x1C6, 1, 0x1C4),
     (0x1C8, 0x1C8, 1, 0x1C7), (0x1C9, 0x1C9, 1, 0x1C7), (0x1CB, 0x1CB, 1, 0x1CA),
     (0x1CC, 0x1CC, 1, 0x1CA), (0x1CE, 0x1DC, 2, 0x1CD), (0x1DD, 0x1DD, 1, 0x18E),
     (0x1DF, 0x1EF, 2, 0x1DE), (0x1F2, 0x1F2, 1, 0x1F1), (0x1F3, 0x1F3, 1, 0x1F1),
     (0x1F5, 0x1F5, 1, 0x1F4), (0x1F9, 0x21F, 2, 0x1F8), (0x223, 0x233, 2, 0x222),
     (0x23C, 0x23C, 1, 0x23B), (0x23F, 0x240, 1, 0x2C7E), (0x242, 0x242, 1, 0x241),
     (0x247, 0x24F, 2, 0x246), (0x250, 0x250, 1, 0x2C6F), (0x251, 0x251, 1, 0x2C6D),
     (0x252, 0x252, 1, 0x2C70), (0x253, 0x253, 1, 0x181), (0x254, 0x254, 1, 0x186),
     (0x256, 0x257, 1, 0x189), (0x259, 0x259, 1, 0x18F), (0x25B, 0x25B, 1, 0x190),
     (0x25C, 0x25C, 1, 0xA7AB), (0x260, 0x260, 1, 0x193), (0x261, 0x261, 1, 0xA7AC),
     (0x263, 0x263, 1, 0x194), (0x265, 0x265, 1, 0xA78D), (0x266, 0x266, 1, 0xA7AA),
     (0x268, 0x268, 1, 0x197), (0x269, 0x269, 1, 0x196), (0x26A, 0x26A, 1, 0xA7AE),
     (0x26B, 0x26B, 1, 0x2C62), (0x26C, 0x26C, 1, 0xA7AD), (0x26F, 0x26F, 1, 0x19C),
     (0x271, 0x271, 1, 0x2C6E), (0x272, 0x272, 1, 0x19D), (0x275, 0x275, 1, 0x19F),
     (0x27D, 0x27D, 1, 0x2C64), (0x280, 0x280, 1, 0x1A6), (0x282, 0x282, 1, 0xA7C5),
     (0x283, 0x283, 1, 0x1A9), (0x287, 0x287, 1, 0xA7B1), (0x288, 0x288, 1, 0x1AE),
     (0x289, 0x289, 1, 0x244), (0x28A, 0x28B, 1, 0x1B1), (0x28C, 0x28C, 1, 0x245),
     (0x292, 0x292, 1, 0x1B7), (0x29D, 0x29D, 1, 0xA7B2), (0x29E, 0x29E, 1, 0xA7B0),
     (0x345, 0x345, 1, 0x399), (0x371, 0x373, 2, 0x370), (0x377, 0x377, 1, 0x376),
     (0x37B, 0x37D, 1, 0x3FD), (0x3AC, 0x3AC, 1, 0x386), (0x3AD, 0x3AF, 1, 0x388),
     (0x3B1, 0x3C1, 1, 0x391), (0x3C2, 0x3C2, 1, 0x3A3), (0x3C3, 0x3CB, 1, 0x3A3),
     (0x3CC, 0x3CC, 1, 0x38C), (0x3CD, 0x3CE, 1, 0x38E), (0x3D0, 0x3D0, 1, 0x392),
     (0x3D1, 0x3D1, 1, 0x398), (0x3D5, 0x3D5, 1, 0x3A6), (0x3D6, 0x3D6, 1, 0x3A0),
     (0x3D7, 0x3D7, 1, 0x3CF), (0x3D9, 0x3EF, 2, 0x3D8), (0x3F0, 0x3F0, 1, 0x39A),
     (0x3F1, 0x3F1, 1, 0x3A1), (0x3F2, 0x3F2, 1, 0x3F9), (0x3F3, 0x3F3, 1, 0x37F),
     (0x3F5, 0x3F5, 1, 0x395), (0x3F8, 0x3F8, 1, 0x3F7), (0x3FB, 0x3FB, 1, 0x3FA),
     (0x430, 0x44F, 1, 0x410), (0x450, 0x45F, 1, 0x400), (0x461, 0x481, 2, 0x460),
     (0x48B, 0x4BF, 2, 0x48A), (0x4C2, 0x4CE, 2, 0x4C1), (0x4CF, 0x4CF, 1, 0x4C0),
     (0x4D1, 0x52F, 2, 0x4D0), (0x561, 0x586, 1, 0x531), (0x10D0, 0x10FA, 1, 0x1C90),
     (0x10FD, 0x10FF, 1, 0x1CBD), (0x13F8, 0x13FD, 1, 0x13F0), (0x1C80, 0x1C80, 1, 0x412),
     (0x1C81, 0x1C81, 1, 0x414), (0x1C82, 0x1C82, 1, 0x41E), (0x1C83, 0x1C84, 1, 0x421),
     (0x1C85, 0x1C85, 1, 0x422), (0x1C86, 0x1C86, 1, 0x42A), (0x1C87, 0x1C87, 1, 0x462),
     (0x1C88, 0x1C88, 1, 0xA64A), (0x1D79, 0x1D79, 1, 0xA77D), (0x1D7D, 0x1D7D, 1, 0x2C63),
     (0x1D8E, 0x1D8E, 1, 0xA7C6), (0x1E01, 0x1E95, 2, 0x1E00), (0x1E9B, 0x1E9B, 1, 0x1E60),
     (0x1EA1, 0x1EFF, 2, 0x1EA0), (0x1F00, 0x1F07, 1, 0x1F08), (0x1F10, 0x1F15, 1, 0x1F18),
     (0x1F20, 0x1F27, 1, 0x1F28), (0x1F30, 0x1F37, 1, 0x1F38), (0x1F40, 0x1F45, 1, 0x1F48),
     (0x1F51, 0x1F57, 2, 0x1F59), (0x1F60, 0x1F67, 1, 0x1F68), (0x1F70, 0x1F71, 1, 0x1FBA),
     (0x1F72, 0x1F75, 1, 0x1FC8), (0x1F76, 0x1F77, 1, 0x1FDA), (0x1F78, 0x1F79, 1, 0x1FF8),
     (0x1F7A, 0x1F7B, 1, 0x1FEA), (0x1F7C, 0x1F7D, 1, 0x1FFA), (0x1FB0, 0x1FB1, 1, 0x1FB8),
     (0x1FBE, 0x1FBE, 1, 0x399), (0x1FD0, 0x1FD1, 1, 0x1FD8), (0x1FE0, 0x1FE1, 1, 0x1FE8),
     (0x1FE5, 0x1FE5, 1, 0x1FEC), (0x214E, 0x214E, 1, 0x2132), (0x2170, 0x217F, 1, 0x2160),
     (0x2184, 0x2184, 1, 0x2183), (0x24D0, 0x24E9, 1, 0x24B6), (0x2C30, 0x2C5F, 1, 0x2C00),
     (0x2C61, 0x2C61, 1, 0x2C60), (0x2C65, 0x2C65, 1, 0x23A), (0x2C66, 0x2C66, 1, 0x23E),
     (0x2C68, 0x2C6C, 2, 0x2C67), (0x2C73, 0x2C73, 1, 0x2C72), (0x2C76, 0x2C76, 1, 0x2C75),
     (0x2C81, 0x2CE3, 2, 0x2C80), (0x2CEC, 0x2CEE, 2, 0x2CEB), (0x2CF3, 0x2CF3, 1, 0x2CF2),
     (0x2D00, 0x2D25, 1, 0x10A0), (0x2D27, 0x2D27, 1, 0x10C7), (0x2D2D, 0x2D2D, 1, 0x10CD),
     (0xA641, 0xA66D, 2, 0xA640), (0xA681, 0xA69B, 2, 0xA680), (0xA723, 0xA72F, 2, 0xA722),
     (0xA733, 0xA76F, 2, 0xA732), (0xA77A, 0xA77C, 2, 0xA779), (0xA77F, 0xA787, 2, 0xA77E),
     (0xA78C, 0xA78C, 1, 0xA78B), (0xA791, 0xA793, 2, 0xA790), (0xA794, 0xA794, 1, 0xA7C4),
     (0xA797, 0xA7A9, 2, 0xA796), (0xA7B5, 0xA7C3, 2, 0xA7B4), (0xA7C8, 0xA7CA, 2, 0xA7C7),
     (0xA7D1, 0xA7D1, 1, 0xA7D0), (0xA7D7, 0xA7D9, 2, 0xA7D6), (0xA7F6, 0xA7F6, 1, 0xA7F5),
     (0xAB53, 0xAB53, 1, 0xA7B3), (0xAB70, 0xABBF, 1, 0x13A0), (0xFF41, 0xFF5A, 1, 0xFF21),
     (0x10428, 0x1044F, 1, 0x10400), (0x104D8, 0x104FB, 1, 0x104B0),
     (0x10597, 0x105BB, 2, 0x10570), (0x10598, 0x105A0, 2, 0x10571),
     (0x105A4, 0x105B0, 2, 0x1057D), (0x105B4, 0x105B8, 2, 0x1058D),
     (0x105BC, 0x105BC, 1, 0x10595), (0x10CC0, 0x10CF2, 1, 0x10C80),
     (0x118C0, 0x118DF, 1, 0x118A0), (0x16E60, 0x16E7F, 1, 0x16E40),
     (0x1E922, 0x1E943, 1, 0x1E900)]"

definition upper_special :: "(nat \<times> nat list) list" where
  "upper_special =
    [(0xDF, [0x53, 0x53]), (0x149, [0x2BC, 0x4E]), (0x1F0, [0x4A, 0x30C]),
     (0x390, [0x399, 0x308, 0x301]), (0x3B0, [0x3A5, 0x308, 0x301]),
     (0x587, [0x535, 0x552]), (0x1E96, [0x48, 0x331]), (0x1E97, [0x54, 0x308]),
     (0x1E98, [0x57, 0x30A]), (0x1E99, [0x59, 0x30A]), (0x1E9A, [0x41, 0x2BE]),
     (0x1F50, [0x3A5, 0x313]), (0x1F52, [0x3A5, 0x313, 0x300]),
     (0x1F54, [0x3A5, 0x313, 0x301]), (0x1F56, [0x3A5, 0x313, 0x342]),
     (0x1F80, [0x1F08, 0x399]), (0x1F81, [0x1F09, 0x399]), (0x1F82, [0x1F0A, 0x399]),
     (0x1F83, [0x1F0B, 0x399]), (0x1F84, [0x1F0C, 0x399]), (0x1F85, [0x1F0D, 0x399]),
     (0x1F86, [0x1F0E, 0x399]), (0x1F87, [0x1F0F, 0x399]), (0x1F88, [0x1F08, 0x399]),
     (0x1F89, [0x1F09, 0x399]), (0x1F8A, [0x1F0A, 0x399]), (0x1F8B, [0x1F0B, 0x399]),
     (0x1F8C, [0x1F0C, 0x399]), (0x1F8D, [0x1F0D, 0x399]), (0x1F8E, [0x1F0E, 0x399]),
     (0x1F8F, [0x1F0F, 0x399]), (0x1F90, [0x1F28, 0x399]), (0x1F91, [0x1F29, 0x399]),
     (0x1F92, [0x1F2A, 0x399]), (0x1F93, [0x1F2B, 0x399]), (0x1F94, [0x1F2C, 0x399]),
     (0x1F95, [0x1F2D, 0x399]), (0x1F96, [0x1F2E, 0x399]), (0x1F97, [0x1F2F, 0x399]),
     (0x1F98, [0x1F28, 0x399]), (0x1F99, [0x1F29, 0x399]), (0x1F9A, [0x1F2A, 0x399]),
     (0x1F9B, [0x1F2B, 0x399]), (0x1F9C, [0x1F2C, 0x399]), (0x1F9D, [0x1F2D, 0x399]),
     (0x1F9E, [0x1F2E, 0x399]), (0x1F9F, [0x1F2F, 0x399]), (0x1FA0, [0x1F68, 0x399]),
     (0x1FA1, [0x1F69, 0x399]), (0x1FA2, [0x1F6A, 0x399]), (0x1FA3, [0x1F6B, 0x399]),
     (0x1FA4, [0x1F6C, 0x399]), (0x1FA5, [0x1F6D, 0x399]), (0x1FA6, [0x1F6E, 0x399]),
     (0x1FA7, [0x1F6F, 0x399]), (0x1FA8, [0x1F68, 0x399]), (0x1FA9, [0x1F69, 0x399]),
     (0x1FAA, [0x1F6A, 0x399]), (0x1FAB, [0x1F6B, 0x399]), (0x1FAC, [0x1F6C, 0x399]),
     (0x1FAD, [0x1F6D, 0x399]), (0x1FAE, [0x1F6E, 0x399]), (0x1FAF, [0x1F6F, 0x399]),
     (0x1FB2, [0x1FBA, 0x399]), (0x1FB3, [0x391, 0x399]), (0x1FB4, [0x386, 0x399]),
     (0x1FB6, [0x391, 0x342]), (0x1FB7, [0x391, 0x342, 0x399]), (0x1FBC, [0x391, 0x399]),
     (0x1FC2, [0x1FCA, 0x399]), (0x1FC3, [0x397, 0x399]), (0x1FC4, [0x389, 0x399]),
     (0x1FC6, [0x397, 0x342]), (0x1FC7, [0x397, 0x342, 0x399]), (0x1FCC, [0x397, 0x399]),
     (0x1FD2, [0x399, 0x308, 0x300]), (0x1FD3, [0x399, 0x308, 0x301]),
     (0x1FD6, [0x399, 0x342]), (0x1FD7, [0x399, 0x308, 0x342]),
     (0x1FE2, [0x3A5, 0x308, 0x300]), (0x1FE3, [0x3A5, 0x308, 0x301]),
     (0x1FE4, [0x3A1, 0x313]), (0x1FE6, [0x3A5, 0x342]), (0x1FE7, [0x3A5, 0x308, 0x342]),
     (0x1FF2, [0x1FFA, 0x399]), (0x1FF3, [0x3A9, 0x399]), (0x1FF4, [0x38F, 0x399]),
     (0x1FF6, [0x3A9, 0x342]), (0x1FF7, [0x3A9, 0x342, 0x399]), (0x1FFC, [0x3A9, 0x399]),
     (0xFB00, [0x46, 0x46]), (0xFB01, [0x46, 0x49]), (0xFB02, [0x46, 0x4C]),
     (0xFB03, [0x46, 0x46, 0x49]), (0xFB04, [0x46, 0x46, 0x4C]), (0xFB05, [0x53, 0x54]),
     (0xFB06, [0x53, 0x54]), (0xFB13, [0x544, 0x546]), (0xFB14, [0x544, 0x535]),
     (0xFB15, [0x544, 0x53B]), (0xFB16, [0x54E, 0x546]), (0xFB17, [0x544, 0x53D])]"

fun map_ranges :: "(nat \<times> nat \<times> nat \<times> nat) list \<Rightarrow> nat \<Rightarrow> nat option" where
  "map_ranges [] c = None"
| "map_ranges ((lo, hi, step, target) # rs) c =
     (if lo \<le> c \<and> c \<le> hi \<and> (c - lo) mod step = 0 then Some (target + (c - lo))
      else map_ranges rs c)"

text \<open>
  The full lower case of one code point. Only U+0130 has one of more than one code point.
\<close>

definition to_lower :: "nat \<Rightarrow> nat list" where
  "to_lower c =
     (if c < 0x80 then [if 0x41 \<le> c \<and> c \<le> 0x5A then c + 0x20 else c]
      else if c = 0x130 then [0x69, 0x307]
      else case map_ranges lower_ranges c of None \<Rightarrow> [c] | Some l \<Rightarrow> [l])"

text \<open>The full upper case of one code point.\<close>

definition to_upper :: "nat \<Rightarrow> nat list" where
  "to_upper c =
     (if c < 0x80 then [if 0x61 \<le> c \<and> c \<le> 0x7A then c - 0x20 else c]
      else case map_of upper_special c of
             Some u \<Rightarrow> u
           | None \<Rightarrow> (case map_ranges upper_ranges c of None \<Rightarrow> [c] | Some u \<Rightarrow> [u]))"

text \<open>
  The properties Cased and Case_Ignorable, as inclusive ranges of code points. \<open>str.lower\<close>
  reads them around a capital sigma.
\<close>

definition cased_ranges :: "(nat \<times> nat) list" where
  "cased_ranges =
    [(0x41, 0x5A), (0x61, 0x7A), (0xAA, 0xAA), (0xB5, 0xB5), (0xBA, 0xBA), (0xC0, 0xD6),
     (0xD8, 0xF6), (0xF8, 0x1BA), (0x1BC, 0x1BF), (0x1C4, 0x293), (0x295, 0x2B8),
     (0x2C0, 0x2C1), (0x2E0, 0x2E4), (0x345, 0x345), (0x370, 0x373), (0x376, 0x377),
     (0x37A, 0x37D), (0x37F, 0x37F), (0x386, 0x386), (0x388, 0x38A), (0x38C, 0x38C),
     (0x38E, 0x3A1), (0x3A3, 0x3F5), (0x3F7, 0x481), (0x48A, 0x52F), (0x531, 0x556),
     (0x560, 0x588), (0x10A0, 0x10C5), (0x10C7, 0x10C7), (0x10CD, 0x10CD), (0x10D0, 0x10FA),
     (0x10FD, 0x10FF), (0x13A0, 0x13F5), (0x13F8, 0x13FD), (0x1C80, 0x1C88),
     (0x1C90, 0x1CBA), (0x1CBD, 0x1CBF), (0x1D00, 0x1DBF), (0x1E00, 0x1F15),
     (0x1F18, 0x1F1D), (0x1F20, 0x1F45), (0x1F48, 0x1F4D), (0x1F50, 0x1F57),
     (0x1F59, 0x1F59), (0x1F5B, 0x1F5B), (0x1F5D, 0x1F5D), (0x1F5F, 0x1F7D),
     (0x1F80, 0x1FB4), (0x1FB6, 0x1FBC), (0x1FBE, 0x1FBE), (0x1FC2, 0x1FC4),
     (0x1FC6, 0x1FCC), (0x1FD0, 0x1FD3), (0x1FD6, 0x1FDB), (0x1FE0, 0x1FEC),
     (0x1FF2, 0x1FF4), (0x1FF6, 0x1FFC), (0x2071, 0x2071), (0x207F, 0x207F),
     (0x2090, 0x209C), (0x2102, 0x2102), (0x2107, 0x2107), (0x210A, 0x2113),
     (0x2115, 0x2115), (0x2119, 0x211D), (0x2124, 0x2124), (0x2126, 0x2126),
     (0x2128, 0x2128), (0x212A, 0x212D), (0x212F, 0x2134), (0x2139, 0x2139),
     (0x213C, 0x213F), (0x2145, 0x2149), (0x214E, 0x214E), (0x2160, 0x217F),
     (0x2183, 0x2184), (0x24B6, 0x24E9), (0x2C00, 0x2CE4), (0x2CEB, 0x2CEE),
     (0x2CF2, 0x2CF3), (0x2D00, 0x2D25), (0x2D27, 0x2D27), (0x2D2D, 0x2D2D),
     (0xA640, 0xA66D), (0xA680, 0xA69D), (0xA722, 0xA787), (0xA78B, 0xA78E),
     (0xA790, 0xA7CA), (0xA7D0, 0xA7D1), (0xA7D3, 0xA7D3), (0xA7D5, 0xA7D9),
     (0xA7F5, 0xA7F6), (0xA7F8, 0xA7FA), (0xAB30, 0xAB5A), (0xAB5C, 0xAB68),
     (0xAB70, 0xABBF), (0xFB00, 0xFB06), (0xFB13, 0xFB17), (0xFF21, 0xFF3A),
     (0xFF41, 0xFF5A), (0x10400, 0x1044F), (0x104B0, 0x104D3), (0x104D8, 0x104FB),
     (0x10570, 0x1057A), (0x1057C, 0x1058A), (0x1058C, 0x10592), (0x10594, 0x10595),
     (0x10597, 0x105A1), (0x105A3, 0x105B1), (0x105B3, 0x105B9), (0x105BB, 0x105BC),
     (0x10780, 0x10780), (0x10783, 0x10785), (0x10787, 0x107B0), (0x107B2, 0x107BA),
     (0x10C80, 0x10CB2), (0x10CC0, 0x10CF2), (0x118A0, 0x118DF), (0x16E40, 0x16E7F),
     (0x1D400, 0x1D454), (0x1D456, 0x1D49C), (0x1D49E, 0x1D49F), (0x1D4A2, 0x1D4A2),
     (0x1D4A5, 0x1D4A6), (0x1D4A9, 0x1D4AC), (0x1D4AE, 0x1D4B9), (0x1D4BB, 0x1D4BB),
     (0x1D4BD, 0x1D4C3), (0x1D4C5, 0x1D505), (0x1D507, 0x1D50A), (0x1D50D, 0x1D514),
     (0x1D516, 0x1D51C), (0x1D51E, 0x1D539), (0x1D53B, 0x1D53E), (0x1D540, 0x1D544),
     (0x1D546, 0x1D546), (0x1D54A, 0x1D550), (0x1D552, 0x1D6A5), (0x1D6A8, 0x1D6C0),
     (0x1D6C2, 0x1D6DA), (0x1D6DC, 0x1D6FA), (0x1D6FC, 0x1D714), (0x1D716, 0x1D734),
     (0x1D736, 0x1D74E), (0x1D750, 0x1D76E), (0x1D770, 0x1D788), (0x1D78A, 0x1D7A8),
     (0x1D7AA, 0x1D7C2), (0x1D7C4, 0x1D7CB), (0x1DF00, 0x1DF09), (0x1DF0B, 0x1DF1E),
     (0x1E900, 0x1E943), (0x1F130, 0x1F149), (0x1F150, 0x1F169), (0x1F170, 0x1F189)]"

definition case_ignorable_ranges :: "(nat \<times> nat) list" where
  "case_ignorable_ranges =
    [(0x27, 0x27), (0x2E, 0x2E), (0x3A, 0x3A), (0x5E, 0x5E), (0x60, 0x60), (0xA8, 0xA8),
     (0xAD, 0xAD), (0xAF, 0xAF), (0xB4, 0xB4), (0xB7, 0xB8), (0x2B0, 0x36F), (0x374, 0x375),
     (0x37A, 0x37A), (0x384, 0x385), (0x387, 0x387), (0x483, 0x489), (0x559, 0x559),
     (0x55F, 0x55F), (0x591, 0x5BD), (0x5BF, 0x5BF), (0x5C1, 0x5C2), (0x5C4, 0x5C5),
     (0x5C7, 0x5C7), (0x5F4, 0x5F4), (0x600, 0x605), (0x610, 0x61A), (0x61C, 0x61C),
     (0x640, 0x640), (0x64B, 0x65F), (0x670, 0x670), (0x6D6, 0x6DD), (0x6DF, 0x6E8),
     (0x6EA, 0x6ED), (0x70F, 0x70F), (0x711, 0x711), (0x730, 0x74A), (0x7A6, 0x7B0),
     (0x7EB, 0x7F5), (0x7FA, 0x7FA), (0x7FD, 0x7FD), (0x816, 0x82D), (0x859, 0x85B),
     (0x888, 0x888), (0x890, 0x891), (0x898, 0x89F), (0x8C9, 0x902), (0x93A, 0x93A),
     (0x93C, 0x93C), (0x941, 0x948), (0x94D, 0x94D), (0x951, 0x957), (0x962, 0x963),
     (0x971, 0x971), (0x981, 0x981), (0x9BC, 0x9BC), (0x9C1, 0x9C4), (0x9CD, 0x9CD),
     (0x9E2, 0x9E3), (0x9FE, 0x9FE), (0xA01, 0xA02), (0xA3C, 0xA3C), (0xA41, 0xA42),
     (0xA47, 0xA48), (0xA4B, 0xA4D), (0xA51, 0xA51), (0xA70, 0xA71), (0xA75, 0xA75),
     (0xA81, 0xA82), (0xABC, 0xABC), (0xAC1, 0xAC5), (0xAC7, 0xAC8), (0xACD, 0xACD),
     (0xAE2, 0xAE3), (0xAFA, 0xAFF), (0xB01, 0xB01), (0xB3C, 0xB3C), (0xB3F, 0xB3F),
     (0xB41, 0xB44), (0xB4D, 0xB4D), (0xB55, 0xB56), (0xB62, 0xB63), (0xB82, 0xB82),
     (0xBC0, 0xBC0), (0xBCD, 0xBCD), (0xC00, 0xC00), (0xC04, 0xC04), (0xC3C, 0xC3C),
     (0xC3E, 0xC40), (0xC46, 0xC48), (0xC4A, 0xC4D), (0xC55, 0xC56), (0xC62, 0xC63),
     (0xC81, 0xC81), (0xCBC, 0xCBC), (0xCBF, 0xCBF), (0xCC6, 0xCC6), (0xCCC, 0xCCD),
     (0xCE2, 0xCE3), (0xD00, 0xD01), (0xD3B, 0xD3C), (0xD41, 0xD44), (0xD4D, 0xD4D),
     (0xD62, 0xD63), (0xD81, 0xD81), (0xDCA, 0xDCA), (0xDD2, 0xDD4), (0xDD6, 0xDD6),
     (0xE31, 0xE31), (0xE34, 0xE3A), (0xE46, 0xE4E), (0xEB1, 0xEB1), (0xEB4, 0xEBC),
     (0xEC6, 0xEC6), (0xEC8, 0xECD), (0xF18, 0xF19), (0xF35, 0xF35), (0xF37, 0xF37),
     (0xF39, 0xF39), (0xF71, 0xF7E), (0xF80, 0xF84), (0xF86, 0xF87), (0xF8D, 0xF97),
     (0xF99, 0xFBC), (0xFC6, 0xFC6), (0x102D, 0x1030), (0x1032, 0x1037), (0x1039, 0x103A),
     (0x103D, 0x103E), (0x1058, 0x1059), (0x105E, 0x1060), (0x1071, 0x1074),
     (0x1082, 0x1082), (0x1085, 0x1086), (0x108D, 0x108D), (0x109D, 0x109D),
     (0x10FC, 0x10FC), (0x135D, 0x135F), (0x1712, 0x1714), (0x1732, 0x1733),
     (0x1752, 0x1753), (0x1772, 0x1773), (0x17B4, 0x17B5), (0x17B7, 0x17BD),
     (0x17C6, 0x17C6), (0x17C9, 0x17D3), (0x17D7, 0x17D7), (0x17DD, 0x17DD),
     (0x180B, 0x180F), (0x1843, 0x1843), (0x1885, 0x1886), (0x18A9, 0x18A9),
     (0x1920, 0x1922), (0x1927, 0x1928), (0x1932, 0x1932), (0x1939, 0x193B),
     (0x1A17, 0x1A18), (0x1A1B, 0x1A1B), (0x1A56, 0x1A56), (0x1A58, 0x1A5E),
     (0x1A60, 0x1A60), (0x1A62, 0x1A62), (0x1A65, 0x1A6C), (0x1A73, 0x1A7C),
     (0x1A7F, 0x1A7F), (0x1AA7, 0x1AA7), (0x1AB0, 0x1ACE), (0x1B00, 0x1B03),
     (0x1B34, 0x1B34), (0x1B36, 0x1B3A), (0x1B3C, 0x1B3C), (0x1B42, 0x1B42),
     (0x1B6B, 0x1B73), (0x1B80, 0x1B81), (0x1BA2, 0x1BA5), (0x1BA8, 0x1BA9),
     (0x1BAB, 0x1BAD), (0x1BE6, 0x1BE6), (0x1BE8, 0x1BE9), (0x1BED, 0x1BED),
     (0x1BEF, 0x1BF1), (0x1C2C, 0x1C33), (0x1C36, 0x1C37), (0x1C78, 0x1C7D),
     (0x1CD0, 0x1CD2), (0x1CD4, 0x1CE0), (0x1CE2, 0x1CE8), (0x1CED, 0x1CED),
     (0x1CF4, 0x1CF4), (0x1CF8, 0x1CF9), (0x1D2C, 0x1D6A), (0x1D78, 0x1D78),
     (0x1D9B, 0x1DFF), (0x1FBD, 0x1FBD), (0x1FBF, 0x1FC1), (0x1FCD, 0x1FCF),
     (0x1FDD, 0x1FDF), (0x1FED, 0x1FEF), (0x1FFD, 0x1FFE), (0x200B, 0x200F),
     (0x2018, 0x2019), (0x2024, 0x2024), (0x2027, 0x2027), (0x202A, 0x202E),
     (0x2060, 0x2064), (0x2066, 0x206F), (0x2071, 0x2071), (0x207F, 0x207F),
     (0x2090, 0x209C), (0x20D0, 0x20F0), (0x2C7C, 0x2C7D), (0x2CEF, 0x2CF1),
     (0x2D6F, 0x2D6F), (0x2D7F, 0x2D7F), (0x2DE0, 0x2DFF), (0x2E2F, 0x2E2F),
     (0x3005, 0x3005), (0x302A, 0x302D), (0x3031, 0x3035), (0x303B, 0x303B),
     (0x3099, 0x309E), (0x30FC, 0x30FE), (0xA015, 0xA015), (0xA4F8, 0xA4FD),
     (0xA60C, 0xA60C), (0xA66F, 0xA672), (0xA674, 0xA67D), (0xA67F, 0xA67F),
     (0xA69C, 0xA69F), (0xA6F0, 0xA6F1), (0xA700, 0xA721), (0xA770, 0xA770),
     (0xA788, 0xA78A), (0xA7F2, 0xA7F4), (0xA7F8, 0xA7F9), (0xA802, 0xA802),
     (0xA806, 0xA806), (0xA80B, 0xA80B), (0xA825, 0xA826), (0xA82C, 0xA82C),
     (0xA8C4, 0xA8C5), (0xA8E0, 0xA8F1), (0xA8FF, 0xA8FF), (0xA926, 0xA92D),
     (0xA947, 0xA951), (0xA980, 0xA982), (0xA9B3, 0xA9B3), (0xA9B6, 0xA9B9),
     (0xA9BC, 0xA9BD), (0xA9CF, 0xA9CF), (0xA9E5, 0xA9E6), (0xAA29, 0xAA2E),
     (0xAA31, 0xAA32), (0xAA35, 0xAA36), (0xAA43, 0xAA43), (0xAA4C, 0xAA4C),
     (0xAA70, 0xAA70), (0xAA7C, 0xAA7C), (0xAAB0, 0xAAB0), (0xAAB2, 0xAAB4),
     (0xAAB7, 0xAAB8), (0xAABE, 0xAABF), (0xAAC1, 0xAAC1), (0xAADD, 0xAADD),
     (0xAAEC, 0xAAED), (0xAAF3, 0xAAF4), (0xAAF6, 0xAAF6), (0xAB5B, 0xAB5F),
     (0xAB69, 0xAB6B), (0xABE5, 0xABE5), (0xABE8, 0xABE8), (0xABED, 0xABED),
     (0xFB1E, 0xFB1E), (0xFBB2, 0xFBC2), (0xFE00, 0xFE0F), (0xFE13, 0xFE13),
     (0xFE20, 0xFE2F), (0xFE52, 0xFE52), (0xFE55, 0xFE55), (0xFEFF, 0xFEFF),
     (0xFF07, 0xFF07), (0xFF0E, 0xFF0E), (0xFF1A, 0xFF1A), (0xFF3E, 0xFF3E),
     (0xFF40, 0xFF40), (0xFF70, 0xFF70), (0xFF9E, 0xFF9F), (0xFFE3, 0xFFE3),
     (0xFFF9, 0xFFFB), (0x101FD, 0x101FD), (0x102E0, 0x102E0), (0x10376, 0x1037A),
     (0x10780, 0x10785), (0x10787, 0x107B0), (0x107B2, 0x107BA), (0x10A01, 0x10A03),
     (0x10A05, 0x10A06), (0x10A0C, 0x10A0F), (0x10A38, 0x10A3A), (0x10A3F, 0x10A3F),
     (0x10AE5, 0x10AE6), (0x10D24, 0x10D27), (0x10EAB, 0x10EAC), (0x10F46, 0x10F50),
     (0x10F82, 0x10F85), (0x11001, 0x11001), (0x11038, 0x11046), (0x11070, 0x11070),
     (0x11073, 0x11074), (0x1107F, 0x11081), (0x110B3, 0x110B6), (0x110B9, 0x110BA),
     (0x110BD, 0x110BD), (0x110C2, 0x110C2), (0x110CD, 0x110CD), (0x11100, 0x11102),
     (0x11127, 0x1112B), (0x1112D, 0x11134), (0x11173, 0x11173), (0x11180, 0x11181),
     (0x111B6, 0x111BE), (0x111C9, 0x111CC), (0x111CF, 0x111CF), (0x1122F, 0x11231),
     (0x11234, 0x11234), (0x11236, 0x11237), (0x1123E, 0x1123E), (0x112DF, 0x112DF),
     (0x112E3, 0x112EA), (0x11300, 0x11301), (0x1133B, 0x1133C), (0x11340, 0x11340),
     (0x11366, 0x1136C), (0x11370, 0x11374), (0x11438, 0x1143F), (0x11442, 0x11444),
     (0x11446, 0x11446), (0x1145E, 0x1145E), (0x114B3, 0x114B8), (0x114BA, 0x114BA),
     (0x114BF, 0x114C0), (0x114C2, 0x114C3), (0x115B2, 0x115B5), (0x115BC, 0x115BD),
     (0x115BF, 0x115C0), (0x115DC, 0x115DD), (0x11633, 0x1163A), (0x1163D, 0x1163D),
     (0x1163F, 0x11640), (0x116AB, 0x116AB), (0x116AD, 0x116AD), (0x116B0, 0x116B5),
     (0x116B7, 0x116B7), (0x1171D, 0x1171F), (0x11722, 0x11725), (0x11727, 0x1172B),
     (0x1182F, 0x11837), (0x11839, 0x1183A), (0x1193B, 0x1193C), (0x1193E, 0x1193E),
     (0x11943, 0x11943), (0x119D4, 0x119D7), (0x119DA, 0x119DB), (0x119E0, 0x119E0),
     (0x11A01, 0x11A0A), (0x11A33, 0x11A38), (0x11A3B, 0x11A3E), (0x11A47, 0x11A47),
     (0x11A51, 0x11A56), (0x11A59, 0x11A5B), (0x11A8A, 0x11A96), (0x11A98, 0x11A99),
     (0x11C30, 0x11C36), (0x11C38, 0x11C3D), (0x11C3F, 0x11C3F), (0x11C92, 0x11CA7),
     (0x11CAA, 0x11CB0), (0x11CB2, 0x11CB3), (0x11CB5, 0x11CB6), (0x11D31, 0x11D36),
     (0x11D3A, 0x11D3A), (0x11D3C, 0x11D3D), (0x11D3F, 0x11D45), (0x11D47, 0x11D47),
     (0x11D90, 0x11D91), (0x11D95, 0x11D95), (0x11D97, 0x11D97), (0x11EF3, 0x11EF4),
     (0x13430, 0x13438), (0x16AF0, 0x16AF4), (0x16B30, 0x16B36), (0x16B40, 0x16B43),
     (0x16F4F, 0x16F4F), (0x16F8F, 0x16F9F), (0x16FE0, 0x16FE1), (0x16FE3, 0x16FE4),
     (0x1AFF0, 0x1AFF3), (0x1AFF5, 0x1AFFB), (0x1AFFD, 0x1AFFE), (0x1BC9D, 0x1BC9E),
     (0x1BCA0, 0x1BCA3), (0x1CF00, 0x1CF2D), (0x1CF30, 0x1CF46), (0x1D167, 0x1D169),
     (0x1D173, 0x1D182), (0x1D185, 0x1D18B), (0x1D1AA, 0x1D1AD), (0x1D242, 0x1D244),
     (0x1DA00, 0x1DA36), (0x1DA3B, 0x1DA6C), (0x1DA75, 0x1DA75), (0x1DA84, 0x1DA84),
     (0x1DA9B, 0x1DA9F), (0x1DAA1, 0x1DAAF), (0x1E000, 0x1E006), (0x1E008, 0x1E018),
     (0x1E01B, 0x1E021), (0x1E023, 0x1E024), (0x1E026, 0x1E02A), (0x1E130, 0x1E13D),
     (0x1E2AE, 0x1E2AE), (0x1E2EC, 0x1E2EF), (0x1E8D0, 0x1E8D6), (0x1E944, 0x1E94B),
     (0x1F3FB, 0x1F3FF), (0xE0001, 0xE0001), (0xE0020, 0xE007F), (0xE0100, 0xE01EF)]"

fun in_ranges :: "(nat \<times> nat) list \<Rightarrow> nat \<Rightarrow> bool" where
  "in_ranges [] c = False"
| "in_ranges ((lo, hi) # rs) c = (if lo \<le> c \<and> c \<le> hi then True else in_ranges rs c)"

definition is_cased :: "nat \<Rightarrow> bool" where
  "is_cased c = in_ranges cased_ranges c"

definition is_case_ignorable :: "nat \<Rightarrow> bool" where
  "is_case_ignorable c = in_ranges case_ignorable_ranges c"

text \<open>
  Whether the first code point that is not case-ignorable exists and is cased.
\<close>

fun cased_follows :: "nat list \<Rightarrow> bool" where
  "cased_follows [] = False"
| "cased_follows (c # cs) = (if is_case_ignorable c then cased_follows cs else is_cased c)"

text \<open>
  A capital sigma (U+03A3) is final, and becomes U+03C2 instead of U+03C3, when a cased
  code point precedes it and none follows it, case-ignorable code points skipped on both
  sides. \<open>seen\<close> is the text before the sigma, the nearest code point first.
\<close>

definition final_sigma :: "nat list \<Rightarrow> nat list \<Rightarrow> bool" where
  "final_sigma seen rest = (cased_follows seen \<and> \<not> cased_follows rest)"

fun lower_from :: "nat list \<Rightarrow> nat list \<Rightarrow> nat list" where
  "lower_from seen [] = []"
| "lower_from seen (c # cs) =
     (if c = 0x3A3 then [if final_sigma seen cs then 0x3C2 else 0x3C3] else to_lower c)
       @ lower_from (c # seen) cs"

text \<open>\<open>str.lower\<close> and \<open>str.upper\<close>\<close>

definition py_lower :: "nat list \<Rightarrow> nat list" where
  "py_lower s = lower_from [] s"

definition py_upper :: "nat list \<Rightarrow> nat list" where
  "py_upper s = concat (map to_upper s)"

subsection \<open>The email pattern\<close>

text \<open>
  \<open>re.match(r"^[^@\s]+@[^@\s]+\.[^@\s]+$", email)\<close>, one function for each piece of the
  pattern, with the matcher's backtracking over the middle group (a dot is itself in the
  class \<open>[^@\s]\<close>). \<open>$\<close> matches at the end of the string and also just before a line
  feed that ends the string. The at sign is the code point \<open>0x40\<close>, the dot \<open>0x2E\<close> and
  the line feed \<open>0x0A\<close>.
\<close>

definition email_char :: "nat \<Rightarrow> bool" where
  "email_char c = (c \<noteq> 0x40 \<and> \<not> is_space c)"

text \<open>\<open>[^@\s]*$\<close>\<close>

fun match_end :: "nat list \<Rightarrow> bool" where
  "match_end [] = True"
| "match_end [c] = (c = 0x0A \<or> email_char c)"
| "match_end (c # cs) = (email_char c \<and> match_end cs)"

text \<open>\<open>[^@\s]+$\<close>\<close>

fun match_last :: "nat list \<Rightarrow> bool" where
  "match_last [] = False"
| "match_last (c # cs) = (email_char c \<and> match_end cs)"

text \<open>\<open>[^@\s]*\.[^@\s]+$\<close>\<close>

fun match_dot :: "nat list \<Rightarrow> bool" where
  "match_dot [] = False"
| "match_dot (c # cs) =
     ((c = 0x2E \<and> match_last cs) \<or> (email_char c \<and> match_dot cs))"

text \<open>\<open>[^@\s]+\.[^@\s]+$\<close>\<close>

fun match_domain :: "nat list \<Rightarrow> bool" where
  "match_domain [] = False"
| "match_domain (c # cs) = (email_char c \<and> match_dot cs)"

text \<open>\<open>[^@\s]*@[^@\s]+\.[^@\s]+$\<close>\<close>

fun match_at :: "nat list \<Rightarrow> bool" where
  "match_at [] = False"
| "match_at (c # cs) =
     (if c = 0x40 then match_domain cs else email_char c \<and> match_at cs)"

fun is_valid_email :: "nat list \<Rightarrow> bool" where
  "is_valid_email [] = False"
| "is_valid_email (c # cs) = (email_char c \<and> match_at cs)"

section \<open>Floating point\<close>

text \<open>
  The arithmetic of CPython on binary64, in the default rounding mode (to nearest, ties
  to even). Every operation computes the exact result as a fraction of naturals and rounds
  it once with \<open>round_to_double\<close>.
\<close>

text \<open>\<open>int.bit_length\<close>: the number of binary digits of a natural.\<close>

fun bit_length :: "nat \<Rightarrow> nat" where
  "bit_length n = (if n = 0 then 0 else Suc (bit_length (n div 2)))"

declare bit_length.simps [simp del]

text \<open>The integer nearest to \<open>n / d\<close>, a tie going to the even one.\<close>

definition round_half_even :: "nat \<Rightarrow> nat \<Rightarrow> nat" where
  "round_half_even n d =
     (let q = n div d; r = n mod d
      in if 2 * r < d then q
         else if d < 2 * r then q + 1
         else if even q then q else q + 1)"

text \<open>The integer nearest to \<open>n / (d * 2^e)\<close>, likewise.\<close>

definition scaled_round :: "nat \<Rightarrow> nat \<Rightarrow> int \<Rightarrow> nat" where
  "scaled_round n d e =
     (if 0 \<le> e then round_half_even n (d * 2 ^ nat e)
      else round_half_even (n * 2 ^ nat (- e)) d)"

text \<open>
  The exponent of the double nearest to \<open>n / d\<close> (for \<open>n, d > 0\<close>): the \<open>e\<close> with
  \<open>2^52 \<le> n / (d * 2^e) < 2^53\<close>, and \<open>- 1074\<close> in the subnormal range.
  With \<open>k\<close> the difference of the bit lengths, \<open>2^(k-1) < n / d < 2^(k+1)\<close>.
\<close>

definition double_exponent :: "nat \<Rightarrow> nat \<Rightarrow> int" where
  "double_exponent n d =
     (let k = int (bit_length n) - int (bit_length d);
          fl = (if (if 0 \<le> k then d * 2 ^ nat k \<le> n else d \<le> n * 2 ^ nat (- k))
                then k else k - 1)
      in max (fl - 52) (- 1074))"

text \<open>
  The double nearest to \<open>(-1)^s * n / d\<close>; a magnitude that rounds to \<open>2^1024\<close> or more
  gives an infinity.
\<close>

definition round_to_double :: "bool \<Rightarrow> nat \<Rightarrow> nat \<Rightarrow> pyfloat" where
  "round_to_double s n d =
     (if n = 0 then Finite s 0 (- 1074)
      else
        let e = double_exponent n d;
            m = scaled_round n d e;
            m' = (if m = 2 ^ 53 then 2 ^ 52 else m);
            e' = (if m = 2 ^ 53 then e + 1 else e)
        in if 971 < e' then Infinity s else Finite s m' e')"

text \<open>
  \<open>float(i)\<close> for an \<open>int\<close>: the nearest double, and \<open>OverflowError\<close> (int too large to
  convert to float) when that is not finite.
\<close>

definition float_of_int :: "int \<Rightarrow> py_error + pyfloat" where
  "float_of_int i =
     (case round_to_double (i < 0) (nat \<bar>i\<bar>) 1 of
        Infinity s \<Rightarrow> Inl OverflowError
      | f \<Rightarrow> Inr f)"

text \<open>\<open>float(v)\<close> for a value of class \<open>int\<close> or \<open>float\<close>.\<close>

fun py_float :: "pyval \<Rightarrow> py_error + pyfloat" where
  "py_float (PFloat f) = Inr f"
| "py_float (PInt i) = float_of_int i"
| "py_float (PBool b) = float_of_int (if b then 1 else 0)"
| "py_float v = Inl TypeError"

text \<open>A decimal literal \<open>n / 10^k\<close> of the source, such as \<open>0.02\<close>.\<close>

definition float_literal :: "nat \<Rightarrow> nat \<Rightarrow> pyfloat" where
  "float_literal n k = round_to_double False n (10 ^ k)"

text \<open>\<open>x <= 0\<close> for a float: false for NaN, true for both zeros.\<close>

fun float_le_zero :: "pyfloat \<Rightarrow> bool" where
  "float_le_zero NaN = False"
| "float_le_zero (Infinity s) = s"
| "float_le_zero (Finite s m e) = (m = 0 \<or> s)"

text \<open>\<open>x * y\<close>\<close>

fun float_mul :: "pyfloat \<Rightarrow> pyfloat \<Rightarrow> pyfloat" where
  "float_mul NaN y = NaN"
| "float_mul x NaN = NaN"
| "float_mul (Infinity s) (Infinity t) = Infinity (s \<noteq> t)"
| "float_mul (Infinity s) (Finite t m e) = (if m = 0 then NaN else Infinity (s \<noteq> t))"
| "float_mul (Finite s m e) (Infinity t) = (if m = 0 then NaN else Infinity (s \<noteq> t))"
| "float_mul (Finite s m e) (Finite t m' e') =
     (let ex = e + e'
      in if 0 \<le> ex then round_to_double (s \<noteq> t) (m * m' * 2 ^ nat ex) 1
         else round_to_double (s \<noteq> t) (m * m') (2 ^ nat (- ex)))"

text \<open>
  \<open>x - y\<close>. An exact zero difference is \<open>+0.0\<close>, except that \<open>-0.0 - (+0.0)\<close> is
  \<open>-0.0\<close>.
\<close>

fun float_sub :: "pyfloat \<Rightarrow> pyfloat \<Rightarrow> pyfloat" where
  "float_sub NaN y = NaN"
| "float_sub x NaN = NaN"
| "float_sub (Infinity s) (Infinity t) = (if s = t then NaN else Infinity s)"
| "float_sub (Infinity s) (Finite t m e) = Infinity s"
| "float_sub (Finite s m e) (Infinity t) = Infinity (\<not> t)"
| "float_sub (Finite s m e) (Finite t m' e') =
     (let ex = min e e';
          a = (if s then - 1 else 1) * int m * 2 ^ nat (e - ex);
          b = (if t then - 1 else 1) * int m' * 2 ^ nat (e' - ex);
          r = a - b
      in if r = 0 then Finite (s \<and> \<not> t) 0 (- 1074)
         else if 0 \<le> ex then round_to_double (r < 0) (nat \<bar>r\<bar> * 2 ^ nat ex) 1
         else round_to_double (r < 0) (nat \<bar>r\<bar>) (2 ^ nat (- ex)))"

text \<open>
  \<open>round(x, ndigits)\<close> for a float and \<open>ndigits \<ge> 0\<close>. NaN and the infinities round to
  themselves. Otherwise CPython prints the exact value of \<open>x\<close> correctly rounded to
  \<open>ndigits\<close> decimals, a tie going to the even digit, and reads the decimal string back as
  the nearest double, the sign kept; it raises \<open>OverflowError\<close> (rounded value too large
  to represent) should that not be finite.
\<close>

fun py_round :: "pyfloat \<Rightarrow> nat \<Rightarrow> py_error + pyfloat" where
  "py_round NaN ndigits = Inr NaN"
| "py_round (Infinity s) ndigits = Inr (Infinity s)"
| "py_round (Finite s m e) ndigits =
     (let k = scaled_round (m * 10 ^ ndigits) 1 (- e)
      in case round_to_double s k (10 ^ ndigits) of
           Infinity t \<Rightarrow> Inl OverflowError
         | f \<Rightarrow> Inr f)"

section \<open>The handler\<close>

text \<open>Sequencing of computations that may raise: the first exception ends the run.\<close>

definition and_then :: "py_error + 'a \<Rightarrow> ('a \<Rightarrow> py_error + 'b) \<Rightarrow> py_error + 'b" where
  "and_then r f = (case r of Inl e \<Rightarrow> Inl e | Inr v \<Rightarrow> f v)"

text \<open>\<open>event[key]\<close> and \<open>event.get(key)\<close>\<close>

definition getitem :: "(string \<times> pyval) list \<Rightarrow> string \<Rightarrow> py_error + pyval" where
  "getitem event key = (case map_of event key of None \<Rightarrow> Inl KeyError | Some v \<Rightarrow> Inr v)"

definition dict_get :: "(string \<times> pyval) list \<Rightarrow> string \<Rightarrow> pyval" where
  "dict_get event key = (case map_of event key of None \<Rightarrow> PNone | Some v \<Rightarrow> v)"

text \<open>The methods \<open>lower\<close>, \<open>upper\<close> and \<open>strip\<close>: only a \<open>str\<close> has them.\<close>

fun str_lower :: "pyval \<Rightarrow> py_error + nat list" where
  "str_lower (PStr s) = Inr (py_lower s)"
| "str_lower v = Inl AttributeError"

fun str_upper :: "pyval \<Rightarrow> py_error + nat list" where
  "str_upper (PStr s) = Inr (py_upper s)"
| "str_upper v = Inl AttributeError"

fun str_strip :: "pyval \<Rightarrow> py_error + nat list" where
  "str_strip (PStr s) = Inr (py_strip s)"
| "str_strip v = Inl AttributeError"

definition error_response :: "string list \<Rightarrow> envelope" where
  "error_response errs =
     \<lparr>status = ''error'', message = ''Validation failed'', data = [], errors = errs\<rparr>"

text \<open>
  The presence loop shared by the three validators:
  \<^verbatim>\<open>for field in required_fields: if field not in event: errors.append(...)\<close>
\<close>

fun check_required :: "(string \<times> pyval) list \<Rightarrow> string list \<Rightarrow> string list \<Rightarrow> string list" where
  "check_required event [] errs = errs"
| "check_required event (field # required) errs =
     check_required event required
       (if map_of event field = None then errs @ [''Missing field: '' @ field] else errs)"

text \<open>
  The conditions of the second phase. Python's \<open>or\<close> evaluates its right operand only
  when the left one is false, so the right operand always sees a value of the class
  tested on the left.
\<close>

definition bad_email :: "pyval \<Rightarrow> bool" where
  "bad_email v = (case v of PStr s \<Rightarrow> \<not> is_valid_email s | _ \<Rightarrow> True)"

definition bad_plan :: "pyval \<Rightarrow> bool" where
  "bad_plan v =
     (case v of PStr s \<Rightarrow> py_lower s \<notin> set [ascii ''free'', ascii ''pro'', ascii ''edu''] | _ \<Rightarrow> True)"

definition bad_amount :: "pyval \<Rightarrow> bool" where
  "bad_amount v =
     (case v of
        PInt i \<Rightarrow> i \<le> 0
      | PBool b \<Rightarrow> (if b then (1::int) else 0) \<le> 0
      | PFloat f \<Rightarrow> float_le_zero f
      | _ \<Rightarrow> True)"

definition bad_currency :: "pyval \<Rightarrow> bool" where
  "bad_currency v =
     (case v of PStr s \<Rightarrow> py_upper s \<notin> set [ascii ''BHD'', ascii ''USD'', ascii ''EUR''] | _ \<Rightarrow> True)"

definition bad_size :: "pyval \<Rightarrow> bool" where
  "bad_size v = (if isinstance_int v then int_value v < 0 else True)"

definition handle_user_signup :: "(string \<times> pyval) list \<Rightarrow> py_error + envelope" where
  "handle_user_signup event =
     (let errs = check_required event [''user_id'', ''email'', ''plan''] []
      in if errs \<noteq> [] then Inr (error_response errs)
         else
           and_then (getitem event ''user_id'') (\<lambda>user_id.
           and_then (getitem event ''email'') (\<lambda>email.
           and_then (getitem event ''plan'') (\<lambda>plan.
             let errs = (if \<not> isinstance_int user_id
                         then errs @ [''user_id must be int''] else errs);
                 errs = (if bad_email email then errs @ [''Invalid email''] else errs);
                 errs = (if bad_plan plan then errs @ [''Invalid plan''] else errs)
             in if errs \<noteq> [] then Inr (error_response errs)
                else
                  and_then (str_lower email) (\<lambda>email'.
                  and_then (str_lower plan) (\<lambda>plan'.
                    Inr \<lparr>status = ''ok'',
                         message = ''Signup processed'',
                         data =
                           [(''user_id'', user_id),
                            (''email'', PStr email'),
                            (''plan'', PStr plan'),
                            (''welcome_email_subject'',
                               PStr (ascii ''Welcome to the '' @ plan' @ ascii '' plan!''))],
                         errors = []\<rparr>))))))"

definition handle_payment :: "(string \<times> pyval) list \<Rightarrow> py_error + envelope" where
  "handle_payment event =
     (let errs = check_required event [''payment_id'', ''user_id'', ''amount'', ''currency''] []
      in if errs \<noteq> [] then Inr (error_response errs)
         else
           and_then (getitem event ''payment_id'') (\<lambda>payment_id.
           and_then (getitem event ''user_id'') (\<lambda>user_id.
           and_then (getitem event ''amount'') (\<lambda>amount.
           and_then (getitem event ''currency'') (\<lambda>currency.
             let errs = (if \<not> isinstance_str payment_id
                         then errs @ [''payment_id must be string''] else errs);
                 errs = (if \<not> isinstance_int user_id
                         then errs @ [''user_id must be int''] else errs);
                 errs = (if bad_amount amount
                         then errs @ [''amount must be positive number''] else errs);
                 errs = (if bad_currency currency
                         then errs @ [''Invalid currency''] else errs)
             in if errs \<noteq> [] then Inr (error_response errs)
                else
                  and_then (str_upper currency) (\<lambda>currency'.
                  and_then (py_float amount) (\<lambda>f.
                  and_then (py_round f 3) (\<lambda>amount'.
                  and_then (py_round (float_mul amount' (float_literal 2 2)) 3) (\<lambda>fee.
                  and_then (py_round (float_sub amount' fee) 3) (\<lambda>net_amount.
                    Inr \<lparr>status = ''ok'',
                         message = ''Payment processed'',
                         data =
                           [(''payment_id'', payment_id),
                            (''user_id'', user_id),
                            (''amount'', PFloat amount'),
                            (''currency'', PStr currency'),
                            (''fee'', PFloat fee),
                            (''net_amount'', PFloat net_amount)],
                         errors = []\<rparr>))))))))))"

definition storage_class :: "int \<Rightarrow> nat list" where
  "storage_class size_bytes =
     (if size_bytes < 1000000 then ascii ''STANDARD''
      else if size_bytes < 50000000 then ascii ''STANDARD_IA''
      else ascii ''GLACIER'')"

definition handle_file_upload :: "(string \<times> pyval) list \<Rightarrow> py_error + envelope" where
  "handle_file_upload event =
     (let errs = check_required event [''file_name'', ''size_bytes'', ''bucket'', ''uploader''] []
      in if errs \<noteq> [] then Inr (error_response errs)
         else
           and_then (getitem event ''file_name'') (\<lambda>file_name.
           and_then (getitem event ''size_bytes'') (\<lambda>size_bytes.
           and_then (getitem event ''bucket'') (\<lambda>bucket.
           and_then (getitem event ''uploader'') (\<lambda>uploader.
             let errs = (if \<not> isinstance_str file_name
                         then errs @ [''file_name must be string''] else errs);
                 errs = (if bad_size size_bytes
                         then errs @ [''size_bytes must be >= 0''] else errs);
                 errs = (if \<not> isinstance_str bucket
                         then errs @ [''bucket must be string''] else errs);
                 errs = (if bad_email uploader
                         then errs @ [''Invalid uploader email''] else errs)
             in if errs \<noteq> [] then Inr (error_response errs)
                else
                  and_then (str_strip file_name) (\<lambda>file_name'.
                  and_then (str_lower bucket) (\<lambda>bucket'.
                  and_then (str_lower uploader) (\<lambda>uploader'.
                    Inr \<lparr>status = ''ok'',
                         message = ''Upload processed'',
                         data =
                           [(''file_name'', PStr file_name'),
                            (''size_bytes'', size_bytes),
                            (''bucket'', PStr bucket'),
                            (''uploader'', PStr uploader'),
                            (''storage_class'', PStr (storage_class (int_value size_bytes)))],
                         errors = []\<rparr>))))))))"

text \<open>The entry point. The second argument is the caller's context, of any type.\<close>

fun handler :: "pyval \<Rightarrow> 'c \<Rightarrow> py_error + envelope" where
  "handler (PDict event) context =
     (let event_type = dict_get event ''type''
      in if event_type = PStr (ascii ''USER_SIGNUP'') then handle_user_signup event
         else if event_type = PStr (ascii ''PAYMENT'') then handle_payment event
         else if event_type = PStr (ascii ''FILE_UPLOAD'') then handle_file_upload event
         else Inr (error_response [''Unknown event type'']))"
| "handler event context = Inr (error_response [''Invalid JSON structure''])"


section \<open>Notions used in the statements\<close>

text \<open>The errors a run reports: those of the envelope it returns, none when it raises.\<close>

definition errors_of :: "py_error + envelope \<Rightarrow> string list" where
  "errors_of r = (case r of Inl e \<Rightarrow> [] | Inr env \<Rightarrow> errors env)"

text \<open>
  The messages the second phase of each validator accumulates, in the order of its checks.
\<close>

definition signup_checks :: "pyval \<Rightarrow> pyval \<Rightarrow> pyval \<Rightarrow> string list" where
  "signup_checks user_id email plan =
     (if \<not> isinstance_int user_id then [''user_id must be int''] else []) @
     (if bad_email email then [''Invalid email''] else []) @
     (if bad_plan plan then [''Invalid plan''] else [])"

definition payment_checks :: "pyval \<Rightarrow> pyval \<Rightarrow> pyval \<Rightarrow> pyval \<Rightarrow> string list" where
  "payment_checks payment_id user_id amount currency =
     (if \<not> isinstance_str payment_id then [''payment_id must be string''] else []) @
     (if \<not> isinstance_int user_id then [''user_id must be int''] else []) @
     (if bad_amount amount then [''amount must be positive number''] else []) @
     (if bad_currency currency then [''Invalid currency''] else [])"

definition upload_checks :: "pyval \<Rightarrow> pyval \<Rightarrow> pyval \<Rightarrow> pyval \<Rightarrow> string list" where
  "upload_checks file_name size_bytes bucket uploader =
     (if \<not> isinstance_str file_name then [''file_name must be string''] else []) @
     (if bad_size size_bytes then [''size_bytes must be >= 0''] else []) @
     (if \<not> isinstance_str bucket then [''bucket must be string''] else []) @
     (if bad_email uploader then [''Invalid uploader email''] else [])"

text \<open>
  The invariant of the result envelope, in the words of the specification: the status is
  \<open>ok\<close> exactly when there are no errors, the data is empty exactly when the status is
  \<open>error\<close>, and an error envelope carries the message \<open>Validation failed\<close>.
\<close>

definition envelope_invariant :: "envelope \<Rightarrow> bool" where
  "envelope_invariant r \<longleftrightarrow>
     (status r = ''ok'' \<longleftrightarrow> errors r = []) \<and>
     (data r = [] \<longleftrightarrow> status r = ''error'') \<and>
     (status r = ''error'' \<longrightarrow> message r = ''Validation failed'')"

text \<open>The rational number a finite float stands for.\<close>

fun float_value :: "pyfloat \<Rightarrow> rat option" where
  "float_value (Finite s m e) =
     Some ((if s then - 1 else 1) *
           (if 0 \<le> e then of_nat (m * 2 ^ nat e) else of_nat m / of_nat (2 ^ nat (- e))))"
| "float_value f = None"

section \<open>Evaluation\<close>

text \<open>The defining equations that evaluate a run on a concrete event.\<close>

lemmas string_defs = ascii_def py_lower_def py_upper_def to_lower_def to_upper_def
  is_space_def whitespace_def email_char_def py_strip_def

text \<open>The same for a text with code points above ASCII.\<close>

lemmas unicode_defs = lower_ranges_def upper_ranges_def upper_special_def final_sigma_def
  is_cased_def is_case_ignorable_def cased_ranges_def case_ignorable_ranges_def

lemmas check_defs = bad_email_def bad_plan_def bad_amount_def bad_currency_def bad_size_def

lemmas run_defs = handle_user_signup_def handle_payment_def handle_file_upload_def
  getitem_def dict_get_def and_then_def error_response_def Let_def

lemmas float_defs = float_of_int_def round_to_double_def double_exponent_def
  scaled_round_def round_half_even_def float_literal_def bit_length.simps Let_def

text \<open>Two literals denote the same \<open>str\<close> only when they are the same.\<close>

lemma ascii_eq_iff [simp]: "ascii s = ascii t \<longleftrightarrow> s = t"
  unfolding ascii_def by (rule inj_map_eq_map) (simp add: inj_on_def)

section \<open>The validators, phase by phase\<close>

text \<open>
  The presence loop appends one message for each absent key, in the order of the list;
  it leaves the list of errors empty exactly when every required key is present.
\<close>

lemma check_required_filter:
  "check_required event required errs =
     errs @ map (\<lambda>field. ''Missing field: '' @ field) (filter (\<lambda>field. map_of event field = None) required)"
  by (induction required arbitrary: errs) simp_all

lemma check_required_Nil:
  "check_required event required [] = [] \<longleftrightarrow> (\<forall>field \<in> set required. map_of event field \<noteq> None)"
  by (simp add: check_required_filter filter_empty_conv)

lemma all_present:
  assumes "check_required event required [] = []" and "field \<in> set required"
  obtains v where "map_of event field = Some v"
  using assms by (auto simp only: check_required_Nil)

lemma missing_message_in_check_required:
  "''Missing field: '' @ key \<in> set (check_required event required []) \<longleftrightarrow>
     key \<in> set required \<and> map_of event key = None"
  by (auto simp add: check_required_filter)

lemma not_missing_message:
  "''user_id must be int'' \<notin> set (check_required event required [])"
  "''size_bytes must be >= 0'' \<notin> set (check_required event required [])"
  by (auto simp add: check_required_filter)

text \<open>The dispatcher hands the event to the validator its \<open>type\<close> names.\<close>

lemma handler_dispatch_signup:
  "dict_get event ''type'' = PStr (ascii ''USER_SIGNUP'') \<Longrightarrow> handler (PDict event) ctx = handle_user_signup event"
  by simp

lemma handler_dispatch_payment:
  "dict_get event ''type'' = PStr (ascii ''PAYMENT'') \<Longrightarrow> handler (PDict event) ctx = handle_payment event"
  by simp

lemma handler_dispatch_upload:
  "dict_get event ''type'' = PStr (ascii ''FILE_UPLOAD'') \<Longrightarrow> handler (PDict event) ctx = handle_file_upload event"
  by simp

lemma handler_dispatch_unknown:
  "dict_get event ''type'' \<noteq> PStr (ascii ''USER_SIGNUP'') \<Longrightarrow> dict_get event ''type'' \<noteq> PStr (ascii ''PAYMENT'') \<Longrightarrow>
   dict_get event ''type'' \<noteq> PStr (ascii ''FILE_UPLOAD'') \<Longrightarrow>
   handler (PDict event) ctx = Inr (error_response [''Unknown event type''])"
  by simp

text \<open>
  Each validator returns after the presence loop when a key is absent. With every key
  present it runs all the checks of the second phase, and builds the success envelope
  only when none fails.
\<close>

lemma signup_missing:
  assumes "check_required event [''user_id'', ''email'', ''plan''] [] \<noteq> []"
  shows "handle_user_signup event =
           Inr (error_response (check_required event [''user_id'', ''email'', ''plan''] []))"
  using assms unfolding handle_user_signup_def Let_def by simp

lemma signup_present:
  assumes "map_of event ''user_id'' = Some user_id"
    and "map_of event ''email'' = Some email"
    and "map_of event ''plan'' = Some plan"
  shows "handle_user_signup event =
     (if signup_checks user_id email plan \<noteq> []
      then Inr (error_response (signup_checks user_id email plan))
      else
        and_then (str_lower email) (\<lambda>email'.
        and_then (str_lower plan) (\<lambda>plan'.
          Inr \<lparr>status = ''ok'',
               message = ''Signup processed'',
               data =
                 [(''user_id'', user_id),
                  (''email'', PStr email'),
                  (''plan'', PStr plan'),
                  (''welcome_email_subject'',
                     PStr (ascii ''Welcome to the '' @ plan' @ ascii '' plan!''))],
               errors = []\<rparr>)))"
proof -
  have req: "check_required event [''user_id'', ''email'', ''plan''] [] = []"
    using assms by (simp add: check_required_filter)
  show ?thesis
    unfolding handle_user_signup_def Let_def req
    using assms
    by (cases "isinstance_int user_id"; cases "bad_email email"; cases "bad_plan plan";
        simp add: getitem_def and_then_def signup_checks_def)
qed

lemma payment_missing:
  assumes "check_required event [''payment_id'', ''user_id'', ''amount'', ''currency''] [] \<noteq> []"
  shows "handle_payment event =
           Inr (error_response
                  (check_required event [''payment_id'', ''user_id'', ''amount'', ''currency''] []))"
  using assms unfolding handle_payment_def Let_def by simp

lemma payment_present:
  assumes "map_of event ''payment_id'' = Some payment_id"
    and "map_of event ''user_id'' = Some user_id"
    and "map_of event ''amount'' = Some amount"
    and "map_of event ''currency'' = Some currency"
  shows "handle_payment event =
     (if payment_checks payment_id user_id amount currency \<noteq> []
      then Inr (error_response (payment_checks payment_id user_id amount currency))
      else
        and_then (str_upper currency) (\<lambda>currency'.
        and_then (py_float amount) (\<lambda>f.
        and_then (py_round f 3) (\<lambda>amount'.
        and_then (py_round (float_mul amount' (float_literal 2 2)) 3) (\<lambda>fee.
        and_then (py_round (float_sub amount' fee) 3) (\<lambda>net_amount.
          Inr \<lparr>status = ''ok'',
               message = ''Payment processed'',
               data =
                 [(''payment_id'', payment_id),
                  (''user_id'', user_id),
                  (''amount'', PFloat amount'),
                  (''currency'', PStr currency'),
                  (''fee'', PFloat fee),
                  (''net_amount'', PFloat net_amount)],
               errors = []\<rparr>))))))"
proof -
  have req: "check_required event [''payment_id'', ''user_id'', ''amount'', ''currency''] [] = []"
    using assms by (simp add: check_required_filter)
  show ?thesis
    unfolding handle_payment_def Let_def req
    using assms
    by (cases "isinstance_str payment_id"; cases "isinstance_int user_id";
        cases "bad_amount amount"; cases "bad_currency currency";
        simp add: getitem_def and_then_def payment_checks_def)
qed

lemma upload_missing:
  assumes "check_required event [''file_name'', ''size_bytes'', ''bucket'', ''uploader''] [] \<noteq> []"
  shows "handle_file_upload event =
           Inr (error_response
                  (check_required event [''file_name'', ''size_bytes'', ''bucket'', ''uploader''] []))"
  using assms unfolding handle_file_upload_def Let_def by simp

lemma upload_present:
  assumes "map_of event ''file_name'' = Some file_name"
    and "map_of event ''size_bytes'' = Some size_bytes"
    and "map_of event ''bucket'' = Some bucket"
    and "map_of event ''uploader'' = Some uploader"
  shows "handle_file_upload event =
     (if upload_checks file_name size_bytes bucket uploader \<noteq> []
      then Inr (error_response (upload_checks file_name size_bytes bucket uploader))
      else
        and_then (str_strip file_name) (\<lambda>file_name'.
        and_then (str_lower bucket) (\<lambda>bucket'.
        and_then (str_lower uploader) (\<lambda>uploader'.
          Inr \<lparr>status = ''ok'',
               message = ''Upload processed'',
               data =
                 [(''file_name'', PStr file_name'),
                  (''size_bytes'', size_bytes),
                  (''bucket'', PStr bucket'),
                  (''uploader'', PStr uploader'),
                  (''storage_class'', PStr (storage_class (int_value size_bytes)))],
               errors = []\<rparr>))))"
proof -
  have req: "check_required event [''file_name'', ''size_bytes'', ''bucket'', ''uploader''] [] = []"
    using assms by (simp add: check_required_filter)
  show ?thesis
    unfolding handle_file_upload_def Let_def req
    using assms
    by (cases "isinstance_str file_name"; cases "bad_size size_bytes";
        cases "isinstance_str bucket"; cases "bad_email uploader";
        simp add: getitem_def and_then_def upload_checks_def)
qed

lemma signup_checks_Nil:
  "signup_checks user_id email plan = [] \<longleftrightarrow>
     isinstance_int user_id \<and> \<not> bad_email email \<and> \<not> bad_plan plan"
  by (simp add: signup_checks_def)

lemma payment_checks_Nil:
  "payment_checks payment_id user_id amount currency = [] \<longleftrightarrow>
     isinstance_str payment_id \<and> isinstance_int user_id \<and> \<not> bad_amount amount \<and>
     \<not> bad_currency currency"
  by (simp add: payment_checks_def)

lemma upload_checks_Nil:
  "upload_checks file_name size_bytes bucket uploader = [] \<longleftrightarrow>
     isinstance_str file_name \<and> \<not> bad_size size_bytes \<and> isinstance_str bucket \<and>
     \<not> bad_email uploader"
  by (simp add: upload_checks_def)

section \<open>The errors of a run\<close>

text \<open>
  The errors of a run are those of the presence loop or else those of the second phase;
  a run that succeeds or raises reports none.
\<close>

lemma and_then_Inr:
  assumes "and_then a f = Inr r"
  obtains x where "a = Inr x" and "f x = Inr r"
  using assms by (cases a) (simp_all add: and_then_def)

lemma errors_of_and_then:
  assumes "\<And>x. errors_of (f x) = []"
  shows "errors_of (and_then a f) = []"
  using assms by (cases a) (simp_all add: and_then_def errors_of_def)

lemma notnotI: "P \<Longrightarrow> \<not> \<not> P"
  by simp

lemma errors_of_error_response: "errors_of (Inr (error_response errs)) = errs"
  by (simp add: errors_of_def error_response_def)

lemma signup_errors_present:
  assumes "map_of event ''user_id'' = Some user_id"
    and "map_of event ''email'' = Some email"
    and "map_of event ''plan'' = Some plan"
  shows "errors_of (handle_user_signup event) = signup_checks user_id email plan"
proof (cases "signup_checks user_id email plan = []")
  case True
  have "errors_of (handle_user_signup event) = []"
    unfolding signup_present [OF assms] if_not_P [OF True [THEN notnotI]]
    by (intro errors_of_and_then) (simp add: errors_of_def)
  with True show ?thesis by simp
next
  case False
  then show ?thesis
    unfolding signup_present [OF assms] by (simp add: errors_of_error_response)
qed

lemma payment_errors_present:
  assumes "map_of event ''payment_id'' = Some payment_id"
    and "map_of event ''user_id'' = Some user_id"
    and "map_of event ''amount'' = Some amount"
    and "map_of event ''currency'' = Some currency"
  shows "errors_of (handle_payment event) = payment_checks payment_id user_id amount currency"
proof (cases "payment_checks payment_id user_id amount currency = []")
  case True
  have "errors_of (handle_payment event) = []"
    unfolding payment_present [OF assms] if_not_P [OF True [THEN notnotI]]
    by (intro errors_of_and_then) (simp add: errors_of_def)
  with True show ?thesis by simp
next
  case False
  then show ?thesis
    unfolding payment_present [OF assms] by (simp add: errors_of_error_response)
qed

lemma upload_errors_present:
  assumes "map_of event ''file_name'' = Some file_name"
    and "map_of event ''size_bytes'' = Some size_bytes"
    and "map_of event ''bucket'' = Some bucket"
    and "map_of event ''uploader'' = Some uploader"
  shows "errors_of (handle_file_upload event) = upload_checks file_name size_bytes bucket uploader"
proof (cases "upload_checks file_name size_bytes bucket uploader = []")
  case True
  have "errors_of (handle_file_upload event) = []"
    unfolding upload_present [OF assms] if_not_P [OF True [THEN notnotI]]
    by (intro errors_of_and_then) (simp add: errors_of_def)
  with True show ?thesis by simp
next
  case False
  then show ?thesis
    unfolding upload_present [OF assms] by (simp add: errors_of_error_response)
qed

lemma signup_errors_of:
  "errors_of (handle_user_signup event) =
     (if check_required event [''user_id'', ''email'', ''plan''] [] \<noteq> []
      then check_required event [''user_id'', ''email'', ''plan''] []
      else signup_checks (the (map_of event ''user_id'')) (the (map_of event ''email''))
             (the (map_of event ''plan'')))"
proof (cases "check_required event [''user_id'', ''email'', ''plan''] [] = []")
  case True
  then have "\<forall>field \<in> set required. map_of event field \<noteq> None"
    if "required = [''user_id'', ''email'', ''plan'']" for required
    using that by (simp only: check_required_Nil)
  then have "map_of event ''user_id'' = Some (the (map_of event ''user_id''))"
    and "map_of event ''email'' = Some (the (map_of event ''email''))"
    and "map_of event ''plan'' = Some (the (map_of event ''plan''))"
    by simp_all
  then show ?thesis
    using True by (simp only: signup_errors_present if_False not_True_eq_False simp_thms)
next
  case False
  then show ?thesis
    by (simp add: signup_missing errors_of_error_response)
qed

lemma payment_errors_of:
  "errors_of (handle_payment event) =
     (if check_required event [''payment_id'', ''user_id'', ''amount'', ''currency''] [] \<noteq> []
      then check_required event [''payment_id'', ''user_id'', ''amount'', ''currency''] []
      else payment_checks (the (map_of event ''payment_id'')) (the (map_of event ''user_id''))
             (the (map_of event ''amount'')) (the (map_of event ''currency'')))"
proof (cases "check_required event [''payment_id'', ''user_id'', ''amount'', ''currency''] [] = []")
  case True
  then have "\<forall>field \<in> set required. map_of event field \<noteq> None"
    if "required = [''payment_id'', ''user_id'', ''amount'', ''currency'']" for required
    using that by (simp only: check_required_Nil)
  then have "map_of event ''payment_id'' = Some (the (map_of event ''payment_id''))"
    and "map_of event ''user_id'' = Some (the (map_of event ''user_id''))"
    and "map_of event ''amount'' = Some (the (map_of event ''amount''))"
    and "map_of event ''currency'' = Some (the (map_of event ''currency''))"
    by simp_all
  then show ?thesis
    using True by (simp only: payment_errors_present if_False not_True_eq_False simp_thms)
next
  case False
  then show ?thesis
    by (simp add: payment_missing errors_of_error_response)
qed

lemma upload_errors_of:
  "errors_of (handle_file_upload event) =
     (if check_required event [''file_name'', ''size_bytes'', ''bucket'', ''uploader''] [] \<noteq> []
      then check_required event [''file_name'', ''size_bytes'', ''bucket'', ''uploader''] []
      else upload_checks (the (map_of event ''file_name'')) (the (map_of event ''size_bytes''))
             (the (map_of event ''bucket'')) (the (map_of event ''uploader'')))"
proof (cases "check_required event [''file_name'', ''size_bytes'', ''bucket'', ''uploader''] [] = []")
  case True
  then have "\<forall>field \<in> set required. map_of event field \<noteq> None"
    if "required = [''file_name'', ''size_bytes'', ''bucket'', ''uploader'']" for required
    using that by (simp only: check_required_Nil)
  then have "map_of event ''file_name'' = Some (the (map_of event ''file_name''))"
    and "map_of event ''size_bytes'' = Some (the (map_of event ''size_bytes''))"
    and "map_of event ''bucket'' = Some (the (map_of event ''bucket''))"
    and "map_of event ''uploader'' = Some (the (map_of event ''uploader''))"
    by simp_all
  then show ?thesis
    using True by (simp only: upload_errors_present if_False not_True_eq_False simp_thms)
next
  case False
  then show ?thesis
    by (simp add: upload_missing errors_of_error_response)
qed

lemma handler_errors_of:
  "errors_of (handler (PDict event) ctx) =
     (if dict_get event ''type'' = PStr (ascii ''USER_SIGNUP'') then errors_of (handle_user_signup event)
      else if dict_get event ''type'' = PStr (ascii ''PAYMENT'') then errors_of (handle_payment event)
      else if dict_get event ''type'' = PStr (ascii ''FILE_UPLOAD'') then errors_of (handle_file_upload event)
      else [''Unknown event type''])"
  by (simp add: errors_of_error_response Let_def)

lemma handler_errors_of_full:
  "errors_of (handler (PDict event) ctx) =
     (if dict_get event ''type'' = PStr (ascii ''USER_SIGNUP'') then
        (if check_required event [''user_id'', ''email'', ''plan''] [] \<noteq> []
         then check_required event [''user_id'', ''email'', ''plan''] []
         else signup_checks (the (map_of event ''user_id'')) (the (map_of event ''email''))
                (the (map_of event ''plan'')))
      else if dict_get event ''type'' = PStr (ascii ''PAYMENT'') then
        (if check_required event [''payment_id'', ''user_id'', ''amount'', ''currency''] [] \<noteq> []
         then check_required event [''payment_id'', ''user_id'', ''amount'', ''currency''] []
         else payment_checks (the (map_of event ''payment_id'')) (the (map_of event ''user_id''))
                (the (map_of event ''amount'')) (the (map_of event ''currency'')))
      else if dict_get event ''type'' = PStr (ascii ''FILE_UPLOAD'') then
        (if check_required event [''file_name'', ''size_bytes'', ''bucket'', ''uploader''] [] \<noteq> []
         then check_required event [''file_name'', ''size_bytes'', ''bucket'', ''uploader''] []
         else upload_checks (the (map_of event ''file_name'')) (the (map_of event ''size_bytes''))
                (the (map_of event ''bucket'')) (the (map_of event ''uploader'')))
      else [''Unknown event type''])"
  by (simp only: handler_errors_of signup_errors_of payment_errors_of upload_errors_of)

lemma handler_errors_signup:
  assumes "dict_get event ''type'' = PStr (ascii ''USER_SIGNUP'')"
    and "map_of event ''user_id'' = Some user_id"
    and "map_of event ''email'' = Some email"
    and "map_of event ''plan'' = Some plan"
  shows "errors_of (handler (PDict event) ctx) = signup_checks user_id email plan"
  using assms by (simp only: handler_dispatch_signup signup_errors_present)

lemma handler_errors_payment:
  assumes "dict_get event ''type'' = PStr (ascii ''PAYMENT'')"
    and "map_of event ''payment_id'' = Some payment_id"
    and "map_of event ''user_id'' = Some user_id"
    and "map_of event ''amount'' = Some amount"
    and "map_of event ''currency'' = Some currency"
  shows "errors_of (handler (PDict event) ctx) = payment_checks payment_id user_id amount currency"
  using assms by (simp only: handler_dispatch_payment payment_errors_present)

lemma handler_errors_upload:
  assumes "dict_get event ''type'' = PStr (ascii ''FILE_UPLOAD'')"
    and "map_of event ''file_name'' = Some file_name"
    and "map_of event ''size_bytes'' = Some size_bytes"
    and "map_of event ''bucket'' = Some bucket"
    and "map_of event ''uploader'' = Some uploader"
  shows "errors_of (handler (PDict event) ctx) = upload_checks file_name size_bytes bucket uploader"
  using assms by (simp only: handler_dispatch_upload upload_errors_present)

lemma present_never_missing:
  assumes "map_of event key \<noteq> None"
  shows "''Missing field: '' @ key \<notin> set (errors_of (handler (PDict event) ctx))"
proof -
  define m where "m = ''Missing field: '' @ key"
  have a: "m \<notin> set (check_required event required [])" for required
    unfolding m_def using assms by (simp only: missing_message_in_check_required) simp
  have b: "m \<notin> set (signup_checks u e p)" for u e p
    by (simp add: m_def signup_checks_def)
  have c: "m \<notin> set (payment_checks q u n c)" for q u n c
    by (simp add: m_def payment_checks_def)
  have d: "m \<notin> set (upload_checks f s k u)" for f s k u
    by (simp add: m_def upload_checks_def)
  have e: "m \<noteq> ''Unknown event type''"
    by (simp add: m_def)
  then have e': "m \<notin> set [''Unknown event type'']"
    by simp
  have s: "m \<notin> set (errors_of (handle_user_signup event))"
    by (simp only: signup_errors_of a b simp_thms split: if_split)
  have p: "m \<notin> set (errors_of (handle_payment event))"
    by (simp only: payment_errors_of a c simp_thms split: if_split)
  have u: "m \<notin> set (errors_of (handle_file_upload event))"
    by (simp only: upload_errors_of a d simp_thms split: if_split)
  have "m \<notin> set (errors_of (handler (PDict event) ctx))"
    by (simp only: handler_errors_of s p u e' simp_thms split: if_split)
  then show ?thesis
    unfolding m_def .
qed

lemma bool_user_id_accepted:
  assumes "map_of event ''user_id'' = Some (PBool b)"
  shows "''user_id must be int'' \<notin> set (errors_of (handler (PDict event) ctx))"
proof -
  have s: "''user_id must be int'' \<notin> set (signup_checks (PBool b) e p)" for e p
    by (simp add: signup_checks_def)
  have p: "''user_id must be int'' \<notin> set (payment_checks q (PBool b) a c)" for q a c
    by (simp add: payment_checks_def)
  have u: "''user_id must be int'' \<notin> set (upload_checks f z k w)" for f z k w
    by (simp add: upload_checks_def)
  show ?thesis
    unfolding handler_errors_of_full
    by (simp only: assms option.sel s p u not_missing_message simp_thms split: if_split) simp
qed

lemma bool_size_accepted:
  assumes "map_of event ''size_bytes'' = Some (PBool b)"
  shows "''size_bytes must be >= 0'' \<notin> set (errors_of (handler (PDict event) ctx))"
proof -
  have s: "''size_bytes must be >= 0'' \<notin> set (signup_checks v e p)" for v e p
    by (simp add: signup_checks_def)
  have p: "''size_bytes must be >= 0'' \<notin> set (payment_checks q v a c)" for q v a c
    by (simp add: payment_checks_def)
  have u: "''size_bytes must be >= 0'' \<notin> set (upload_checks f (PBool b) k w)" for f k w
    by (simp add: upload_checks_def bad_size_def)
  show ?thesis
    unfolding handler_errors_of_full
    by (simp only: assms option.sel s p u not_missing_message simp_thms split: if_split) simp
qed

section \<open>The envelope invariant\<close>

text \<open>Every envelope a validator returns, and so every envelope \<open>handler\<close> returns, satisfies it.\<close>

lemma invariant_error_response: "errs \<noteq> [] \<Longrightarrow> envelope_invariant (error_response errs)"
  by (simp add: envelope_invariant_def error_response_def)

lemma signup_invariant:
  assumes "handle_user_signup event = Inr r"
  shows "envelope_invariant r"
proof (cases "check_required event [''user_id'', ''email'', ''plan''] [] = []")
  case False
  from signup_missing [OF False] assms
  have "r = error_response (check_required event [''user_id'', ''email'', ''plan''] [])"
    by simp
  with invariant_error_response [OF False] show ?thesis
    by (simp only:)
next
  case True
  obtain user_id where u: "map_of event ''user_id'' = Some user_id"
    by (rule all_present [OF True, of "''user_id''"]) simp
  obtain email where e: "map_of event ''email'' = Some email"
    by (rule all_present [OF True, of "''email''"]) simp
  obtain plan where p: "map_of event ''plan'' = Some plan"
    by (rule all_present [OF True, of "''plan''"]) simp
  show ?thesis
  proof (cases "signup_checks user_id email plan = []")
    case False
    with assms have "r = error_response (signup_checks user_id email plan)"
      by (simp add: signup_present [OF u e p])
    with invariant_error_response [OF False] show ?thesis
      by (simp only:)
  next
    case True
    with assms show ?thesis
      unfolding signup_present [OF u e p]
      by (auto elim!: and_then_Inr simp add: envelope_invariant_def)
  qed
qed

lemma payment_invariant:
  assumes "handle_payment event = Inr r"
  shows "envelope_invariant r"
proof (cases "check_required event [''payment_id'', ''user_id'', ''amount'', ''currency''] [] = []")
  case False
  from payment_missing [OF False] assms
  have "r = error_response (check_required event [''payment_id'', ''user_id'', ''amount'', ''currency''] [])"
    by simp
  with invariant_error_response [OF False] show ?thesis
    by (simp only:)
next
  case True
  obtain payment_id where q: "map_of event ''payment_id'' = Some payment_id"
    by (rule all_present [OF True, of "''payment_id''"]) simp
  obtain user_id where u: "map_of event ''user_id'' = Some user_id"
    by (rule all_present [OF True, of "''user_id''"]) simp
  obtain amount where a: "map_of event ''amount'' = Some amount"
    by (rule all_present [OF True, of "''amount''"]) simp
  obtain currency where c: "map_of event ''currency'' = Some currency"
    by (rule all_present [OF True, of "''currency''"]) simp
  show ?thesis
  proof (cases "payment_checks payment_id user_id amount currency = []")
    case False
    with assms have "r = error_response (payment_checks payment_id user_id amount currency)"
      by (simp add: payment_present [OF q u a c])
    with invariant_error_response [OF False] show ?thesis
      by (simp only:)
  next
    case True
    with assms show ?thesis
      unfolding payment_present [OF q u a c]
      by (auto elim!: and_then_Inr simp add: envelope_invariant_def)
  qed
qed

lemma upload_invariant:
  assumes "handle_file_upload event = Inr r"
  shows "envelope_invariant r"
proof (cases "check_required event [''file_name'', ''size_bytes'', ''bucket'', ''uploader''] [] = []")
  case False
  from upload_missing [OF False] assms
  have "r = error_response (check_required event [''file_name'', ''size_bytes'', ''bucket'', ''uploader''] [])"
    by simp
  with invariant_error_response [OF False] show ?thesis
    by (simp only:)
next
  case True
  obtain file_name where f: "map_of event ''file_name'' = Some file_name"
    by (rule all_present [OF True, of "''file_name''"]) simp
  obtain size_bytes where s: "map_of event ''size_bytes'' = Some size_bytes"
    by (rule all_present [OF True, of "''size_bytes''"]) simp
  obtain bucket where b: "map_of event ''bucket'' = Some bucket"
    by (rule all_present [OF True, of "''bucket''"]) simp
  obtain uploader where u: "map_of event ''uploader'' = Some uploader"
    by (rule all_present [OF True, of "''uploader''"]) simp
  show ?thesis
  proof (cases "upload_checks file_name size_bytes bucket uploader = []")
    case False
    with assms have "r = error_response (upload_checks file_name size_bytes bucket uploader)"
      by (simp add: upload_present [OF f s b u])
    with invariant_error_response [OF False] show ?thesis
      by (simp only:)
  next
    case True
    with assms show ?thesis
      unfolding upload_present [OF f s b u]
      by (auto elim!: and_then_Inr simp add: envelope_invariant_def)
  qed
qed

lemma returned_envelope_invariant:
  assumes "handler event ctx = Inr r"
  shows "envelope_invariant r"
proof (cases event)
  case (PDict d)
  consider "dict_get d ''type'' = PStr (ascii ''USER_SIGNUP'')"
    | "dict_get d ''type'' = PStr (ascii ''PAYMENT'')"
    | "dict_get d ''type'' = PStr (ascii ''FILE_UPLOAD'')"
    | "dict_get d ''type'' \<noteq> PStr (ascii ''USER_SIGNUP'')" "dict_get d ''type'' \<noteq> PStr (ascii ''PAYMENT'')"
      "dict_get d ''type'' \<noteq> PStr (ascii ''FILE_UPLOAD'')"
    by blast
  then show ?thesis
  proof cases
    case 1
    with assms PDict show ?thesis
      by (simp only: handler_dispatch_signup signup_invariant)
  next
    case 2
    with assms PDict show ?thesis
      by (simp only: handler_dispatch_payment payment_invariant)
  next
    case 3
    with assms PDict show ?thesis
      by (simp only: handler_dispatch_upload upload_invariant)
  next
    case 4
    with assms PDict show ?thesis
      by (simp only: handler_dispatch_unknown) (auto simp add: invariant_error_response)
  qed
qed (use assms in \<open>auto simp add: invariant_error_response\<close>)

section \<open>The exceptions of a run\<close>

text \<open>
  The presence loop guards every subscript and the checks of the second phase guard every
  method call and every cast, so \<open>KeyError\<close>, \<open>AttributeError\<close> and \<open>TypeError\<close> never
  arise. What remains is \<open>OverflowError\<close>, and only in the payment validator.
\<close>

lemma and_then_Inl:
  assumes "and_then a f = Inl e"
  obtains "a = Inl e" | x where "a = Inr x" and "f x = Inl e"
  using assms by (cases a) (simp_all add: and_then_def)

lemma float_of_int_raises: "float_of_int i = Inl e \<Longrightarrow> e = OverflowError"
  by (simp add: float_of_int_def split: pyfloat.splits)

lemma py_round_raises: "py_round f ndigits = Inl e \<Longrightarrow> e = OverflowError"
  by (cases f) (simp_all add: Let_def split: pyfloat.splits)

lemma py_float_raises: "\<not> bad_amount amount \<Longrightarrow> py_float amount = Inl e \<Longrightarrow> e = OverflowError"
  by (cases amount) (simp_all add: bad_amount_def float_of_int_raises)

lemma not_bad_email: "\<not> bad_email v \<Longrightarrow> \<exists>s. v = PStr s"
  by (cases v) (simp_all add: bad_email_def)

lemma not_bad_plan: "\<not> bad_plan v \<Longrightarrow> \<exists>s. v = PStr s"
  by (cases v) (simp_all add: bad_plan_def)

lemma not_bad_currency: "\<not> bad_currency v \<Longrightarrow> \<exists>s. v = PStr s"
  by (cases v) (simp_all add: bad_currency_def)

lemma is_str: "isinstance_str v \<Longrightarrow> \<exists>s. v = PStr s"
  by (cases v) simp_all

lemma signup_never_raises: "handle_user_signup event \<noteq> Inl e"
proof (cases "check_required event [''user_id'', ''email'', ''plan''] [] = []")
  case False
  show ?thesis
    unfolding signup_missing [OF False] by simp
next
  case True
  obtain user_id where u: "map_of event ''user_id'' = Some user_id"
    by (rule all_present [OF True, of "''user_id''"]) simp
  obtain email where e: "map_of event ''email'' = Some email"
    by (rule all_present [OF True, of "''email''"]) simp
  obtain plan where p: "map_of event ''plan'' = Some plan"
    by (rule all_present [OF True, of "''plan''"]) simp
  show ?thesis
  proof (cases "signup_checks user_id email plan = []")
    case False
    then show ?thesis
      by (simp add: signup_present [OF u e p])
  next
    case True
    then obtain s t where "email = PStr s" and "plan = PStr t"
      using not_bad_email [of email] not_bad_plan [of plan]
      by (auto simp only: signup_checks_Nil)
    with True show ?thesis
      by (simp add: signup_present [OF u e p] and_then_def)
  qed
qed

lemma upload_never_raises: "handle_file_upload event \<noteq> Inl e"
proof (cases "check_required event [''file_name'', ''size_bytes'', ''bucket'', ''uploader''] [] = []")
  case False
  show ?thesis
    unfolding upload_missing [OF False] by simp
next
  case True
  obtain file_name where f: "map_of event ''file_name'' = Some file_name"
    by (rule all_present [OF True, of "''file_name''"]) simp
  obtain size_bytes where s: "map_of event ''size_bytes'' = Some size_bytes"
    by (rule all_present [OF True, of "''size_bytes''"]) simp
  obtain bucket where b: "map_of event ''bucket'' = Some bucket"
    by (rule all_present [OF True, of "''bucket''"]) simp
  obtain uploader where u: "map_of event ''uploader'' = Some uploader"
    by (rule all_present [OF True, of "''uploader''"]) simp
  show ?thesis
  proof (cases "upload_checks file_name size_bytes bucket uploader = []")
    case False
    then show ?thesis
      by (simp add: upload_present [OF f s b u])
  next
    case True
    then obtain x y z where "file_name = PStr x" and "bucket = PStr y" and "uploader = PStr z"
      using is_str [of file_name] is_str [of bucket] not_bad_email [of uploader]
      by (auto simp only: upload_checks_Nil)
    with True show ?thesis
      by (simp add: upload_present [OF f s b u] and_then_def)
  qed
qed

lemma payment_raises_only_overflow:
  assumes "handle_payment event = Inl e"
  shows "e = OverflowError"
proof (cases "check_required event [''payment_id'', ''user_id'', ''amount'', ''currency''] [] = []")
  case False
  with assms show ?thesis
    unfolding payment_missing [OF False] by simp
next
  case True
  obtain payment_id where q: "map_of event ''payment_id'' = Some payment_id"
    by (rule all_present [OF True, of "''payment_id''"]) simp
  obtain user_id where u: "map_of event ''user_id'' = Some user_id"
    by (rule all_present [OF True, of "''user_id''"]) simp
  obtain amount where a: "map_of event ''amount'' = Some amount"
    by (rule all_present [OF True, of "''amount''"]) simp
  obtain currency where c: "map_of event ''currency'' = Some currency"
    by (rule all_present [OF True, of "''currency''"]) simp
  show ?thesis
  proof (cases "payment_checks payment_id user_id amount currency = []")
    case False
    with assms show ?thesis
      by (simp add: payment_present [OF q u a c])
  next
    case True
    then have amt: "\<not> bad_amount amount"
      by (simp add: payment_checks_Nil)
    from True obtain s where cur: "currency = PStr s"
      using not_bad_currency [of currency] by (auto simp only: payment_checks_Nil)
    from assms True cur
    have "and_then (py_float amount) (\<lambda>f.
          and_then (py_round f 3) (\<lambda>amount'.
          and_then (py_round (float_mul amount' (float_literal 2 2)) 3) (\<lambda>fee.
          and_then (py_round (float_sub amount' fee) 3) (\<lambda>net_amount.
            Inr \<lparr>status = ''ok'',
                 message = ''Payment processed'',
                 data =
                   [(''payment_id'', payment_id),
                    (''user_id'', user_id),
                    (''amount'', PFloat amount'),
                    (''currency'', PStr (py_upper s)),
                    (''fee'', PFloat fee),
                    (''net_amount'', PFloat net_amount)],
                 errors = []\<rparr>)))) = Inl e"
      by (simp add: payment_present [OF q u a c] and_then_def)
    then show ?thesis
      by (auto elim!: and_then_Inl dest: py_float_raises [OF amt] py_round_raises)
  qed
qed

lemma handler_raises_only_overflow:
  assumes "handler event ctx = Inl e"
  shows "e = OverflowError \<and> (\<exists>d. event = PDict d \<and> dict_get d ''type'' = PStr (ascii ''PAYMENT''))"
proof (cases event)
  case (PDict d)
  consider "dict_get d ''type'' = PStr (ascii ''USER_SIGNUP'')"
    | "dict_get d ''type'' = PStr (ascii ''PAYMENT'')"
    | "dict_get d ''type'' = PStr (ascii ''FILE_UPLOAD'')"
    | "dict_get d ''type'' \<noteq> PStr (ascii ''USER_SIGNUP'')" "dict_get d ''type'' \<noteq> PStr (ascii ''PAYMENT'')"
      "dict_get d ''type'' \<noteq> PStr (ascii ''FILE_UPLOAD'')"
    by blast
  then show ?thesis
  proof cases
    case 1
    with assms PDict show ?thesis
      by (simp only: handler_dispatch_signup signup_never_raises)
  next
    case 2
    with assms PDict have "handle_payment d = Inl e"
      by (simp only: handler_dispatch_payment)
    then have "e = OverflowError"
      by (rule payment_raises_only_overflow)
    with 2 PDict show ?thesis
      by simp
  next
    case 3
    with assms PDict show ?thesis
      by (simp only: handler_dispatch_upload upload_never_raises)
  next
    case 4
    with assms PDict show ?thesis
      by (simp only: handler_dispatch_unknown) simp
  qed
qed (use assms in simp_all)

section \<open>The cast of the amount\<close>

text \<open>
  A natural has as many binary digits as \<open>bit_length\<close> says, so an integer of at least
  \<open>2^1024\<close> gets an exponent above 971: it rounds to an infinity and \<open>float\<close> raises.
\<close>

lemma bit_length_bounds:
  "n \<noteq> 0 \<Longrightarrow> 2 ^ (bit_length n - 1) \<le> n \<and> n < 2 ^ bit_length n"
proof (induction n rule: bit_length.induct)
  case (1 n)
  show ?case
  proof (cases "n div 2 = 0")
    case True
    with "1.prems" have "n = 1"
      by (simp add: div_eq_0_iff)
    then show ?thesis
      by (simp add: bit_length.simps)
  next
    case False
    with "1.IH" "1.prems"
    have ih: "2 ^ (bit_length (n div 2) - 1) \<le> n div 2" "n div 2 < 2 ^ bit_length (n div 2)"
      by simp_all
    from False have pos: "bit_length (n div 2) \<noteq> 0"
      by (subst bit_length.simps) simp
    from "1.prems" have bl: "bit_length n = Suc (bit_length (n div 2))"
      by (subst bit_length.simps) simp
    from pos have "(2::nat) ^ bit_length (n div 2) = 2 * 2 ^ (bit_length (n div 2) - 1)"
      by (cases "bit_length (n div 2)") simp_all
    with ih show ?thesis
      unfolding bl by (simp; linarith)
  qed
qed

lemma bit_length_greater:
  assumes "2 ^ k \<le> n"
  shows "k < bit_length n"
proof -
  from assms have "n \<noteq> 0"
    by (cases "n = 0") simp_all
  then have "n < 2 ^ bit_length n"
    by (simp add: bit_length_bounds)
  with assms have "(2::nat) ^ k < 2 ^ bit_length n"
    by linarith
  then show ?thesis
    by simp
qed

lemma double_exponent_large:
  assumes "2 ^ k \<le> n"
  shows "int k - 52 \<le> double_exponent n 1"
proof -
  from assms have n: "n \<noteq> 0"
    by (cases "n = 0") simp_all
  have k: "k < bit_length n"
    using assms by (rule bit_length_greater)
  have one: "bit_length 1 = 1"
    by (simp add: bit_length.simps)
  have low: "2 ^ (bit_length n - 1) \<le> n"
    using bit_length_bounds [OF n] by blast
  from k have diff: "int (bit_length n) - int (bit_length 1) = int (bit_length n - 1)"
    unfolding one by simp
  have "double_exponent n 1 = max (int (bit_length n - 1) - 52) (- 1074)"
    unfolding double_exponent_def Let_def diff using low by simp
  with k show ?thesis
    by simp
qed

lemma round_to_double_overflow:
  assumes "2 ^ k \<le> n" and "1024 \<le> k"
  shows "round_to_double s n 1 = Infinity s"
proof -
  from assms(1) have n: "n \<noteq> 0"
    by (cases "n = 0") simp_all
  from assms have "971 < double_exponent n 1"
    using double_exponent_large [of k n] by simp
  then show ?thesis
    using n by (simp add: round_to_double_def Let_def)
qed

lemma float_of_int_overflow:
  assumes "2 ^ 1024 \<le> i"
  shows "float_of_int i = Inl OverflowError"
proof -
  have "(0::int) \<le> 2 ^ 1024"
    by (rule zero_le_power) simp
  from this assms have "0 \<le> i"
    by (rule order_trans)
  then have abs: "nat \<bar>i\<bar> = nat i"
    by simp
  have "int (2 ^ 1024) \<le> i"
    using assms by (simp only: of_nat_power of_nat_numeral)
  with \<open>0 \<le> i\<close> have "(2::nat) ^ 1024 \<le> nat i"
    by (simp only: le_nat_iff)
  then have "round_to_double (i < 0) (nat i) 1 = Infinity (i < 0)"
    by (rule round_to_double_overflow) simp
  then show ?thesis
    unfolding float_of_int_def abs by simp
qed

text \<open>
  The exact bound: \<open>float\<close> raises on the integers of magnitude \<open>2^1024 - 2^970\<close> and more,
  the first to round to \<open>2^1024\<close>, and on no others.
\<close>

lemma round_half_even_one: "round_half_even n 1 = n"
  by (simp add: round_half_even_def)

lemma round_half_even_le:
  assumes "0 < d"
  shows "round_half_even n d \<le> Suc (n div d)"
  by (simp add: round_half_even_def Let_def)

lemma round_half_even_top:
  assumes "d = 2 * h" and "0 < h" and "even p" and "0 < p" and "n < p * d"
  shows "round_half_even n d = p \<longleftrightarrow> p * d - h \<le> n"
proof
  assume low: "p * d - h \<le> n"
  have "(p - 1) * d \<le> p * d - h"
    using assms by (cases p) (simp_all add: algebra_simps)
  with low have "(p - 1) * d \<le> n"
    by simp
  moreover from assms have "n < Suc (p - 1) * d"
    by simp
  ultimately have q: "n div d = p - 1"
    using assms(1,2) by (intro div_nat_eqI) (simp_all add: mult.commute)
  have "n mod d = n - (p - 1) * d"
    using q by (metis minus_mult_div_eq_mod mult.commute)
  with low assms have "h \<le> n mod d"
    by (cases p) (simp_all add: algebra_simps)
  with assms q show "round_half_even n d = p"
    by (auto simp add: round_half_even_def Let_def)
next
  assume top: "round_half_even n d = p"
  show "p * d - h \<le> n"
  proof (rule ccontr)
    assume "\<not> p * d - h \<le> n"
    then have less: "n < p * d - h"
      by simp
    have "n div d < p"
      using assms by (simp add: less_mult_imp_div_less)
    then consider "n div d = p - 1" | "Suc (n div d) < p"
      by linarith
    then show False
    proof cases
      case 1
      have "n mod d = n - (p - 1) * d"
        using 1 by (metis minus_mult_div_eq_mod mult.commute)
      with less assms have "2 * (n mod d) < d"
        by (cases p) (simp_all add: algebra_simps)
      with 1 assms top show False
        by (simp add: round_half_even_def Let_def)
    next
      case 2
      with round_half_even_le [of d n] assms top show False
        by simp
    qed
  qed
qed


lemma double_exponent_int:
  assumes "n \<noteq> 0"
  shows "double_exponent n 1 = int (bit_length n) - 53"
proof -
  have one: "bit_length 1 = 1"
    by (simp add: bit_length.simps)
  have low: "2 ^ (bit_length n - 1) \<le> n"
    using bit_length_bounds [OF assms] by blast
  from assms have pos: "bit_length n \<noteq> 0"
    by (subst bit_length.simps) simp
  then have diff: "int (bit_length n) - int (bit_length 1) = int (bit_length n - 1)"
    unfolding one by simp
  have "double_exponent n 1 = max (int (bit_length n - 1) - 52) (- 1074)"
    unfolding double_exponent_def Let_def diff using low by simp
  with pos show ?thesis
    by simp
qed

lemma round_to_double_finite_small:
  assumes "n \<noteq> 0" and "bit_length n < 1024"
  shows "round_to_double s n 1 \<noteq> Infinity t"
proof -
  have e: "double_exponent n 1 < 971"
    using assms(2) double_exponent_int [OF assms(1)] by simp
  show ?thesis
    unfolding round_to_double_def Let_def using assms(1) e by simp
qed

lemma round_to_double_top:
  assumes "bit_length n = 1024"
  shows "round_to_double s n 1 = Infinity s \<longleftrightarrow> 2 ^ 1024 - 2 ^ 970 \<le> n"
proof -
  from assms have n: "n \<noteq> 0"
    by (cases "n = 0") (simp_all add: bit_length.simps)
  have e: "double_exponent n 1 = 971"
    using assms double_exponent_int [OF n] by simp
  have "n < 2 ^ bit_length n"
    using bit_length_bounds [OF n] by blast
  then have less: "n < 2 ^ 53 * 2 ^ 971"
    unfolding assms by (simp only: power_add [symmetric]) simp
  have top: "round_half_even n (2 ^ 971) = 2 ^ 53 \<longleftrightarrow> 2 ^ 53 * 2 ^ 971 - 2 ^ 970 \<le> n"
    by (rule round_half_even_top [OF _ _ _ _ less]) simp_all
  have pw: "(2::nat) ^ 53 * 2 ^ 971 = 2 ^ 1024"
    by (simp only: power_add [symmetric]) simp
  have "round_to_double s n 1 = Infinity s \<longleftrightarrow> round_half_even n (2 ^ 971) = 2 ^ 53"
    unfolding round_to_double_def Let_def e scaled_round_def using n by simp
  then show ?thesis
    unfolding top pw .
qed


lemma round_to_double_infinite_iff:
  "(\<exists>t. round_to_double s n 1 = Infinity t) \<longleftrightarrow> 2 ^ 1024 - 2 ^ 970 \<le> n"
proof -
  have gap: "(2::nat) ^ 1023 \<le> 2 ^ 1024 - 2 ^ 970" "(2::nat) ^ 1024 - 2 ^ 970 \<le> 2 ^ 1024"
    "(0::nat) < 2 ^ 1024 - 2 ^ 970"
    by simp_all
  consider "n = 0" | "n \<noteq> 0" "bit_length n < 1024" | "bit_length n = 1024"
    | "1024 < bit_length n"
    by (cases "n = 0"; cases "bit_length n" "1024::nat" rule: linorder_cases) simp_all
  then show ?thesis
  proof cases
    case 1
    with gap(3) show ?thesis
      by (simp add: round_to_double_def)
  next
    case 2
    have "n < 2 ^ bit_length n"
      using bit_length_bounds [OF 2(1)] by blast
    also from 2(2) have "(2::nat) ^ bit_length n \<le> 2 ^ 1023"
      by (intro power_increasing) simp_all
    finally have "\<not> 2 ^ 1024 - 2 ^ 970 \<le> n"
      using gap(1) by linarith
    with round_to_double_finite_small [OF 2] show ?thesis
      by blast
  next
    case 3
    have "(\<exists>t. round_to_double s n 1 = Infinity t) \<longleftrightarrow> round_to_double s n 1 = Infinity s"
      by (auto simp add: round_to_double_def Let_def split: if_splits)
    with round_to_double_top [OF 3] show ?thesis
      by simp
  next
    case 4
    then have n: "n \<noteq> 0"
      by (cases "n = 0") (simp_all add: bit_length.simps)
    have "(2::nat) ^ 1024 \<le> 2 ^ (bit_length n - 1)"
      using 4 by (intro power_increasing) simp_all
    also have "\<dots> \<le> n"
      using bit_length_bounds [OF n] by blast
    finally have big: "2 ^ 1024 \<le> n" .
    then have "round_to_double s n 1 = Infinity s"
      by (rule round_to_double_overflow) simp
    moreover from big gap(2) have "2 ^ 1024 - 2 ^ 970 \<le> n"
      by (rule order_trans [rotated])
    ultimately show ?thesis
      by blast
  qed
qed

lemma float_of_int_overflow_iff:
  "float_of_int i = Inl OverflowError \<longleftrightarrow> 2 ^ 1024 - 2 ^ 970 \<le> \<bar>i\<bar>"
proof -
  have "float_of_int i = Inl OverflowError \<longleftrightarrow>
          (\<exists>t. round_to_double (i < 0) (nat \<bar>i\<bar>) 1 = Infinity t)"
    by (simp add: float_of_int_def split: pyfloat.splits)
  also have "\<dots> \<longleftrightarrow> 2 ^ 1024 - 2 ^ 970 \<le> nat \<bar>i\<bar>"
    by (rule round_to_double_infinite_iff)
  also have "\<dots> \<longleftrightarrow> int (2 ^ 1024 - 2 ^ 970) \<le> \<bar>i\<bar>"
    by (simp only: le_nat_iff abs_ge_zero)
  also have "int (2 ^ 1024 - 2 ^ 970) = 2 ^ 1024 - 2 ^ 970"
    by (subst of_nat_diff) simp_all
  finally show ?thesis .
qed

lemma payment_overflow:
  assumes "dict_get event ''type'' = PStr (ascii ''PAYMENT'')"
    and "map_of event ''payment_id'' = Some (PStr payment_id)"
    and "map_of event ''user_id'' = Some user_id" and "isinstance_int user_id"
    and "map_of event ''amount'' = Some (PInt amount)" and "2 ^ 1024 - 2 ^ 970 \<le> amount"
    and "map_of event ''currency'' = Some (PStr currency)"
    and "py_upper currency \<in> {ascii ''BHD'', ascii ''USD'', ascii ''EUR''}"
  shows "handler (PDict event) ctx = Inl OverflowError"
proof -
  have "(0::int) < 2 ^ 1024 - 2 ^ 970"
    by simp
  from this assms(6) have pos: "0 < amount"
    by (rule less_le_trans)
  with assms(6) have "2 ^ 1024 - 2 ^ 970 \<le> \<bar>amount\<bar>"
    by (simp only: abs_of_pos)
  then have raise: "float_of_int amount = Inl OverflowError"
    by (simp only: float_of_int_overflow_iff)
  from assms pos
  have ok: "payment_checks (PStr payment_id) user_id (PInt amount) (PStr currency) = []"
    by (simp add: payment_checks_Nil bad_amount_def bad_currency_def)
  have "handler (PDict event) ctx = handle_payment event"
    using assms(1) by (rule handler_dispatch_payment)
  also have "\<dots> = Inl OverflowError"
    unfolding payment_present [OF assms(2,3,5,7)]
    by (simp add: ok and_then_def raise)
  finally show ?thesis .
qed

text \<open>
  A payment event that passes the four checks gets, when the cast and the three roundings
  return, the success envelope built from their results.
\<close>

lemma payment_success:
  assumes "dict_get event ''type'' = PStr (ascii ''PAYMENT'')"
    and "map_of event ''payment_id'' = Some (PStr payment_id)"
    and "map_of event ''user_id'' = Some user_id" and "isinstance_int user_id"
    and "map_of event ''amount'' = Some amount" and "\<not> bad_amount amount"
    and "map_of event ''currency'' = Some (PStr currency)"
    and "py_upper currency \<in> {ascii ''BHD'', ascii ''USD'', ascii ''EUR''}"
    and "py_float amount = Inr f"
    and "py_round f 3 = Inr amount'"
    and "py_round (float_mul amount' (float_literal 2 2)) 3 = Inr fee"
    and "py_round (float_sub amount' fee) 3 = Inr net_amount"
  shows "handler (PDict event) ctx =
     Inr \<lparr>status = ''ok'', message = ''Payment processed'',
          data = [(''payment_id'', PStr payment_id),
                  (''user_id'', user_id),
                  (''amount'', PFloat amount'),
                  (''currency'', PStr (py_upper currency)),
                  (''fee'', PFloat fee),
                  (''net_amount'', PFloat net_amount)],
          errors = []\<rparr>"
proof -
  from assms have ok: "payment_checks (PStr payment_id) user_id amount (PStr currency) = []"
    by (simp add: payment_checks_Nil bad_currency_def)
  have "handler (PDict event) ctx = handle_payment event"
    using assms(1) by (rule handler_dispatch_payment)
  also have "\<dots> = Inr \<lparr>status = ''ok'', message = ''Payment processed'',
          data = [(''payment_id'', PStr payment_id),
                  (''user_id'', user_id),
                  (''amount'', PFloat amount'),
                  (''currency'', PStr (py_upper currency)),
                  (''fee'', PFloat fee),
                  (''net_amount'', PFloat net_amount)],
          errors = []\<rparr>"
    unfolding payment_present [OF assms(2,3,5,7)]
    by (simp add: ok and_then_def assms(9-12))
  finally show ?thesis .
qed

text \<open>The amount 100: the floats 100.0, 2.0 and 98.0, step by step.\<close>

lemma float_100: "py_float (PInt 100) = Inr (Finite False 7036874417766400 (- 46))"
  by (simp add: float_defs)

lemma round_100: "py_round (Finite False 7036874417766400 (- 46)) 3 = Inr (Finite False 7036874417766400 (- 46))"
  by (simp add: float_defs)

lemma literal_002: "float_literal 2 2 = Finite False 5764607523034235 (- 58)"
  by (simp add: float_defs)

lemma fee_100:
  "float_mul (Finite False 7036874417766400 (- 46)) (Finite False 5764607523034235 (- 58)) =
     Finite False 4503599627370496 (- 51)"
  by (simp add: float_defs)

lemma round_2: "py_round (Finite False 4503599627370496 (- 51)) 3 = Inr (Finite False 4503599627370496 (- 51))"
  by (simp add: float_defs)

lemma net_100:
  "float_sub (Finite False 7036874417766400 (- 46)) (Finite False 4503599627370496 (- 51)) =
     Finite False 6896136929411072 (- 46)"
  by (simp add: float_defs)

lemma round_98: "py_round (Finite False 6896136929411072 (- 46)) 3 = Inr (Finite False 6896136929411072 (- 46))"
  by (simp add: float_defs)

lemma payment_example:
  "handler (PDict [(''type'', PStr (ascii ''PAYMENT'')), (''payment_id'', PStr (ascii ''p1'')),
                   (''user_id'', PInt 1), (''amount'', PInt 100),
                   (''currency'', PStr (ascii ''usd''))]) ctx =
     Inr \<lparr>status = ''ok'', message = ''Payment processed'',
          data = [(''payment_id'', PStr (ascii ''p1'')),
                  (''user_id'', PInt 1),
                  (''amount'', PFloat (Finite False 7036874417766400 (- 46))),
                  (''currency'', PStr (ascii ''USD'')),
                  (''fee'', PFloat (Finite False 4503599627370496 (- 51))),
                  (''net_amount'', PFloat (Finite False 6896136929411072 (- 46)))],
          errors = []\<rparr> \<and>
   float_value (Finite False 7036874417766400 (- 46)) = Some 100 \<and>
   float_value (Finite False 4503599627370496 (- 51)) = Some 2 \<and>
   float_value (Finite False 6896136929411072 (- 46)) = Some 98"
proof (intro conjI)
  let ?event = "[(''type'', PStr (ascii ''PAYMENT'')), (''payment_id'', PStr (ascii ''p1'')), (''user_id'', PInt 1),
                 (''amount'', PInt 100), (''currency'', PStr (ascii ''usd''))]"
  have up: "py_upper (ascii ''usd'') = ascii ''USD''"
    by (simp add: string_defs)
  have "handler (PDict ?event) ctx =
     Inr \<lparr>status = ''ok'', message = ''Payment processed'',
          data = [(''payment_id'', PStr (ascii ''p1'')),
                  (''user_id'', PInt 1),
                  (''amount'', PFloat (Finite False 7036874417766400 (- 46))),
                  (''currency'', PStr (py_upper (ascii ''usd''))),
                  (''fee'', PFloat (Finite False 4503599627370496 (- 51))),
                  (''net_amount'', PFloat (Finite False 6896136929411072 (- 46)))],
          errors = []\<rparr>"
  proof (rule payment_success)
    show "py_float (PInt 100) = Inr (Finite False 7036874417766400 (- 46))"
      by (rule float_100)
    show "py_round (Finite False 7036874417766400 (- 46)) 3 =
            Inr (Finite False 7036874417766400 (- 46))"
      by (rule round_100)
    show "py_round (float_mul (Finite False 7036874417766400 (- 46)) (float_literal 2 2)) 3 =
            Inr (Finite False 4503599627370496 (- 51))"
      by (simp only: literal_002 fee_100 round_2)
    show "py_round (float_sub (Finite False 7036874417766400 (- 46))
             (Finite False 4503599627370496 (- 51))) 3 =
            Inr (Finite False 6896136929411072 (- 46))"
      by (simp only: net_100 round_98)
  qed (simp_all add: dict_get_def bad_amount_def up)
  then show "handler (PDict ?event) ctx =
     Inr \<lparr>status = ''ok'', message = ''Payment processed'',
          data = [(''payment_id'', PStr (ascii ''p1'')),
                  (''user_id'', PInt 1),
                  (''amount'', PFloat (Finite False 7036874417766400 (- 46))),
                  (''currency'', PStr (ascii ''USD'')),
                  (''fee'', PFloat (Finite False 4503599627370496 (- 51))),
                  (''net_amount'', PFloat (Finite False 6896136929411072 (- 46)))],
          errors = []\<rparr>"
    by (simp only: up)
qed simp_all

section \<open>The floats of a run are doubles\<close>

text \<open>
  Rounding keeps the quotient within half a unit, the exponent that \<open>double_exponent\<close>
  picks brings the significand into 53 bits, and so every float that \<open>round_to_double\<close>
  returns is a double. Hence the product, the difference and the cast return doubles, and
  \<open>round\<close> with a non-negative number of digits returns a double from a double: it raises
  nothing.
\<close>

lemma round_half_even_ge: "n div d \<le> round_half_even n d"
  by (simp add: round_half_even_def Let_def)

lemma round_half_even_lower:
  assumes "0 < d" and "q * d \<le> n"
  shows "q \<le> round_half_even n d"
proof -
  from assms have "q \<le> n div d"
    by (simp add: less_eq_div_iff_mult_less_eq)
  with round_half_even_ge [of n d] show ?thesis
    by (rule order_trans [rotated])
qed

lemma round_half_even_upper:
  assumes "0 < d" and "n \<le> q * d"
  shows "round_half_even n d \<le> q"
proof (cases "n div d < q")
  case True
  with round_half_even_le [OF assms(1), of n] show ?thesis
    by simp
next
  case False
  from assms have "n div d \<le> q"
    by (metis div_le_mono div_mult_self_is_m)
  with False have q: "n div d = q"
    by simp
  then have "q * d \<le> n"
    by (metis div_times_less_eq_dividend)
  with assms(2) have "n = q * d"
    by simp
  with assms(1) show ?thesis
    by (simp add: round_half_even_def)
qed

text \<open>The scaled fraction as a real number.\<close>

lemma scaled_round_lower:
  assumes "0 < d" and "real q \<le> real n / real d / 2 powr real_of_int e"
  shows "q \<le> scaled_round n d e"
proof (cases "0 \<le> e")
  case True
  then have p: "2 powr real_of_int e = real (2 ^ nat e)"
    by (simp add: powr_realpow [symmetric])
  from assms have "real q * (real d * real (2 ^ nat e)) \<le> real n"
    unfolding p by (simp add: field_simps)
  then have "q * (d * 2 ^ nat e) \<le> n"
    by (metis of_nat_le_iff of_nat_mult)
  with assms(1) True show ?thesis
    by (simp add: scaled_round_def round_half_even_lower)
next
  case False
  then have "real (2 ^ nat (- e)) = 2 powr (- real_of_int e)"
    by (simp add: powr_realpow [symmetric])
  then have p: "2 powr real_of_int e = 1 / real (2 ^ nat (- e))"
    by (simp add: powr_minus_divide)
  from assms have "real q * real d \<le> real n * real (2 ^ nat (- e))"
    unfolding p by (simp add: field_simps)
  then have "q * d \<le> n * 2 ^ nat (- e)"
    by (metis of_nat_le_iff of_nat_mult)
  with assms(1) False show ?thesis
    by (simp add: scaled_round_def round_half_even_lower)
qed

lemma scaled_round_upper:
  assumes "0 < d" and "real n / real d / 2 powr real_of_int e \<le> real q"
  shows "scaled_round n d e \<le> q"
proof (cases "0 \<le> e")
  case True
  then have p: "2 powr real_of_int e = real (2 ^ nat e)"
    by (simp add: powr_realpow [symmetric])
  from assms have "real n \<le> real q * (real d * real (2 ^ nat e))"
    unfolding p by (simp add: field_simps)
  then have "n \<le> q * (d * 2 ^ nat e)"
    by (metis of_nat_le_iff of_nat_mult)
  with assms(1) True show ?thesis
    by (simp add: scaled_round_def round_half_even_upper)
next
  case False
  then have "real (2 ^ nat (- e)) = 2 powr (- real_of_int e)"
    by (simp add: powr_realpow [symmetric])
  then have p: "2 powr real_of_int e = 1 / real (2 ^ nat (- e))"
    by (simp add: powr_minus_divide)
  from assms have "real n * real (2 ^ nat (- e)) \<le> real q * real d"
    unfolding p by (simp add: field_simps)
  then have "n * 2 ^ nat (- e) \<le> q * d"
    by (metis of_nat_le_iff of_nat_mult)
  with assms(1) False show ?thesis
    by (simp add: scaled_round_def round_half_even_upper)
qed


lemma bit_length_real:
  assumes "n \<noteq> 0"
  shows "2 powr (real (bit_length n) - 1) \<le> real n" and "real n < 2 powr real (bit_length n)"
proof -
  from assms have pos: "bit_length n \<noteq> 0"
    by (subst bit_length.simps) simp
  from pos have "2 powr (real (bit_length n) - 1) = 2 powr real (bit_length n - 1)"
    by (simp add: of_nat_diff)
  also have "\<dots> = real (2 ^ (bit_length n - 1))"
    by (simp add: powr_realpow)
  also have "\<dots> \<le> real n"
    using bit_length_bounds [OF assms] by (simp only: of_nat_le_iff)
  finally show "2 powr (real (bit_length n) - 1) \<le> real n" .
  have "real n < real (2 ^ bit_length n)"
    using bit_length_bounds [OF assms] by (simp only: of_nat_less_iff)
  then show "real n < 2 powr real (bit_length n)"
    by (simp add: powr_realpow)
qed

lemma double_exponent_floor:
  assumes "n \<noteq> 0" and "d \<noteq> 0"
  obtains fl where "double_exponent n d = max (fl - 52) (- 1074)"
    and "2 powr real_of_int fl \<le> real n / real d"
    and "real n / real d < 2 powr real_of_int (fl + 1)"
proof -
  define a where "a = bit_length n"
  define b where "b = bit_length d"
  define k where "k = int a - int b"
  define c where "c \<longleftrightarrow> (if 0 \<le> k then d * 2 ^ nat k \<le> n else d \<le> n * 2 ^ nat (- k))"
  have n: "2 powr (real a - 1) \<le> real n" "real n < 2 powr real a"
    unfolding a_def using bit_length_real [OF assms(1)] by simp_all
  have d: "2 powr (real b - 1) \<le> real d" "real d < 2 powr real b"
    unfolding b_def using bit_length_real [OF assms(2)] by simp_all
  from assms have pos: "0 < real n" "0 < real d"
    by simp_all
  have k: "real_of_int k = real a - real b"
    by (simp add: k_def)
  have c: "c \<longleftrightarrow> 2 powr real_of_int k \<le> real n / real d"
  proof (cases "0 \<le> k")
    case True
    then have p: "2 powr real_of_int k = real (2 ^ nat k)"
      by (simp add: powr_realpow [symmetric])
    have "c \<longleftrightarrow> real (d * 2 ^ nat k) \<le> real n"
      using True by (simp only: c_def of_nat_le_iff if_True)
    also have "\<dots> \<longleftrightarrow> 2 powr real_of_int k \<le> real n / real d"
      unfolding p using pos by (simp add: field_simps)
    finally show ?thesis .
  next
    case False
    then have "real (2 ^ nat (- k)) = 2 powr (- real_of_int k)"
      by (simp add: powr_realpow [symmetric])
    then have p: "2 powr real_of_int k = 1 / real (2 ^ nat (- k))"
      by (simp add: powr_minus_divide)
    have "c \<longleftrightarrow> real d \<le> real (n * 2 ^ nat (- k))"
      using False by (simp only: c_def of_nat_le_iff if_False)
    also have "\<dots> \<longleftrightarrow> 2 powr real_of_int k \<le> real n / real d"
      unfolding p using pos by (simp add: field_simps)
    finally show ?thesis .
  qed
  have e: "double_exponent n d = max ((if c then k else k - 1) - 52) (- 1074)"
    by (simp add: double_exponent_def Let_def a_def b_def k_def c_def)
  show thesis
  proof (cases c)
    case True
    have "real n / real d < 2 powr real a / 2 powr (real b - 1)"
      using n(2) d(1) pos by (intro frac_less) simp_all
    also have "\<dots> = 2 powr (real a - (real b - 1))"
      by (simp only: powr_diff)
    also have "real a - (real b - 1) = real_of_int (k + 1)"
      by (simp add: k)
    finally have "real n / real d < 2 powr real_of_int (k + 1)" .
    moreover from True c have "2 powr real_of_int k \<le> real n / real d"
      by simp
    moreover from True e have "double_exponent n d = max (k - 52) (- 1074)"
      by simp
    ultimately show ?thesis
      using that by blast
  next
    case False
    have "2 powr (real a - 1) / 2 powr real b \<le> real n / real d"
      using n(1) d(2) pos by (intro frac_le) simp_all
    moreover have "2 powr (real a - 1) / 2 powr real b = 2 powr (real a - 1 - real b)"
      by (simp only: powr_diff)
    moreover have "real a - 1 - real b = real_of_int (k - 1)"
      by (simp add: k)
    ultimately have "2 powr real_of_int (k - 1) \<le> real n / real d"
      by simp
    moreover from False c have "real n / real d < 2 powr real_of_int (k - 1 + 1)"
      by simp
    moreover from False e have "double_exponent n d = max (k - 1 - 52) (- 1074)"
      by simp
    ultimately show ?thesis
      using that by blast
  qed
qed


lemma divide_less_by:
  fixes x p c :: real
  assumes "0 < p" and "x < p * c"
  shows "x / p < c"
  using assms by (simp add: pos_divide_less_eq mult.commute)

lemma le_divide_by:
  fixes x p c :: real
  assumes "0 < p" and "c * p \<le> x"
  shows "c \<le> x / p"
  using assms by (simp add: pos_le_divide_eq)

lemma scaled_round_at_most:
  assumes "d \<noteq> 0" and "real n / real d < 2 powr real_of_int (fl + 1)" and "fl - 52 \<le> e"
  shows "scaled_round n d e \<le> 2 ^ 53"
proof (rule scaled_round_upper)
  from assms(3) have "2 powr real_of_int (fl + 1) \<le> 2 powr (real_of_int e + 53)"
    by (intro powr_mono) simp_all
  also have "\<dots> = 2 powr real_of_int e * 2 powr 53"
    by (simp only: powr_add)
  finally have lt: "real n / real d < 2 powr real_of_int e * 2 powr 53"
    using assms(2) by simp
  have "real n / real d / 2 powr real_of_int e < 2 powr 53"
    by (rule divide_less_by [OF _ lt]) simp
  then show "real n / real d / 2 powr real_of_int e \<le> real (2 ^ 53)"
    by simp
qed (use assms in simp)

lemma scaled_round_at_least:
  assumes "d \<noteq> 0" and "2 powr real_of_int fl \<le> real n / real d"
  shows "2 ^ 52 \<le> scaled_round n d (fl - 52)"
proof (rule scaled_round_lower)
  have "2 powr real_of_int (fl - 52) * 2 powr 52 = 2 powr (real_of_int (fl - 52) + 52)"
    by (simp only: powr_add)
  also have "\<dots> = 2 powr real_of_int fl"
    by simp
  finally have le: "2 powr 52 * 2 powr real_of_int (fl - 52) \<le> real n / real d"
    using assms(2) by (simp only: mult.commute)
  have "2 powr 52 \<le> real n / real d / 2 powr real_of_int (fl - 52)"
    by (rule le_divide_by [OF _ le]) simp
  then show "real (2 ^ 52) \<le> real n / real d / 2 powr real_of_int (fl - 52)"
    by simp
qed (use assms in simp)

lemma round_to_double_is_double:
  assumes "d \<noteq> 0"
  shows "is_double (round_to_double s n d)"
proof (cases "n = 0")
  case True
  then show ?thesis
    by (simp add: round_to_double_def)
next
  case False
  from False assms obtain fl where e: "double_exponent n d = max (fl - 52) (- 1074)"
    and lo: "2 powr real_of_int fl \<le> real n / real d"
    and up: "real n / real d < 2 powr real_of_int (fl + 1)"
    by (rule double_exponent_floor)
  define m where "m = scaled_round n d (double_exponent n d)"
  have top: "m \<le> 2 ^ 53"
    unfolding m_def using assms up by (rule scaled_round_at_most) (simp add: e)
  have bot: "2 ^ 52 \<le> m" if "double_exponent n d \<noteq> - 1074"
  proof -
    from that e have "double_exponent n d = fl - 52"
      by simp
    then show ?thesis
      unfolding m_def using scaled_round_at_least [OF assms lo] by simp
  qed
  have low: "- 1074 \<le> double_exponent n d"
    by (simp add: e)
  show ?thesis
  proof (cases "m = 2 ^ 53")
    case True
    with False low show ?thesis
      by (simp add: round_to_double_def Let_def m_def [symmetric])
  next
    case neq: False
    with top have "m < 2 ^ 53"
      by simp
    with False low bot neq show ?thesis
      by (auto simp add: round_to_double_def Let_def m_def [symmetric])
  qed
qed

lemma round_to_double_finite:
  assumes "d \<noteq> 0" and "n \<le> (2 ^ 53 - 1) * 2 ^ 971 * d"
  shows "round_to_double s n d \<noteq> Infinity t"
proof (cases "n = 0")
  case True
  then show ?thesis
    by (simp add: round_to_double_def)
next
  case False
  from False assms(1) obtain fl where e: "double_exponent n d = max (fl - 52) (- 1074)"
    and lo: "2 powr real_of_int fl \<le> real n / real d"
    by (rule double_exponent_floor)
  from assms(2) have "real n \<le> real ((2 ^ 53 - 1) * 2 ^ 971 * d)"
    by (simp only: of_nat_le_iff)
  then have "real n \<le> real (2 ^ 53 - 1) * 2 powr 971 * real d"
    by simp
  with assms(1) have v: "real n / real d \<le> real (2 ^ 53 - 1) * 2 powr 971"
    by (simp add: pos_divide_le_eq)
  have "real (2 ^ 53 - 1) * 2 powr 971 < 2 powr 53 * 2 powr 971"
    by (intro mult_strict_right_mono) simp_all
  also have "\<dots> = 2 powr 1024"
    by (simp only: powr_add [symmetric]) simp
  finally have "2 powr real_of_int fl < 2 powr 1024"
    using lo v by linarith
  then have "real_of_int fl < 1024"
    by (rule powr_less_cancel) simp
  then have "fl < 1024"
    by simp
  with e have small: "double_exponent n d \<le> 971"
    by simp
  show ?thesis
  proof (cases "double_exponent n d = 971")
    case True
    have "real n / real d / 2 powr real_of_int 971 \<le> real (2 ^ 53 - 1)"
      using v by (simp add: pos_divide_le_eq)
    with assms(1) have "scaled_round n d 971 \<le> 2 ^ 53 - 1"
      by (intro scaled_round_upper) simp_all
    then have "scaled_round n d 971 \<noteq> 2 ^ 53"
      by simp
    with False True show ?thesis
      by (simp add: round_to_double_def Let_def)
  next
    case neq: False
    with small have "double_exponent n d < 971"
      by simp
    with False show ?thesis
      by (simp add: round_to_double_def Let_def)
  qed
qed

lemma float_mul_is_double: "is_double (float_mul x y)"
  by (cases x; cases y) (simp_all add: Let_def round_to_double_is_double)

lemma float_sub_is_double: "is_double (float_sub x y)"
  by (cases x; cases y) (simp_all add: Let_def round_to_double_is_double)

lemma float_of_int_is_double:
  assumes "float_of_int i = Inr f"
  shows "is_double f"
proof -
  from assms have "f = round_to_double (i < 0) (nat \<bar>i\<bar>) 1"
    by (simp add: float_of_int_def split: pyfloat.splits)
  then show ?thesis
    by (simp only: round_to_double_is_double [of 1] one_neq_zero not_False_eq_True)
qed

lemma float_literal_is_double: "is_double (float_literal n k)"
  by (simp add: float_literal_def round_to_double_is_double)

lemma round_half_even_Suc_0: "round_half_even n (Suc 0) = n"
  by (simp add: round_half_even_def)

lemma scaled_round_one_bound:
  assumes "m \<le> M" and "e \<le> 971" and "1 \<le> M" and "1 \<le> T"
  shows "scaled_round (m * T) 1 (- e) \<le> M * 2 ^ 971 * T"
proof (cases "0 \<le> e")
  case True
  then have "scaled_round (m * T) 1 (- e) = m * T * 2 ^ nat e"
    by (cases "e = 0") (simp_all add: scaled_round_def round_half_even_Suc_0)
  also have "\<dots> = m * 2 ^ nat e * T"
    by (simp only: mult_ac)
  also have "\<dots> \<le> M * 2 ^ 971 * T"
  proof (intro mult_le_mono order_refl assms(1))
    from assms(2) True have "nat e \<le> 971"
      by simp
    then show "(2::nat) ^ nat e \<le> 2 ^ 971"
      by (intro power_increasing) simp_all
  qed
  finally show ?thesis .
next
  case False
  then have "scaled_round (m * T) 1 (- e) = round_half_even (m * T) (2 ^ nat (- e))"
    by (simp add: scaled_round_def)
  also have "\<dots> \<le> Suc (m * T div 2 ^ nat (- e))"
    by (rule round_half_even_le) simp
  also have "\<dots> \<le> Suc (m * T)"
    by simp
  also have "\<dots> \<le> Suc (M * T)"
    using assms(1) by simp
  also have "\<dots> \<le> M * T * 2"
    using assms(3,4) by (cases M; cases T) simp_all
  also have "\<dots> \<le> M * T * 2 ^ 971"
    by (intro mult_le_mono order_refl) simp
  also have "\<dots> = M * 2 ^ 971 * T"
    by (simp only: mult_ac)
  finally show ?thesis .
qed

lemma py_round_double:
  assumes "is_double f"
  obtains g where "py_round f ndigits = Inr g" and "is_double g"
proof (cases f)
  case (Finite s m e)
  define k where "k = scaled_round (m * 10 ^ ndigits) 1 (- e)"
  define g where "g = round_to_double s k (10 ^ ndigits)"
  from assms Finite have "m \<le> 2 ^ 53 - 1" and "e \<le> 971"
    by simp_all
  then have "k \<le> (2 ^ 53 - 1) * 2 ^ 971 * 10 ^ ndigits"
    unfolding k_def by (rule scaled_round_one_bound) simp_all
  then have fin: "g \<noteq> Infinity t" for t
    unfolding g_def by (intro round_to_double_finite) simp_all
  have "py_round f ndigits = Inr g"
    unfolding Finite py_round.simps Let_def k_def [symmetric] g_def [symmetric]
    using fin [of True] fin [of False] by (cases g) auto
  moreover have "is_double g"
    unfolding g_def by (rule round_to_double_is_double) simp
  ultimately show ?thesis
    by (rule that)
next
  case (Infinity s)
  then show ?thesis
    using that by simp
next
  case NaN
  then show ?thesis
    using that by simp
qed

text \<open>
  So the payment validator raises on no event but those with an integer amount of
  \<open>2^1024 - 2^970\<close> or more, and \<open>handler\<close> returns an envelope for every other event
  (its floats being doubles).
\<close>

lemma float_of_int_returns:
  assumes "\<bar>i\<bar> < 2 ^ 1024 - 2 ^ 970"
  obtains f where "float_of_int i = Inr f" and "is_double f"
proof (cases "float_of_int i")
  case (Inl e)
  then have "float_of_int i = Inl OverflowError"
    using float_of_int_raises [of i e] by simp
  with assms show ?thesis
    by (simp only: float_of_int_overflow_iff)
next
  case (Inr f)
  then have "is_double f"
    by (rule float_of_int_is_double)
  with Inr show ?thesis
    by (rule that)
qed

lemma py_float_returns:
  assumes "\<not> bad_amount amount"
    and "\<And>i. amount = PInt i \<Longrightarrow> i < 2 ^ 1024 - 2 ^ 970"
    and "\<And>f. amount = PFloat f \<Longrightarrow> is_double f"
  obtains f where "py_float amount = Inr f" and "is_double f"
proof (cases amount)
  case (PInt i)
  with assms(1) have "0 < i"
    by (simp add: bad_amount_def)
  with assms(2) [OF PInt] have "\<bar>i\<bar> < 2 ^ 1024 - 2 ^ 970"
    by simp
  then obtain f where "float_of_int i = Inr f" and "is_double f"
    by (rule float_of_int_returns)
  with PInt show ?thesis
    by (intro that [of f]) simp_all
next
  case (PBool b)
  have "\<bar>1::int\<bar> < 2 ^ 1024 - 2 ^ 970"
    by simp
  then obtain f where "float_of_int 1 = Inr f" and "is_double f"
    by (rule float_of_int_returns)
  with PBool assms(1) show ?thesis
    by (intro that [of f]) (simp_all add: bad_amount_def split: if_splits)
next
  case (PFloat f)
  with assms(3) show ?thesis
    by (intro that [of f]) simp_all
qed (use assms(1) in \<open>simp_all add: bad_amount_def\<close>)

lemma payment_roundings_return:
  assumes "is_double f"
  obtains amount' fee net_amount where "py_round f 3 = Inr amount'"
    and "py_round (float_mul amount' (float_literal 2 2)) 3 = Inr fee"
    and "py_round (float_sub amount' fee) 3 = Inr net_amount"
proof -
  obtain amount' where a: "py_round f 3 = Inr amount'"
    using assms by (rule py_round_double)
  obtain fee where f: "py_round (float_mul amount' (float_literal 2 2)) 3 = Inr fee"
    using float_mul_is_double by (rule py_round_double)
  obtain net_amount where n: "py_round (float_sub amount' fee) 3 = Inr net_amount"
    using float_sub_is_double by (rule py_round_double)
  from a f n show ?thesis
    by (rule that)
qed

lemma payment_returns:
  assumes "\<And>i. map_of event ''amount'' = Some (PInt i) \<Longrightarrow> i < 2 ^ 1024 - 2 ^ 970"
    and "\<And>f. map_of event ''amount'' = Some (PFloat f) \<Longrightarrow> is_double f"
  shows "handle_payment event \<noteq> Inl e"
proof (cases "check_required event [''payment_id'', ''user_id'', ''amount'', ''currency''] [] = []")
  case False
  show ?thesis
    unfolding payment_missing [OF False] by simp
next
  case True
  obtain payment_id where q: "map_of event ''payment_id'' = Some payment_id"
    by (rule all_present [OF True, of "''payment_id''"]) simp
  obtain user_id where u: "map_of event ''user_id'' = Some user_id"
    by (rule all_present [OF True, of "''user_id''"]) simp
  obtain amount where a: "map_of event ''amount'' = Some amount"
    by (rule all_present [OF True, of "''amount''"]) simp
  obtain currency where c: "map_of event ''currency'' = Some currency"
    by (rule all_present [OF True, of "''currency''"]) simp
  show ?thesis
  proof (cases "payment_checks payment_id user_id amount currency = []")
    case False
    then show ?thesis
      by (simp add: payment_present [OF q u a c])
  next
    case True
    then have amt: "\<not> bad_amount amount"
      by (simp add: payment_checks_Nil)
    from True obtain s where cur: "currency = PStr s"
      using not_bad_currency [of currency] by (auto simp only: payment_checks_Nil)
    obtain f where f: "py_float amount = Inr f" and "is_double f"
      using amt assms a by (elim py_float_returns [of amount]) simp_all
    then obtain amount' fee net_amount where r: "py_round f 3 = Inr amount'"
      "py_round (float_mul amount' (float_literal 2 2)) 3 = Inr fee"
      "py_round (float_sub amount' fee) 3 = Inr net_amount"
      by (elim payment_roundings_return)
    show ?thesis
      unfolding payment_present [OF q u a c]
      by (simp add: True cur and_then_def f r)
  qed
qed

lemma handler_returns_envelope:
  assumes "\<And>d i. event = PDict d \<Longrightarrow> map_of d ''amount'' = Some (PInt i) \<Longrightarrow>
             i < 2 ^ 1024 - 2 ^ 970"
    and "\<And>d f. event = PDict d \<Longrightarrow> map_of d ''amount'' = Some (PFloat f) \<Longrightarrow> is_double f"
  obtains r where "handler event ctx = Inr r" and "envelope_invariant r"
proof (cases "handler event ctx")
  case (Inl e)
  then obtain d where d: "event = PDict d" and "dict_get d ''type'' = PStr (ascii ''PAYMENT'')"
    using handler_raises_only_overflow [of event ctx e] by blast
  with Inl have "handle_payment d = Inl e"
    by (simp only: handler_dispatch_payment)
  moreover have "handle_payment d \<noteq> Inl e"
    using assms(1) [OF d] assms(2) [OF d] by (rule payment_returns)
  ultimately show ?thesis
    by contradiction
next
  case (Inr r)
  then have "envelope_invariant r"
    by (rule returned_envelope_invariant)
  with Inr show ?thesis
    by (rule that)
qed

section \<open>Text beyond ASCII\<close>

text \<open>
  The string functions on text with code points above ASCII: \<open>str.lower\<close> with a letter
  of Latin-1, the dotted capital I and the final sigma, \<open>str.upper\<close> with the long s and
  the sharp s, and the no-break space, which \<open>str.strip\<close> removes and \<open>\s\<close> matches. So
  an uploader address with a no-break space is rejected, and the currency \<open>u\<close>, long s, \<open>d\<close>
  is accepted as \<open>USD\<close>.
\<close>

lemma lower_beyond_ascii:
  "py_lower (0xC9 # ascii ''@B.co'') = 0xE9 # ascii ''@b.co'' \<and>
   py_lower [0x130] = [0x69, 0x307] \<and>
   py_lower [0x39F, 0x394, 0x39F, 0x3A3] = [0x3BF, 0x3B4, 0x3BF, 0x3C2] \<and>
   py_lower [0x3A3, 0x39F] = [0x3C3, 0x3BF]"
  by (simp add: string_defs unicode_defs)

lemma upper_beyond_ascii:
  "py_upper [0x75, 0x17F, 0x64] = ascii ''USD'' \<and>
   py_upper [0xDF] = ascii ''SS'' \<and>
   py_upper [0xE9, 0xFF] = [0xC9, 0x178]"
  by (simp add: string_defs unicode_defs)

lemma space_beyond_ascii:
  "py_strip (0xA0 # ascii '' a b '' @ [0x85, 0x3000]) = ascii ''a b'' \<and>
   \<not> is_valid_email (0x61 # 0xA0 # ascii ''@b.co'') \<and>
   is_valid_email (0xC9 # ascii ''@b.co'')"
  by (simp add: string_defs)

lemma upload_nbsp_uploader:
  "handler (PDict [(''type'', PStr (ascii ''FILE_UPLOAD'')), (''file_name'', PStr (ascii ''f'')),
                   (''size_bytes'', PInt 1), (''bucket'', PStr (ascii ''b'')),
                   (''uploader'', PStr (0x61 # 0xA0 # ascii ''@b.co''))]) ctx =
     Inr (error_response [''Invalid uploader email''])"
  by (simp add: run_defs check_defs string_defs)

lemma payment_long_s_currency:
  "handler (PDict [(''type'', PStr (ascii ''PAYMENT'')), (''payment_id'', PStr (ascii ''p1'')),
                   (''user_id'', PInt 1), (''amount'', PInt 100),
                   (''currency'', PStr [0x75, 0x17F, 0x64])]) ctx =
     Inr \<lparr>status = ''ok'', message = ''Payment processed'',
          data = [(''payment_id'', PStr (ascii ''p1'')),
                  (''user_id'', PInt 1),
                  (''amount'', PFloat (Finite False 7036874417766400 (- 46))),
                  (''currency'', PStr (ascii ''USD'')),
                  (''fee'', PFloat (Finite False 4503599627370496 (- 51))),
                  (''net_amount'', PFloat (Finite False 6896136929411072 (- 46)))],
          errors = []\<rparr>"
proof -
  have up: "py_upper [0x75, 0x17F, 0x64] = ascii ''USD''"
    by (simp add: string_defs unicode_defs)
  have "handler (PDict [(''type'', PStr (ascii ''PAYMENT'')), (''payment_id'', PStr (ascii ''p1'')),
                   (''user_id'', PInt 1), (''amount'', PInt 100),
                   (''currency'', PStr [0x75, 0x17F, 0x64])]) ctx =
     Inr \<lparr>status = ''ok'', message = ''Payment processed'',
          data = [(''payment_id'', PStr (ascii ''p1'')),
                  (''user_id'', PInt 1),
                  (''amount'', PFloat (Finite False 7036874417766400 (- 46))),
                  (''currency'', PStr (py_upper [0x75, 0x17F, 0x64])),
                  (''fee'', PFloat (Finite False 4503599627370496 (- 51))),
                  (''net_amount'', PFloat (Finite False 6896136929411072 (- 46)))],
          errors = []\<rparr>"
  proof (rule payment_success)
    show "py_float (PInt 100) = Inr (Finite False 7036874417766400 (- 46))"
      by (rule float_100)
    show "py_round (Finite False 7036874417766400 (- 46)) 3 =
            Inr (Finite False 7036874417766400 (- 46))"
      by (rule round_100)
    show "py_round (float_mul (Finite False 7036874417766400 (- 46)) (float_literal 2 2)) 3 =
            Inr (Finite False 4503599627370496 (- 51))"
      by (simp only: literal_002 fee_100 round_2)
    show "py_round (float_sub (Finite False 7036874417766400 (- 46))
             (Finite False 4503599627370496 (- 51))) 3 =
            Inr (Finite False 6896136929411072 (- 46))"
      by (simp only: net_100 round_98)
  qed (simp_all add: dict_get_def bad_amount_def up)
  then show ?thesis
    by (simp only: up)
qed

section \<open>The claims\<close>

text \<open>
  Claim C1, which says that a boolean in a field that requires an integer is rejected as
  not an integer. The handler does the opposite, since \<open>isinstance(True, int)\<close> holds: the
  signup event with \<open>user_id: True\<close> and a valid email and plan is accepted, and no error
  names \<open>user_id\<close>.
\<close>

theorem bool_rejected_counterexample:
  "handler (PDict [(''type'', PStr (ascii ''USER_SIGNUP'')), (''user_id'', PBool True),
                   (''email'', PStr (ascii ''a@b.co'')), (''plan'', PStr (ascii ''free''))]) () =
     Inr \<lparr>status = ''ok'', message = ''Signup processed'',
          data = [(''user_id'', PBool True),
                  (''email'', PStr (ascii ''a@b.co'')),
                  (''plan'', PStr (ascii ''free'')),
                  (''welcome_email_subject'', PStr (ascii ''Welcome to the free plan!''))],
          errors = []\<rparr> \<and>
   ''user_id must be int'' \<notin> set (errors_of (handler (PDict
      [(''type'', PStr (ascii ''USER_SIGNUP'')), (''user_id'', PBool True),
       (''email'', PStr (ascii ''a@b.co'')), (''plan'', PStr (ascii ''free''))]) ()))"
  by (simp add: run_defs check_defs string_defs errors_of_def)

text \<open>
  Claim C1 as amended. A boolean counts as the integer it is in Python, \<open>True\<close> as 1 and
  \<open>False\<close> as 0. A boolean \<open>user_id\<close> never yields \<open>user_id must be int\<close> and a boolean
  \<open>size_bytes\<close> never yields \<open>size_bytes must be >= 0\<close>; with all fields of a payment
  present, a boolean \<open>amount\<close> yields \<open>amount must be positive number\<close> exactly when it
  is \<open>False\<close>. With all required fields present, \<open>user_id must be int\<close> is reported exactly
  for the values that are neither an \<open>int\<close> nor a \<open>bool\<close>, and \<open>size_bytes must be >= 0\<close>
  exactly for the values that are neither a \<open>bool\<close> nor a non-negative \<open>int\<close>.
\<close>

theorem bool_counts_as_int:
  "(map_of event ''user_id'' = Some (PBool b) \<longrightarrow>
      ''user_id must be int'' \<notin> set (errors_of (handler (PDict event) ctx))) \<and>
   (map_of event ''size_bytes'' = Some (PBool b) \<longrightarrow>
      ''size_bytes must be >= 0'' \<notin> set (errors_of (handler (PDict event) ctx))) \<and>
   (dict_get event ''type'' = PStr (ascii ''PAYMENT'') \<and>
    map_of event ''payment_id'' = Some payment_id \<and> map_of event ''user_id'' = Some user_id \<and>
    map_of event ''amount'' = Some (PBool b) \<and> map_of event ''currency'' = Some currency \<longrightarrow>
      (''amount must be positive number'' \<in> set (errors_of (handler (PDict event) ctx))
         \<longleftrightarrow> \<not> b)) \<and>
   (dict_get event ''type'' = PStr (ascii ''USER_SIGNUP'') \<and>
    map_of event ''user_id'' = Some user_id \<and> map_of event ''email'' = Some email \<and>
    map_of event ''plan'' = Some plan \<longrightarrow>
      (''user_id must be int'' \<in> set (errors_of (handler (PDict event) ctx))
         \<longleftrightarrow> (\<forall>i. user_id \<noteq> PInt i) \<and> (\<forall>t. user_id \<noteq> PBool t))) \<and>
   (dict_get event ''type'' = PStr (ascii ''PAYMENT'') \<and>
    map_of event ''payment_id'' = Some payment_id \<and> map_of event ''user_id'' = Some user_id \<and>
    map_of event ''amount'' = Some amount \<and> map_of event ''currency'' = Some currency \<longrightarrow>
      (''user_id must be int'' \<in> set (errors_of (handler (PDict event) ctx))
         \<longleftrightarrow> (\<forall>i. user_id \<noteq> PInt i) \<and> (\<forall>t. user_id \<noteq> PBool t))) \<and>
   (dict_get event ''type'' = PStr (ascii ''FILE_UPLOAD'') \<and>
    map_of event ''file_name'' = Some file_name \<and> map_of event ''size_bytes'' = Some size_bytes \<and>
    map_of event ''bucket'' = Some bucket \<and> map_of event ''uploader'' = Some uploader \<longrightarrow>
      (''size_bytes must be >= 0'' \<in> set (errors_of (handler (PDict event) ctx))
         \<longleftrightarrow> (\<forall>i. size_bytes = PInt i \<longrightarrow> i < 0) \<and> (\<forall>t. size_bytes \<noteq> PBool t)))"
proof (intro conjI impI)
  assume "map_of event ''user_id'' = Some (PBool b)"
  then show "''user_id must be int'' \<notin> set (errors_of (handler (PDict event) ctx))"
    by (rule bool_user_id_accepted)
next
  assume "map_of event ''size_bytes'' = Some (PBool b)"
  then show "''size_bytes must be >= 0'' \<notin> set (errors_of (handler (PDict event) ctx))"
    by (rule bool_size_accepted)
next
  assume "dict_get event ''type'' = PStr (ascii ''PAYMENT'') \<and>
    map_of event ''payment_id'' = Some payment_id \<and> map_of event ''user_id'' = Some user_id \<and>
    map_of event ''amount'' = Some (PBool b) \<and> map_of event ''currency'' = Some currency"
  then have run: "errors_of (handler (PDict event) ctx) =
      payment_checks payment_id user_id (PBool b) currency"
    by (simp only: handler_errors_payment)
  show "''amount must be positive number'' \<in> set (errors_of (handler (PDict event) ctx))
         \<longleftrightarrow> \<not> b"
    unfolding run by (simp add: payment_checks_def bad_amount_def)
next
  assume "dict_get event ''type'' = PStr (ascii ''USER_SIGNUP'') \<and>
    map_of event ''user_id'' = Some user_id \<and> map_of event ''email'' = Some email \<and>
    map_of event ''plan'' = Some plan"
  then have run: "errors_of (handler (PDict event) ctx) = signup_checks user_id email plan"
    by (simp only: handler_errors_signup)
  show "''user_id must be int'' \<in> set (errors_of (handler (PDict event) ctx))
         \<longleftrightarrow> (\<forall>i. user_id \<noteq> PInt i) \<and> (\<forall>t. user_id \<noteq> PBool t)"
    unfolding run by (cases user_id) (simp_all add: signup_checks_def)
next
  assume "dict_get event ''type'' = PStr (ascii ''PAYMENT'') \<and>
    map_of event ''payment_id'' = Some payment_id \<and> map_of event ''user_id'' = Some user_id \<and>
    map_of event ''amount'' = Some amount \<and> map_of event ''currency'' = Some currency"
  then have run: "errors_of (handler (PDict event) ctx) =
      payment_checks payment_id user_id amount currency"
    by (simp only: handler_errors_payment)
  show "''user_id must be int'' \<in> set (errors_of (handler (PDict event) ctx))
         \<longleftrightarrow> (\<forall>i. user_id \<noteq> PInt i) \<and> (\<forall>t. user_id \<noteq> PBool t)"
    unfolding run by (cases user_id) (simp_all add: payment_checks_def)
next
  assume "dict_get event ''type'' = PStr (ascii ''FILE_UPLOAD'') \<and>
    map_of event ''file_name'' = Some file_name \<and> map_of event ''size_bytes'' = Some size_bytes \<and>
    map_of event ''bucket'' = Some bucket \<and> map_of event ''uploader'' = Some uploader"
  then have run: "errors_of (handler (PDict event) ctx) =
      upload_checks file_name size_bytes bucket uploader"
    by (simp only: handler_errors_upload)
  show "''size_bytes must be >= 0'' \<in> set (errors_of (handler (PDict event) ctx))
         \<longleftrightarrow> (\<forall>i. size_bytes = PInt i \<longrightarrow> i < 0) \<and> (\<forall>t. size_bytes \<noteq> PBool t)"
    unfolding run by (cases size_bytes) (auto simp add: upload_checks_def bad_size_def)
qed

theorem bool_counts_as_int_witness:
  "''user_id must be int'' \<notin> set (errors_of (handler (PDict
      [(''type'', PStr (ascii ''PAYMENT'')), (''payment_id'', PStr (ascii ''p1'')), (''user_id'', PBool False),
       (''amount'', PBool False), (''currency'', PStr (ascii ''USD''))]) ())) \<and>
   ''amount must be positive number'' \<in> set (errors_of (handler (PDict
      [(''type'', PStr (ascii ''PAYMENT'')), (''payment_id'', PStr (ascii ''p1'')), (''user_id'', PBool False),
       (''amount'', PBool False), (''currency'', PStr (ascii ''USD''))]) ())) \<and>
   ''user_id must be int'' \<in> set (errors_of (handler (PDict
      [(''type'', PStr (ascii ''USER_SIGNUP'')), (''user_id'', PStr (ascii ''7'')), (''email'', PStr (ascii ''a@b.co'')),
       (''plan'', PStr (ascii ''pro''))]) ())) \<and>
   ''size_bytes must be >= 0'' \<notin> set (errors_of (handler (PDict
      [(''type'', PStr (ascii ''FILE_UPLOAD'')), (''file_name'', PStr (ascii ''a.txt'')),
       (''size_bytes'', PBool True), (''bucket'', PStr (ascii ''b'')),
       (''uploader'', PStr (ascii ''a@b.co''))]) ())) \<and>
   ''size_bytes must be >= 0'' \<in> set (errors_of (handler (PDict
      [(''type'', PStr (ascii ''FILE_UPLOAD'')), (''file_name'', PStr (ascii ''a.txt'')),
       (''size_bytes'', PFloat (Finite False 4503599627370496 (- 52))), (''bucket'', PStr (ascii ''b'')),
       (''uploader'', PStr (ascii ''a@b.co''))]) ()))"
proof -
  let ?payment = "[(''type'', PStr (ascii ''PAYMENT'')), (''payment_id'', PStr (ascii ''p1'')),
                   (''user_id'', PBool False), (''amount'', PBool False),
                   (''currency'', PStr (ascii ''USD''))]"
  let ?signup = "[(''type'', PStr (ascii ''USER_SIGNUP'')), (''user_id'', PStr (ascii ''7'')),
                  (''email'', PStr (ascii ''a@b.co'')), (''plan'', PStr (ascii ''pro''))]"
  let ?upload = "[(''type'', PStr (ascii ''FILE_UPLOAD'')), (''file_name'', PStr (ascii ''a.txt'')),
                  (''size_bytes'', PBool True), (''bucket'', PStr (ascii ''b'')),
                  (''uploader'', PStr (ascii ''a@b.co''))]"
  let ?upload' = "[(''type'', PStr (ascii ''FILE_UPLOAD'')), (''file_name'', PStr (ascii ''a.txt'')),
                   (''size_bytes'', PFloat (Finite False 4503599627370496 (- 52))), (''bucket'', PStr (ascii ''b'')),
                   (''uploader'', PStr (ascii ''a@b.co''))]"
  have p: "map_of ?payment ''user_id'' = Some (PBool False)"
    "dict_get ?payment ''type'' = PStr (ascii ''PAYMENT'') \<and>
     map_of ?payment ''payment_id'' = Some (PStr (ascii ''p1'')) \<and>
     map_of ?payment ''user_id'' = Some (PBool False) \<and>
     map_of ?payment ''amount'' = Some (PBool False) \<and>
     map_of ?payment ''currency'' = Some (PStr (ascii ''USD''))"
    by (simp_all add: dict_get_def)
  have s: "dict_get ?signup ''type'' = PStr (ascii ''USER_SIGNUP'') \<and>
     map_of ?signup ''user_id'' = Some (PStr (ascii ''7'')) \<and>
     map_of ?signup ''email'' = Some (PStr (ascii ''a@b.co'')) \<and>
     map_of ?signup ''plan'' = Some (PStr (ascii ''pro''))"
    "(\<forall>i. PStr (ascii ''7'') \<noteq> PInt i) \<and> (\<forall>t. PStr (ascii ''7'') \<noteq> PBool t)"
    by (simp_all add: dict_get_def)
  have u: "map_of ?upload ''size_bytes'' = Some (PBool True)"
    by simp
  have u': "dict_get ?upload' ''type'' = PStr (ascii ''FILE_UPLOAD'') \<and>
     map_of ?upload' ''file_name'' = Some (PStr (ascii ''a.txt'')) \<and>
     map_of ?upload' ''size_bytes'' = Some (PFloat (Finite False 4503599627370496 (- 52))) \<and>
     map_of ?upload' ''bucket'' = Some (PStr (ascii ''b'')) \<and>
     map_of ?upload' ''uploader'' = Some (PStr (ascii ''a@b.co''))"
    "(\<forall>i. PFloat (Finite False 4503599627370496 (- 52)) = PInt i \<longrightarrow> i < 0) \<and>
     (\<forall>t. PFloat (Finite False 4503599627370496 (- 52)) \<noteq> PBool t)"
    by (simp_all add: dict_get_def)
  note t1 = bool_counts_as_int [where event = ?payment and b = False and ctx = "()"
      and payment_id = "PStr (ascii ''p1'')" and user_id = "PBool False" and currency = "PStr (ascii ''USD'')"]
  note t2 = bool_counts_as_int [where event = ?signup and ctx = "()" and user_id = "PStr (ascii ''7'')"
      and email = "PStr (ascii ''a@b.co'')" and plan = "PStr (ascii ''pro'')"]
  note t3 = bool_counts_as_int [where event = ?upload and b = True and ctx = "()"]
  note t4 = bool_counts_as_int [where event = ?upload' and ctx = "()"
      and file_name = "PStr (ascii ''a.txt'')" and size_bytes = "PFloat (Finite False 4503599627370496 (- 52))"
      and bucket = "PStr (ascii ''b'')" and uploader = "PStr (ascii ''a@b.co'')"]
  have 1: "''user_id must be int'' \<notin> set (errors_of (handler (PDict ?payment) ()))"
    by (rule t1 [THEN conjunct1, THEN mp, OF p(1)])
  have "''amount must be positive number'' \<in> set (errors_of (handler (PDict ?payment) ()))
          \<longleftrightarrow> \<not> False"
    by (rule t1 [THEN conjunct2, THEN conjunct2, THEN conjunct1, THEN mp, OF p(2)])
  then have 2: "''amount must be positive number'' \<in> set (errors_of (handler (PDict ?payment) ()))"
    by (simp only: not_False_eq_True simp_thms)
  have "''user_id must be int'' \<in> set (errors_of (handler (PDict ?signup) ()))
          \<longleftrightarrow> (\<forall>i. PStr (ascii ''7'') \<noteq> PInt i) \<and> (\<forall>t. PStr (ascii ''7'') \<noteq> PBool t)"
    by (rule t2 [THEN conjunct2, THEN conjunct2, THEN conjunct2, THEN conjunct1, THEN mp, OF s(1)])
  with s(2) have 3: "''user_id must be int'' \<in> set (errors_of (handler (PDict ?signup) ()))"
    by (rule rev_iffD2)
  have 4: "''size_bytes must be >= 0'' \<notin> set (errors_of (handler (PDict ?upload) ()))"
    by (rule t3 [THEN conjunct2, THEN conjunct1, THEN mp, OF u])
  have "''size_bytes must be >= 0'' \<in> set (errors_of (handler (PDict ?upload') ()))
          \<longleftrightarrow> (\<forall>i. PFloat (Finite False 4503599627370496 (- 52)) = PInt i \<longrightarrow> i < 0) \<and>
              (\<forall>t. PFloat (Finite False 4503599627370496 (- 52)) \<noteq> PBool t)"
    by (rule t4 [THEN conjunct2, THEN conjunct2, THEN conjunct2, THEN conjunct2, THEN conjunct2,
          THEN mp, OF u'(1)])
  with u'(2) have 5: "''size_bytes must be >= 0'' \<in> set (errors_of (handler (PDict ?upload') ()))"
    by (rule rev_iffD2)
  from 1 2 3 4 5 show ?thesis
    by (intro conjI)
qed

text \<open>
  Claim C2, which says that for every input event the envelope \<open>handler\<close> returns has
  status \<open>ok\<close> exactly when it has no errors, has empty data exactly when its status is
  \<open>error\<close>, and carries the message \<open>Validation failed\<close> when it is an error envelope.
  Every envelope that is returned is such a one (lemma \<open>returned_envelope_invariant\<close>), and
  an event whose amount is not an integer of \<open>2^1024 - 2^970\<close> or more gets one (lemma
  \<open>handler_returns_envelope\<close>). But not every event gets an envelope: a payment that passes
  the four checks with the integer amount \<open>2^1024\<close> ends in \<open>OverflowError\<close>, raised by
  \<open>float(amount)\<close>.
\<close>

theorem handler_returns_no_envelope:
  "handler (PDict [(''type'', PStr (ascii ''PAYMENT'')), (''payment_id'', PStr (ascii ''order-7'')),
                   (''user_id'', PInt 42), (''amount'', PInt (2 ^ 1024)),
                   (''currency'', PStr (ascii ''EUR''))]) () = Inl OverflowError"
  by (rule payment_overflow [where payment_id = "ascii ''order-7''" and user_id = "PInt 42"
        and currency = "ascii ''EUR''" and amount = "2 ^ 1024"])
    (simp_all add: dict_get_def string_defs)

text \<open>
  Claim C3. An input that is not a dictionary gets the error envelope (status \<open>error\<close>,
  message \<open>Validation failed\<close>, no data) with exactly the error \<open>Invalid JSON structure\<close>;
  a dictionary whose \<open>type\<close> is none of \<open>USER_SIGNUP\<close>, \<open>PAYMENT\<close>, \<open>FILE_UPLOAD\<close>, or is
  absent, gets the error envelope with exactly the error \<open>Unknown event type\<close>.
\<close>

theorem dispatch_errors:
  "((\<forall>d. event \<noteq> PDict d) \<longrightarrow>
      handler event ctx =
        Inr \<lparr>status = ''error'', message = ''Validation failed'', data = [],
             errors = [''Invalid JSON structure'']\<rparr>) \<and>
   (dict_get d ''type'' \<notin> {PStr (ascii ''USER_SIGNUP''), PStr (ascii ''PAYMENT''),
                            PStr (ascii ''FILE_UPLOAD'')} \<longrightarrow>
      handler (PDict d) ctx =
        Inr \<lparr>status = ''error'', message = ''Validation failed'', data = [],
             errors = [''Unknown event type'']\<rparr>) \<and>
   (map_of d ''type'' = None \<longrightarrow>
      handler (PDict d) ctx =
        Inr \<lparr>status = ''error'', message = ''Validation failed'', data = [],
             errors = [''Unknown event type'']\<rparr>)"
proof (intro conjI impI)
  assume "\<forall>d. event \<noteq> PDict d"
  then show "handler event ctx =
        Inr \<lparr>status = ''error'', message = ''Validation failed'', data = [],
             errors = [''Invalid JSON structure'']\<rparr>"
    by (cases event) (simp_all add: error_response_def)
next
  assume "dict_get d ''type'' \<notin> {PStr (ascii ''USER_SIGNUP''), PStr (ascii ''PAYMENT''),
                                  PStr (ascii ''FILE_UPLOAD'')}"
  then have "handler (PDict d) ctx = Inr (error_response [''Unknown event type''])"
    by (simp add: handler_dispatch_unknown)
  then show "handler (PDict d) ctx =
        Inr \<lparr>status = ''error'', message = ''Validation failed'', data = [],
             errors = [''Unknown event type'']\<rparr>"
    by (simp only: error_response_def)
next
  assume "map_of d ''type'' = None"
  then have "dict_get d ''type'' = PNone"
    by (simp add: dict_get_def)
  then have "handler (PDict d) ctx = Inr (error_response [''Unknown event type''])"
    by (simp add: handler_dispatch_unknown)
  then show "handler (PDict d) ctx =
        Inr \<lparr>status = ''error'', message = ''Validation failed'', data = [],
             errors = [''Unknown event type'']\<rparr>"
    by (simp only: error_response_def)
qed

theorem dispatch_errors_witness:
  "handler (PList [PInt 1]) () =
     Inr \<lparr>status = ''error'', message = ''Validation failed'', data = [],
          errors = [''Invalid JSON structure'']\<rparr> \<and>
   handler (PStr (ascii ''PAYMENT'')) () =
     Inr \<lparr>status = ''error'', message = ''Validation failed'', data = [],
          errors = [''Invalid JSON structure'']\<rparr> \<and>
   handler (PDict [(''type'', PStr (ascii ''LOGIN''))]) () =
     Inr \<lparr>status = ''error'', message = ''Validation failed'', data = [],
          errors = [''Unknown event type'']\<rparr> \<and>
   handler (PDict [(''type'', PInt 7)]) () =
     Inr \<lparr>status = ''error'', message = ''Validation failed'', data = [],
          errors = [''Unknown event type'']\<rparr> \<and>
   handler (PDict [(''user_id'', PInt 1)]) () =
     Inr \<lparr>status = ''error'', message = ''Validation failed'', data = [],
          errors = [''Unknown event type'']\<rparr>"
proof -
  have a: "\<forall>d. PList [PInt 1] \<noteq> PDict d" and a': "\<forall>d. PStr (ascii ''PAYMENT'') \<noteq> PDict d"
    by simp_all
  have b: "dict_get [(''type'', PStr (ascii ''LOGIN''))] ''type''
             \<notin> {PStr (ascii ''USER_SIGNUP''), PStr (ascii ''PAYMENT''), PStr (ascii ''FILE_UPLOAD'')}"
    by (simp add: dict_get_def)
  have b': "dict_get [(''type'', PInt 7)] ''type''
             \<notin> {PStr (ascii ''USER_SIGNUP''), PStr (ascii ''PAYMENT''), PStr (ascii ''FILE_UPLOAD'')}"
    by (simp add: dict_get_def)
  have c: "map_of [(''user_id'', PInt 1)] ''type'' = None"
    by simp
  from a a' b b' c show ?thesis
    using dispatch_errors [of "PList [PInt 1]" "()" "[(''type'', PStr (ascii ''LOGIN''))]"]
      dispatch_errors [of "PStr (ascii ''PAYMENT'')" "()" "[(''type'', PInt 7)]"]
      dispatch_errors [of PNone "()" "[(''user_id'', PInt 1)]"]
    by blast
qed

text \<open>
  Claim C4. A \<open>USER_SIGNUP\<close> event that lacks at least one of \<open>user_id\<close>, \<open>email\<close>, \<open>plan\<close>
  gets the error envelope whose errors are exactly the messages \<open>Missing field: name\<close> of
  the absent fields, in that order; no error of the second phase appears beside them. An
  event with the type alone gets all three.
\<close>

theorem signup_missing_fields:
  "(dict_get event ''type'' = PStr (ascii ''USER_SIGNUP'') \<and>
    (\<exists>field \<in> set [''user_id'', ''email'', ''plan'']. map_of event field = None) \<longrightarrow>
      handler (PDict event) ctx =
        Inr \<lparr>status = ''error'', message = ''Validation failed'', data = [],
             errors = map (\<lambda>field. ''Missing field: '' @ field)
                        (filter (\<lambda>field. map_of event field = None)
                           [''user_id'', ''email'', ''plan''])\<rparr> \<and>
      ''user_id must be int'' \<notin> set (errors_of (handler (PDict event) ctx)) \<and>
      ''Invalid email'' \<notin> set (errors_of (handler (PDict event) ctx)) \<and>
      ''Invalid plan'' \<notin> set (errors_of (handler (PDict event) ctx))) \<and>
   handler (PDict [(''type'', PStr (ascii ''USER_SIGNUP''))]) ctx =
     Inr \<lparr>status = ''error'', message = ''Validation failed'', data = [],
          errors = [''Missing field: user_id'', ''Missing field: email'',
                    ''Missing field: plan'']\<rparr>"
proof (intro conjI impI)
  let ?required = "[''user_id'', ''email'', ''plan'']"
  let ?missing = "map (\<lambda>field. ''Missing field: '' @ field)
                    (filter (\<lambda>field. map_of event field = None) ?required)"
  assume a: "dict_get event ''type'' = PStr (ascii ''USER_SIGNUP'') \<and>
             (\<exists>field \<in> set ?required. map_of event field = None)"
  then have "check_required event ?required [] \<noteq> []"
    by (simp only: check_required_Nil) blast
  then have "handle_user_signup event = Inr (error_response (check_required event ?required []))"
    by (rule signup_missing)
  with a have run: "handler (PDict event) ctx = Inr (error_response ?missing)"
    by (simp only: handler_dispatch_signup check_required_filter append_Nil)
  then show "handler (PDict event) ctx =
        Inr \<lparr>status = ''error'', message = ''Validation failed'', data = [], errors = ?missing\<rparr>"
    by (simp only: error_response_def)
  show "''user_id must be int'' \<notin> set (errors_of (handler (PDict event) ctx))"
    unfolding run by (simp add: errors_of_def error_response_def)
  show "''Invalid email'' \<notin> set (errors_of (handler (PDict event) ctx))"
    unfolding run by (simp add: errors_of_def error_response_def)
  show "''Invalid plan'' \<notin> set (errors_of (handler (PDict event) ctx))"
    unfolding run by (simp add: errors_of_def error_response_def)
next
  show "handler (PDict [(''type'', PStr (ascii ''USER_SIGNUP''))]) ctx =
     Inr \<lparr>status = ''error'', message = ''Validation failed'', data = [],
          errors = [''Missing field: user_id'', ''Missing field: email'',
                    ''Missing field: plan'']\<rparr>"
    by (simp add: run_defs)
qed

theorem signup_missing_fields_witness:
  "dict_get [(''type'', PStr (ascii ''USER_SIGNUP'')), (''email'', PInt 7)] ''type'' = PStr (ascii ''USER_SIGNUP'') \<and>
   (\<exists>field \<in> set [''user_id'', ''email'', ''plan''].
      map_of [(''type'', PStr (ascii ''USER_SIGNUP'')), (''email'', PInt 7)] field = None) \<and>
   handler (PDict [(''type'', PStr (ascii ''USER_SIGNUP'')), (''email'', PInt 7)]) () =
     Inr \<lparr>status = ''error'', message = ''Validation failed'', data = [],
          errors = [''Missing field: user_id'', ''Missing field: plan'']\<rparr> \<and>
   ''Invalid email'' \<notin> set (errors_of (handler (PDict [(''type'', PStr (ascii ''USER_SIGNUP'')), (''email'', PInt 7)]) ()))"
proof -
  have a: "dict_get [(''type'', PStr (ascii ''USER_SIGNUP'')), (''email'', PInt 7)] ''type'' = PStr (ascii ''USER_SIGNUP'')"
    by (simp add: dict_get_def)
  have b: "\<exists>field \<in> set [''user_id'', ''email'', ''plan''].
      map_of [(''type'', PStr (ascii ''USER_SIGNUP'')), (''email'', PInt 7)] field = None"
    by simp
  from a b show ?thesis
    using signup_missing_fields [of "[(''type'', PStr (ascii ''USER_SIGNUP'')), (''email'', PInt 7)]" "()"]
    by (simp add: run_defs errors_of_def)
qed

text \<open>
  Claim C5. The second phase of the payment validator reports every failed check: with all
  four fields present and at least one check failing, the errors are the messages of the
  failing checks, in the order \<open>payment_id\<close>, \<open>user_id\<close>, \<open>amount\<close>, \<open>currency\<close>. The
  event with \<open>payment_id\<close> 123, \<open>user_id\<close> "x", \<open>amount\<close> -5 and \<open>currency\<close> "XXX" gets
  status \<open>error\<close> and exactly the four of them.
\<close>

theorem payment_errors_accumulate:
  "(dict_get event ''type'' = PStr (ascii ''PAYMENT'') \<and>
    map_of event ''payment_id'' = Some payment_id \<and>
    map_of event ''user_id'' = Some user_id \<and>
    map_of event ''amount'' = Some amount \<and>
    map_of event ''currency'' = Some currency \<and>
    (\<not> isinstance_str payment_id \<or> \<not> isinstance_int user_id \<or> bad_amount amount \<or>
     bad_currency currency) \<longrightarrow>
      handler (PDict event) ctx =
        Inr \<lparr>status = ''error'', message = ''Validation failed'', data = [],
             errors =
               (if \<not> isinstance_str payment_id then [''payment_id must be string''] else []) @
               (if \<not> isinstance_int user_id then [''user_id must be int''] else []) @
               (if bad_amount amount then [''amount must be positive number''] else []) @
               (if bad_currency currency then [''Invalid currency''] else [])\<rparr>) \<and>
   handler (PDict [(''type'', PStr (ascii ''PAYMENT'')), (''payment_id'', PInt 123),
                   (''user_id'', PStr (ascii ''x'')), (''amount'', PInt (- 5)),
                   (''currency'', PStr (ascii ''XXX''))]) ctx =
     Inr \<lparr>status = ''error'', message = ''Validation failed'', data = [],
          errors = [''payment_id must be string'', ''user_id must be int'',
                    ''amount must be positive number'', ''Invalid currency'']\<rparr>"
proof (intro conjI impI)
  assume a: "dict_get event ''type'' = PStr (ascii ''PAYMENT'') \<and>
    map_of event ''payment_id'' = Some payment_id \<and>
    map_of event ''user_id'' = Some user_id \<and>
    map_of event ''amount'' = Some amount \<and>
    map_of event ''currency'' = Some currency \<and>
    (\<not> isinstance_str payment_id \<or> \<not> isinstance_int user_id \<or> bad_amount amount \<or>
     bad_currency currency)"
  then have bad: "payment_checks payment_id user_id amount currency \<noteq> []"
    by (simp only: payment_checks_Nil) blast
  from a have "handler (PDict event) ctx = handle_payment event"
    by (simp only: handler_dispatch_payment)
  also from a bad
  have "\<dots> = Inr (error_response (payment_checks payment_id user_id amount currency))"
    by (simp add: payment_present [of event payment_id user_id amount currency])
  finally show "handler (PDict event) ctx =
        Inr \<lparr>status = ''error'', message = ''Validation failed'', data = [],
             errors =
               (if \<not> isinstance_str payment_id then [''payment_id must be string''] else []) @
               (if \<not> isinstance_int user_id then [''user_id must be int''] else []) @
               (if bad_amount amount then [''amount must be positive number''] else []) @
               (if bad_currency currency then [''Invalid currency''] else [])\<rparr>"
    by (simp only: error_response_def payment_checks_def)
next
  show "handler (PDict [(''type'', PStr (ascii ''PAYMENT'')), (''payment_id'', PInt 123),
                   (''user_id'', PStr (ascii ''x'')), (''amount'', PInt (- 5)),
                   (''currency'', PStr (ascii ''XXX''))]) ctx =
     Inr \<lparr>status = ''error'', message = ''Validation failed'', data = [],
          errors = [''payment_id must be string'', ''user_id must be int'',
                    ''amount must be positive number'', ''Invalid currency'']\<rparr>"
    by (simp add: run_defs check_defs string_defs)
qed

theorem payment_errors_accumulate_witness:
  "dict_get [(''type'', PStr (ascii ''PAYMENT'')), (''payment_id'', PStr (ascii ''p9'')), (''user_id'', PNone),
             (''amount'', PInt 0), (''currency'', PStr (ascii ''eur''))] ''type'' = PStr (ascii ''PAYMENT'') \<and>
   \<not> isinstance_int PNone \<and> bad_amount (PInt 0) \<and>
   handler (PDict [(''type'', PStr (ascii ''PAYMENT'')), (''payment_id'', PStr (ascii ''p9'')), (''user_id'', PNone),
             (''amount'', PInt 0), (''currency'', PStr (ascii ''eur''))]) () =
     Inr \<lparr>status = ''error'', message = ''Validation failed'', data = [],
          errors = [''user_id must be int'', ''amount must be positive number'']\<rparr>"
  using payment_errors_accumulate [of "[(''type'', PStr (ascii ''PAYMENT'')), (''payment_id'', PStr (ascii ''p9'')),
      (''user_id'', PNone), (''amount'', PInt 0), (''currency'', PStr (ascii ''eur''))]"
      "PStr (ascii ''p9'')" PNone "PInt 0" "PStr (ascii ''eur'')" "()"]
  by (simp add: dict_get_def check_defs string_defs)

text \<open>
  Claim C6, which says that every valid \<open>PAYMENT\<close> event gets success data with the
  currency in upper case, the amount cast to a float and rounded to three decimals, the
  fee \<open>round(amount * 0.02, 3)\<close> and the net amount \<open>round(amount - fee, 3)\<close>. So it is
  whenever the cast returns (lemma \<open>payment_success\<close>; lemma \<open>payment_example\<close> for the
  amount 100), and the roundings always return (lemma \<open>payment_roundings_return\<close>). The
  cast does not return for every valid event: the event of the claim's
  example with the integer amount \<open>10^400\<close> passes the four checks and ends in
  \<open>OverflowError\<close>, with no data at all.
\<close>

theorem payment_amount_overflow:
  "handler (PDict [(''type'', PStr (ascii ''PAYMENT'')), (''payment_id'', PStr (ascii ''p1'')),
                   (''user_id'', PInt 1), (''amount'', PInt (10 ^ 400)),
                   (''currency'', PStr (ascii ''usd''))]) () = Inl OverflowError"
  by (rule payment_overflow [where payment_id = "ascii ''p1''" and user_id = "PInt 1"
        and currency = "ascii ''usd''" and amount = "10 ^ 400"])
    (simp_all add: dict_get_def string_defs)

text \<open>
  Claim C7. A \<open>FILE_UPLOAD\<close> event that passes every check gets the success envelope whose
  storage class is decided by the integer in \<open>size_bytes\<close> alone: \<open>STANDARD\<close> below
  1,000,000, \<open>STANDARD_IA\<close> from there to below 50,000,000, \<open>GLACIER\<close> from 50,000,000 on.
  So 999999 gives \<open>STANDARD\<close>, 1000000 and 49999999 give \<open>STANDARD_IA\<close>, and 50000000 gives
  \<open>GLACIER\<close>. The other data are the file name stripped of whitespace, the bucket and the
  uploader in lower case, as \<open>str.strip\<close> and \<open>str.lower\<close> give them for any Unicode text,
  and \<open>size_bytes\<close> as given.
\<close>

theorem upload_storage_class:
  "(dict_get event ''type'' = PStr (ascii ''FILE_UPLOAD'') \<and>
    map_of event ''file_name'' = Some (PStr file_name) \<and>
    map_of event ''size_bytes'' = Some size_bytes \<and> isinstance_int size_bytes \<and>
    0 \<le> int_value size_bytes \<and>
    map_of event ''bucket'' = Some (PStr bucket) \<and>
    map_of event ''uploader'' = Some (PStr uploader) \<and> is_valid_email uploader \<longrightarrow>
      handler (PDict event) ctx =
        Inr \<lparr>status = ''ok'', message = ''Upload processed'',
             data = [(''file_name'', PStr (py_strip file_name)),
                     (''size_bytes'', size_bytes),
                     (''bucket'', PStr (py_lower bucket)),
                     (''uploader'', PStr (py_lower uploader)),
                     (''storage_class'', PStr (storage_class (int_value size_bytes)))],
             errors = []\<rparr>) \<and>
   (n < 1000000 \<longrightarrow> storage_class n = ascii ''STANDARD'') \<and>
   (1000000 \<le> n \<and> n < 50000000 \<longrightarrow> storage_class n = ascii ''STANDARD_IA'') \<and>
   (50000000 \<le> n \<longrightarrow> storage_class n = ascii ''GLACIER'') \<and>
   storage_class 999999 = ascii ''STANDARD'' \<and>
   storage_class 1000000 = ascii ''STANDARD_IA'' \<and>
   storage_class 49999999 = ascii ''STANDARD_IA'' \<and>
   storage_class 50000000 = ascii ''GLACIER''"
proof (intro conjI impI)
  assume a: "dict_get event ''type'' = PStr (ascii ''FILE_UPLOAD'') \<and>
    map_of event ''file_name'' = Some (PStr file_name) \<and>
    map_of event ''size_bytes'' = Some size_bytes \<and> isinstance_int size_bytes \<and>
    0 \<le> int_value size_bytes \<and>
    map_of event ''bucket'' = Some (PStr bucket) \<and>
    map_of event ''uploader'' = Some (PStr uploader) \<and> is_valid_email uploader"
  then have ok: "upload_checks (PStr file_name) size_bytes (PStr bucket) (PStr uploader) = []"
    by (simp add: upload_checks_Nil bad_email_def bad_size_def)
  from a have "handler (PDict event) ctx = handle_file_upload event"
    by (simp only: handler_dispatch_upload)
  also from a have "\<dots> =
     (if upload_checks (PStr file_name) size_bytes (PStr bucket) (PStr uploader) \<noteq> []
      then Inr (error_response
                  (upload_checks (PStr file_name) size_bytes (PStr bucket) (PStr uploader)))
      else
        and_then (str_strip (PStr file_name)) (\<lambda>file_name'.
        and_then (str_lower (PStr bucket)) (\<lambda>bucket'.
        and_then (str_lower (PStr uploader)) (\<lambda>uploader'.
          Inr \<lparr>status = ''ok'',
               message = ''Upload processed'',
               data =
                 [(''file_name'', PStr file_name'),
                  (''size_bytes'', size_bytes),
                  (''bucket'', PStr bucket'),
                  (''uploader'', PStr uploader'),
                  (''storage_class'', PStr (storage_class (int_value size_bytes)))],
               errors = []\<rparr>))))"
    by (intro upload_present) simp_all
  finally show "handler (PDict event) ctx =
        Inr \<lparr>status = ''ok'', message = ''Upload processed'',
             data = [(''file_name'', PStr (py_strip file_name)),
                     (''size_bytes'', size_bytes),
                     (''bucket'', PStr (py_lower bucket)),
                     (''uploader'', PStr (py_lower uploader)),
                     (''storage_class'', PStr (storage_class (int_value size_bytes)))],
             errors = []\<rparr>"
    by (simp add: ok and_then_def)
qed (simp_all add: storage_class_def)

theorem upload_storage_class_witness:
  "isinstance_int (PInt 50000000) \<and> 0 \<le> int_value (PInt 50000000) \<and>
   is_valid_email (ascii ''Ops@Example.com'') \<and>
   handler (PDict [(''type'', PStr (ascii ''FILE_UPLOAD'')),
                   (''file_name'', PStr (ascii '' report.pdf '')),
                   (''size_bytes'', PInt 50000000), (''bucket'', PStr (ascii ''Archive'')),
                   (''uploader'', PStr (ascii ''Ops@Example.com''))]) () =
     Inr \<lparr>status = ''ok'', message = ''Upload processed'',
          data = [(''file_name'', PStr (ascii ''report.pdf'')),
                  (''size_bytes'', PInt 50000000),
                  (''bucket'', PStr (ascii ''archive'')),
                  (''uploader'', PStr (ascii ''ops@example.com'')),
                  (''storage_class'', PStr (ascii ''GLACIER''))],
          errors = []\<rparr> \<and>
   isinstance_int (PBool True) \<and> 0 \<le> int_value (PBool True) \<and>
   is_valid_email (0xC9 # ascii ''va@Example.com'') \<and>
   handler (PDict [(''uploader'', PStr (0xC9 # ascii ''va@Example.com'')),
                   (''bucket'', PStr (ascii ''M'' @ [0xDC] @ ascii ''NCHEN'')),
                   (''size_bytes'', PBool True),
                   (''file_name'', PStr (0xA0 # ascii ''caf'' @ [0xE9, 0x2003, 0x0A])),
                   (''type'', PStr (ascii ''FILE_UPLOAD''))]) () =
     Inr \<lparr>status = ''ok'', message = ''Upload processed'',
          data = [(''file_name'', PStr (ascii ''caf'' @ [0xE9])),
                  (''size_bytes'', PBool True),
                  (''bucket'', PStr (ascii ''m'' @ [0xFC] @ ascii ''nchen'')),
                  (''uploader'', PStr (0xE9 # ascii ''va@example.com'')),
                  (''storage_class'', PStr (ascii ''STANDARD''))],
          errors = []\<rparr> \<and>
   storage_class 1000007 = ascii ''STANDARD_IA''"
  using upload_storage_class [of "[(''type'', PStr (ascii ''FILE_UPLOAD'')),
                   (''file_name'', PStr (ascii '' report.pdf '')),
                   (''size_bytes'', PInt 50000000), (''bucket'', PStr (ascii ''Archive'')),
                   (''uploader'', PStr (ascii ''Ops@Example.com''))]"
                   "ascii '' report.pdf ''" "PInt 50000000"
                   "ascii ''Archive''" "ascii ''Ops@Example.com''" "()" 1000007]
    upload_storage_class [of "[(''uploader'', PStr (0xC9 # ascii ''va@Example.com'')),
                   (''bucket'', PStr (ascii ''M'' @ [0xDC] @ ascii ''NCHEN'')),
                   (''size_bytes'', PBool True),
                   (''file_name'', PStr (0xA0 # ascii ''caf'' @ [0xE9, 0x2003, 0x0A])),
                   (''type'', PStr (ascii ''FILE_UPLOAD''))]"
                   "0xA0 # ascii ''caf'' @ [0xE9, 0x2003, 0x0A]" "PBool True"
                   "ascii ''M'' @ [0xDC] @ ascii ''NCHEN''" "0xC9 # ascii ''va@Example.com''"
                   "()" 1]
  by (simp add: dict_get_def string_defs unicode_defs)

text \<open>
  Claim C8. A \<open>USER_SIGNUP\<close> event that passes every check gets status \<open>ok\<close>, the message
  \<open>Signup processed\<close> and the data: \<open>user_id\<close> as given, \<open>email\<close> and \<open>plan\<close> in lower
  case, as \<open>str.lower\<close> gives them for any Unicode text, and the welcome subject built from
  the lower-case plan.
\<close>

theorem signup_success:
  "(dict_get event ''type'' = PStr (ascii ''USER_SIGNUP'') \<and>
    map_of event ''user_id'' = Some user_id \<and> isinstance_int user_id \<and>
    map_of event ''email'' = Some (PStr email) \<and> is_valid_email email \<and>
    map_of event ''plan'' = Some (PStr plan) \<and> py_lower plan \<in> {ascii ''free'', ascii ''pro'', ascii ''edu''} \<longrightarrow>
      handler (PDict event) ctx =
        Inr \<lparr>status = ''ok'', message = ''Signup processed'',
             data = [(''user_id'', user_id),
                     (''email'', PStr (py_lower email)),
                     (''plan'', PStr (py_lower plan)),
                     (''welcome_email_subject'',
                        PStr (ascii ''Welcome to the '' @ py_lower plan @ ascii '' plan!''))],
             errors = []\<rparr>) \<and>
   handler (PDict [(''type'', PStr (ascii ''USER_SIGNUP'')), (''user_id'', PInt 1),
                   (''email'', PStr (ascii ''A@B.COM'')), (''plan'', PStr (ascii ''FREE''))]) ctx =
     Inr \<lparr>status = ''ok'', message = ''Signup processed'',
          data = [(''user_id'', PInt 1),
                  (''email'', PStr (ascii ''a@b.com'')),
                  (''plan'', PStr (ascii ''free'')),
                  (''welcome_email_subject'', PStr (ascii ''Welcome to the free plan!''))],
          errors = []\<rparr>"
proof (intro conjI impI)
  assume a: "dict_get event ''type'' = PStr (ascii ''USER_SIGNUP'') \<and>
    map_of event ''user_id'' = Some user_id \<and> isinstance_int user_id \<and>
    map_of event ''email'' = Some (PStr email) \<and> is_valid_email email \<and>
    map_of event ''plan'' = Some (PStr plan) \<and> py_lower plan \<in> {ascii ''free'', ascii ''pro'', ascii ''edu''}"
  then have ok: "signup_checks user_id (PStr email) (PStr plan) = []"
    by (simp add: signup_checks_Nil bad_email_def bad_plan_def)
  from a have "handler (PDict event) ctx = handle_user_signup event"
    by (simp only: handler_dispatch_signup)
  also from a have "\<dots> =
     (if signup_checks user_id (PStr email) (PStr plan) \<noteq> []
      then Inr (error_response (signup_checks user_id (PStr email) (PStr plan)))
      else
        and_then (str_lower (PStr email)) (\<lambda>email'.
        and_then (str_lower (PStr plan)) (\<lambda>plan'.
          Inr \<lparr>status = ''ok'',
               message = ''Signup processed'',
               data =
                 [(''user_id'', user_id),
                  (''email'', PStr email'),
                  (''plan'', PStr plan'),
                  (''welcome_email_subject'',
                     PStr (ascii ''Welcome to the '' @ plan' @ ascii '' plan!''))],
               errors = []\<rparr>)))"
    by (intro signup_present) simp_all
  finally show "handler (PDict event) ctx =
        Inr \<lparr>status = ''ok'', message = ''Signup processed'',
             data = [(''user_id'', user_id),
                     (''email'', PStr (py_lower email)),
                     (''plan'', PStr (py_lower plan)),
                     (''welcome_email_subject'',
                        PStr (ascii ''Welcome to the '' @ py_lower plan @ ascii '' plan!''))],
             errors = []\<rparr>"
    by (simp add: ok and_then_def)
next
  show "handler (PDict [(''type'', PStr (ascii ''USER_SIGNUP'')), (''user_id'', PInt 1),
                   (''email'', PStr (ascii ''A@B.COM'')), (''plan'', PStr (ascii ''FREE''))]) ctx =
     Inr \<lparr>status = ''ok'', message = ''Signup processed'',
          data = [(''user_id'', PInt 1),
                  (''email'', PStr (ascii ''a@b.com'')),
                  (''plan'', PStr (ascii ''free'')),
                  (''welcome_email_subject'', PStr (ascii ''Welcome to the free plan!''))],
          errors = []\<rparr>"
    by (simp add: run_defs check_defs string_defs)
qed

theorem signup_success_witness:
  "dict_get [(''type'', PStr (ascii ''USER_SIGNUP'')), (''plan'', PStr (ascii ''Edu'')),
             (''user_id'', PInt 42), (''email'', PStr (ascii ''Ann@Example.org''))] ''type'' =
     PStr (ascii ''USER_SIGNUP'') \<and>
   isinstance_int (PInt 42) \<and> is_valid_email (ascii ''Ann@Example.org'') \<and>
   py_lower (ascii ''Edu'') \<in> {ascii ''free'', ascii ''pro'', ascii ''edu''} \<and>
   handler (PDict [(''type'', PStr (ascii ''USER_SIGNUP'')), (''plan'', PStr (ascii ''Edu'')),
                   (''user_id'', PInt 42), (''email'', PStr (ascii ''Ann@Example.org''))]) () =
     Inr \<lparr>status = ''ok'', message = ''Signup processed'',
          data = [(''user_id'', PInt 42),
                  (''email'', PStr (ascii ''ann@example.org'')),
                  (''plan'', PStr (ascii ''edu'')),
                  (''welcome_email_subject'', PStr (ascii ''Welcome to the edu plan!''))],
          errors = []\<rparr> \<and>
   is_valid_email (0xC9 # ascii ''@B.co'') \<and>
   py_lower (ascii ''PRO'') \<in> {ascii ''free'', ascii ''pro'', ascii ''edu''} \<and>
   handler (PDict [(''email'', PStr (0xC9 # ascii ''@B.co'')), (''user_id'', PBool True),
                   (''type'', PStr (ascii ''USER_SIGNUP'')), (''plan'', PStr (ascii ''PRO''))]) () =
     Inr \<lparr>status = ''ok'', message = ''Signup processed'',
          data = [(''user_id'', PBool True),
                  (''email'', PStr (0xE9 # ascii ''@b.co'')),
                  (''plan'', PStr (ascii ''pro'')),
                  (''welcome_email_subject'', PStr (ascii ''Welcome to the pro plan!''))],
          errors = []\<rparr>"
  using signup_success [of "[(''type'', PStr (ascii ''USER_SIGNUP'')), (''plan'', PStr (ascii ''Edu'')),
      (''user_id'', PInt 42), (''email'', PStr (ascii ''Ann@Example.org''))]" "PInt 42"
      "ascii ''Ann@Example.org''" "ascii ''Edu''" "()"]
    signup_success [of "[(''email'', PStr (0xC9 # ascii ''@B.co'')), (''user_id'', PBool True),
      (''type'', PStr (ascii ''USER_SIGNUP'')), (''plan'', PStr (ascii ''PRO''))]" "PBool True"
      "0xC9 # ascii ''@B.co''" "ascii ''PRO''" "()"]
  by (simp add: dict_get_def string_defs unicode_defs)

text \<open>
  Claim C10. Presence is a matter of the key alone: whatever value a key of the event
  holds, no run reports \<open>Missing field\<close> for that key. A \<open>None\<close> under a required key is
  reported by the check of the second phase instead, which runs when every required key is
  present: a signup event with \<open>user_id: None\<close> gets \<open>user_id must be int\<close>, and so for
  each required field of each validator.
\<close>

theorem presence_by_key:
  "(map_of event key \<noteq> None \<longrightarrow>
      ''Missing field: '' @ key \<notin> set (errors_of (handler (PDict event) ctx))) \<and>
   (dict_get event ''type'' = PStr (ascii ''USER_SIGNUP'') \<and>
    map_of event ''user_id'' = Some user_id \<and> map_of event ''email'' = Some email \<and>
    map_of event ''plan'' = Some plan \<longrightarrow>
      (user_id = PNone \<longrightarrow>
         ''user_id must be int'' \<in> set (errors_of (handler (PDict event) ctx))) \<and>
      (email = PNone \<longrightarrow>
         ''Invalid email'' \<in> set (errors_of (handler (PDict event) ctx))) \<and>
      (plan = PNone \<longrightarrow>
         ''Invalid plan'' \<in> set (errors_of (handler (PDict event) ctx)))) \<and>
   (dict_get event ''type'' = PStr (ascii ''PAYMENT'') \<and>
    map_of event ''payment_id'' = Some payment_id \<and> map_of event ''user_id'' = Some user_id \<and>
    map_of event ''amount'' = Some amount \<and> map_of event ''currency'' = Some currency \<longrightarrow>
      (payment_id = PNone \<longrightarrow>
         ''payment_id must be string'' \<in> set (errors_of (handler (PDict event) ctx))) \<and>
      (user_id = PNone \<longrightarrow>
         ''user_id must be int'' \<in> set (errors_of (handler (PDict event) ctx))) \<and>
      (amount = PNone \<longrightarrow>
         ''amount must be positive number'' \<in> set (errors_of (handler (PDict event) ctx))) \<and>
      (currency = PNone \<longrightarrow>
         ''Invalid currency'' \<in> set (errors_of (handler (PDict event) ctx)))) \<and>
   (dict_get event ''type'' = PStr (ascii ''FILE_UPLOAD'') \<and>
    map_of event ''file_name'' = Some file_name \<and> map_of event ''size_bytes'' = Some size_bytes \<and>
    map_of event ''bucket'' = Some bucket \<and> map_of event ''uploader'' = Some uploader \<longrightarrow>
      (file_name = PNone \<longrightarrow>
         ''file_name must be string'' \<in> set (errors_of (handler (PDict event) ctx))) \<and>
      (size_bytes = PNone \<longrightarrow>
         ''size_bytes must be >= 0'' \<in> set (errors_of (handler (PDict event) ctx))) \<and>
      (bucket = PNone \<longrightarrow>
         ''bucket must be string'' \<in> set (errors_of (handler (PDict event) ctx))) \<and>
      (uploader = PNone \<longrightarrow>
         ''Invalid uploader email'' \<in> set (errors_of (handler (PDict event) ctx))))"
proof (intro conjI impI)
  assume "map_of event key \<noteq> None"
  then show "''Missing field: '' @ key \<notin> set (errors_of (handler (PDict event) ctx))"
    by (rule present_never_missing)
next
  assume a: "dict_get event ''type'' = PStr (ascii ''USER_SIGNUP'') \<and>
    map_of event ''user_id'' = Some user_id \<and> map_of event ''email'' = Some email \<and>
    map_of event ''plan'' = Some plan"
  then have run: "errors_of (handler (PDict event) ctx) = signup_checks user_id email plan"
    by (simp only: handler_errors_signup)
  show "''user_id must be int'' \<in> set (errors_of (handler (PDict event) ctx))"
    if "user_id = PNone"
    unfolding run using that by (simp add: signup_checks_def)
  show "''Invalid email'' \<in> set (errors_of (handler (PDict event) ctx))" if "email = PNone"
    unfolding run using that by (simp add: signup_checks_def bad_email_def)
  show "''Invalid plan'' \<in> set (errors_of (handler (PDict event) ctx))" if "plan = PNone"
    unfolding run using that by (simp add: signup_checks_def bad_plan_def)
next
  assume a: "dict_get event ''type'' = PStr (ascii ''PAYMENT'') \<and>
    map_of event ''payment_id'' = Some payment_id \<and> map_of event ''user_id'' = Some user_id \<and>
    map_of event ''amount'' = Some amount \<and> map_of event ''currency'' = Some currency"
  then have run: "errors_of (handler (PDict event) ctx) =
      payment_checks payment_id user_id amount currency"
    by (simp only: handler_errors_payment)
  show "''payment_id must be string'' \<in> set (errors_of (handler (PDict event) ctx))"
    if "payment_id = PNone"
    unfolding run using that by (simp add: payment_checks_def)
  show "''user_id must be int'' \<in> set (errors_of (handler (PDict event) ctx))"
    if "user_id = PNone"
    unfolding run using that by (simp add: payment_checks_def)
  show "''amount must be positive number'' \<in> set (errors_of (handler (PDict event) ctx))"
    if "amount = PNone"
    unfolding run using that by (simp add: payment_checks_def bad_amount_def)
  show "''Invalid currency'' \<in> set (errors_of (handler (PDict event) ctx))"
    if "currency = PNone"
    unfolding run using that by (simp add: payment_checks_def bad_currency_def)
next
  assume a: "dict_get event ''type'' = PStr (ascii ''FILE_UPLOAD'') \<and>
    map_of event ''file_name'' = Some file_name \<and> map_of event ''size_bytes'' = Some size_bytes \<and>
    map_of event ''bucket'' = Some bucket \<and> map_of event ''uploader'' = Some uploader"
  then have run: "errors_of (handler (PDict event) ctx) =
      upload_checks file_name size_bytes bucket uploader"
    by (simp only: handler_errors_upload)
  show "''file_name must be string'' \<in> set (errors_of (handler (PDict event) ctx))"
    if "file_name = PNone"
    unfolding run using that by (simp add: upload_checks_def)
  show "''size_bytes must be >= 0'' \<in> set (errors_of (handler (PDict event) ctx))"
    if "size_bytes = PNone"
    unfolding run using that by (simp add: upload_checks_def bad_size_def)
  show "''bucket must be string'' \<in> set (errors_of (handler (PDict event) ctx))"
    if "bucket = PNone"
    unfolding run using that by (simp add: upload_checks_def)
  show "''Invalid uploader email'' \<in> set (errors_of (handler (PDict event) ctx))"
    if "uploader = PNone"
    unfolding run using that by (simp add: upload_checks_def bad_email_def)
qed

theorem presence_by_key_witness:
  "map_of [(''type'', PStr (ascii ''USER_SIGNUP'')), (''user_id'', PNone), (''email'', PStr (ascii ''a@b.co'')),
           (''plan'', PStr (ascii ''pro''))] ''user_id'' \<noteq> None \<and>
   ''Missing field: '' @ ''user_id'' \<notin> set (errors_of (handler (PDict
      [(''type'', PStr (ascii ''USER_SIGNUP'')), (''user_id'', PNone), (''email'', PStr (ascii ''a@b.co'')),
       (''plan'', PStr (ascii ''pro''))]) ())) \<and>
   ''user_id must be int'' \<in> set (errors_of (handler (PDict
      [(''type'', PStr (ascii ''USER_SIGNUP'')), (''user_id'', PNone), (''email'', PStr (ascii ''a@b.co'')),
       (''plan'', PStr (ascii ''pro''))]) ())) \<and>
   ''amount must be positive number'' \<in> set (errors_of (handler (PDict
      [(''type'', PStr (ascii ''PAYMENT'')), (''payment_id'', PStr (ascii ''p1'')), (''user_id'', PInt 1),
       (''amount'', PNone), (''currency'', PStr (ascii ''USD''))]) ())) \<and>
   ''bucket must be string'' \<in> set (errors_of (handler (PDict
      [(''type'', PStr (ascii ''FILE_UPLOAD'')), (''file_name'', PStr (ascii ''a.txt'')), (''size_bytes'', PInt 1),
       (''bucket'', PNone), (''uploader'', PStr (ascii ''a@b.co''))]) ()))"
proof -
  let ?signup = "[(''type'', PStr (ascii ''USER_SIGNUP'')), (''user_id'', PNone),
                  (''email'', PStr (ascii ''a@b.co'')), (''plan'', PStr (ascii ''pro''))]"
  let ?payment = "[(''type'', PStr (ascii ''PAYMENT'')), (''payment_id'', PStr (ascii ''p1'')),
                   (''user_id'', PInt 1), (''amount'', PNone), (''currency'', PStr (ascii ''USD''))]"
  let ?upload = "[(''type'', PStr (ascii ''FILE_UPLOAD'')), (''file_name'', PStr (ascii ''a.txt'')),
                  (''size_bytes'', PInt 1), (''bucket'', PNone), (''uploader'', PStr (ascii ''a@b.co''))]"
  have s: "map_of ?signup ''user_id'' \<noteq> None"
    "dict_get ?signup ''type'' = PStr (ascii ''USER_SIGNUP'') \<and>
     map_of ?signup ''user_id'' = Some PNone \<and> map_of ?signup ''email'' = Some (PStr (ascii ''a@b.co'')) \<and>
     map_of ?signup ''plan'' = Some (PStr (ascii ''pro''))"
    by (simp_all add: dict_get_def)
  have p: "dict_get ?payment ''type'' = PStr (ascii ''PAYMENT'') \<and>
     map_of ?payment ''payment_id'' = Some (PStr (ascii ''p1'')) \<and>
     map_of ?payment ''user_id'' = Some (PInt 1) \<and>
     map_of ?payment ''amount'' = Some PNone \<and> map_of ?payment ''currency'' = Some (PStr (ascii ''USD''))"
    by (simp add: dict_get_def)
  have u: "dict_get ?upload ''type'' = PStr (ascii ''FILE_UPLOAD'') \<and>
     map_of ?upload ''file_name'' = Some (PStr (ascii ''a.txt'')) \<and>
     map_of ?upload ''size_bytes'' = Some (PInt 1) \<and>
     map_of ?upload ''bucket'' = Some PNone \<and> map_of ?upload ''uploader'' = Some (PStr (ascii ''a@b.co''))"
    by (simp add: dict_get_def)
  note t1 = presence_by_key [of ?signup "''user_id''" "()" PNone "PStr (ascii ''a@b.co'')" "PStr (ascii ''pro'')"]
  note t2 = presence_by_key [of ?payment "''type''" "()" "PInt 1" _ _ "PStr (ascii ''p1'')" PNone "PStr (ascii ''USD'')"]
  note t3 = presence_by_key [of ?upload "''type''" "()" _ _ _ _ _ _ "PStr (ascii ''a.txt'')" "PInt 1"
      PNone "PStr (ascii ''a@b.co'')"]
  from s t1 have 1: "''Missing field: '' @ ''user_id'' \<notin> set (errors_of (handler (PDict ?signup) ()))"
    "''user_id must be int'' \<in> set (errors_of (handler (PDict ?signup) ()))"
    by blast+
  from p t2 have 2: "''amount must be positive number'' \<in> set (errors_of (handler (PDict ?payment) ()))"
    by blast
  from u t3 have 3: "''bucket must be string'' \<in> set (errors_of (handler (PDict ?upload) ()))"
    by blast
  from s(1) 1 2 3 show ?thesis
    by blast
qed

end
